theory Spec2Isabelle
  imports Complex_Main "HOL-Library.Multiset" "HOL-Library.Log_Nat"
begin

section \<open>NumPy float64 values\<close>

text \<open>
  Every array of the stacker holds float64 values.  A value is a finite number, one of the
  two infinities, or NaN.  The sign of zero is not modelled.

  An arithmetic operation computes the exact result of finite operands and hands it to a
  rounding function \<open>rnd\<close>, a parameter of the whole model: \<open>round64\<close> is IEEE 754 binary64
  with round-to-nearest, ties-to-even, which is what NumPy computes; \<open>Fin\<close> rounds nothing
  and gives exact arithmetic.  The special values follow IEEE 754.
\<close>

datatype npfloat = Fin real | PInf | NInf | NaN

type_synonym rounding = "real \<Rightarrow> npfloat"

fun fadd :: "rounding \<Rightarrow> npfloat \<Rightarrow> npfloat \<Rightarrow> npfloat" where
  "fadd rnd (Fin x) (Fin y) = rnd (x + y)"
| "fadd rnd NaN b = NaN"
| "fadd rnd a NaN = NaN"
| "fadd rnd PInf NInf = NaN"
| "fadd rnd NInf PInf = NaN"
| "fadd rnd PInf b = PInf"
| "fadd rnd a PInf = PInf"
| "fadd rnd NInf b = NInf"
| "fadd rnd a NInf = NInf"

fun fmul :: "rounding \<Rightarrow> npfloat \<Rightarrow> npfloat \<Rightarrow> npfloat" where
  "fmul rnd (Fin x) (Fin y) = rnd (x * y)"
| "fmul rnd NaN b = NaN"
| "fmul rnd a NaN = NaN"
| "fmul rnd (Fin x) PInf = (if x = 0 then NaN else if 0 < x then PInf else NInf)"
| "fmul rnd (Fin x) NInf = (if x = 0 then NaN else if 0 < x then NInf else PInf)"
| "fmul rnd PInf (Fin y) = (if y = 0 then NaN else if 0 < y then PInf else NInf)"
| "fmul rnd NInf (Fin y) = (if y = 0 then NaN else if 0 < y then NInf else PInf)"
| "fmul rnd PInf PInf = PInf"
| "fmul rnd PInf NInf = NInf"
| "fmul rnd NInf PInf = NInf"
| "fmul rnd NInf NInf = PInf"

fun fdiv :: "rounding \<Rightarrow> npfloat \<Rightarrow> npfloat \<Rightarrow> npfloat" where
  "fdiv rnd (Fin x) (Fin y) =
     (if y = 0 then (if x = 0 then NaN else if 0 < x then PInf else NInf)
      else rnd (x / y))"
| "fdiv rnd NaN b = NaN"
| "fdiv rnd a NaN = NaN"
| "fdiv rnd (Fin x) PInf = Fin 0"
| "fdiv rnd (Fin x) NInf = Fin 0"
| "fdiv rnd PInf (Fin y) = (if 0 \<le> y then PInf else NInf)"
| "fdiv rnd NInf (Fin y) = (if 0 \<le> y then NInf else PInf)"
| "fdiv rnd PInf PInf = NaN"
| "fdiv rnd PInf NInf = NaN"
| "fdiv rnd NInf PInf = NaN"
| "fdiv rnd NInf NInf = NaN"

subsection \<open>Rounding to binary64\<close>

text \<open>
  A finite binary64 number is an integer multiple \<open>m * 2 ^ e\<close> with \<open>\<bar>m\<bar> < 2 ^ 53\<close> and
  \<open>- 1074 \<le> e \<le> 971\<close>.  A positive real \<open>a\<close> with \<open>2 ^ e \<le> a < 2 ^ (e + 1)\<close> is scaled by
  \<open>2 ^ (52 - e)\<close>, so that its integer part has 53 bits (by no more than \<open>2 ^ 1074\<close>, the
  subnormal range), rounded to the nearest integer with ties to the even one, and scaled
  back; a result of \<open>2 ^ 1024\<close> or more is an infinity.
\<close>

definition round_even :: "real \<Rightarrow> int" where
  "round_even x =
     (let f = \<lfloor>x\<rfloor>; d = x - of_int f
      in if d < 1 / 2 then f else if 1 / 2 < d then f + 1
         else if even f then f else f + 1)"

text \<open>The exponent \<open>e\<close> of a positive real, from the bit length of an integer part.\<close>

definition exponent :: "real \<Rightarrow> int" where
  "exponent a =
     (if 1 \<le> a then bitlen \<lfloor>a\<rfloor> - 1
      else (let b = bitlen \<lfloor>1 / a\<rfloor>
            in if a * 2 ^ nat (b - 1) = 1 then 1 - b else - b))"

definition scale2 :: "real \<Rightarrow> int \<Rightarrow> real" where
  "scale2 a s = (if 0 \<le> s then a * 2 ^ nat s else a / 2 ^ nat (- s))"

definition round_abs :: "real \<Rightarrow> real option" where
  "round_abs a =
     (if a = 0 then Some 0
      else (let s = min 1074 (52 - exponent a);
                r = scale2 (of_int (round_even (scale2 a s))) (- s)
            in if r < 2 ^ 1024 then Some r else None))"

definition round64 :: rounding where
  "round64 x =
     (if 0 \<le> x then (case round_abs x of Some r \<Rightarrow> Fin r | None \<Rightarrow> PInf)
      else (case round_abs (- x) of Some r \<Rightarrow> Fin (- r) | None \<Rightarrow> NInf))"

text \<open>\<open>np.nan_to_num\<close>: NaN becomes zero, an infinity the largest finite number of its sign.\<close>

definition max64 :: real where
  "max64 = (2 ^ 53 - 1) * 2 ^ 971"

fun nan_to_num :: "npfloat \<Rightarrow> npfloat" where
  "nan_to_num NaN = Fin 0"
| "nan_to_num PInf = Fin max64"
| "nan_to_num NInf = Fin (- max64)"
| "nan_to_num (Fin x) = Fin x"

section \<open>Errors and arrays\<close>

datatype py_error =
  IndexError | AttributeError | ValueError | TypeError | IOError | OverflowError

text \<open>\<open>np.zeros(n)\<close> raises on a negative length.\<close>

definition np_zeros :: "int \<Rightarrow> py_error + npfloat list" where
  "np_zeros n = (if n < 0 then Inl ValueError else Inr (replicate (nat n) (Fin 0)))"

text \<open>
  An elementwise operation on two one-dimensional arrays follows NumPy's broadcasting:
  the lengths agree, or one of them is 1 and that element is repeated; anything else
  raises.  The in-place form \<open>a += b\<close> keeps the shape of \<open>a\<close>, so only \<open>b\<close> may be repeated.
\<close>

definition broadcast2 :: "('a \<Rightarrow> 'b \<Rightarrow> 'c) \<Rightarrow> 'a list \<Rightarrow> 'b list \<Rightarrow> py_error + 'c list" where
  "broadcast2 f xs ys =
     (if length xs = length ys then Inr (map2 f xs ys)
      else if length ys = 1 then Inr (map (\<lambda>x. f x (hd ys)) xs)
      else if length xs = 1 then Inr (map (\<lambda>y. f (hd xs) y) ys)
      else Inl ValueError)"

definition inplace2 :: "('a \<Rightarrow> 'b \<Rightarrow> 'a) \<Rightarrow> 'a list \<Rightarrow> 'b list \<Rightarrow> py_error + 'a list" where
  "inplace2 f xs ys =
     (if length xs = length ys then Inr (map2 f xs ys)
      else if length ys = 1 then Inr (map (\<lambda>x. f x (hd ys)) xs)
      else Inl ValueError)"

text \<open>\<open>np.where(a == 0)[0]\<close>: the indices of the entries equal to zero (NaN equals nothing).\<close>

definition where_zero :: "npfloat list \<Rightarrow> nat list" where
  "where_zero a = filter (\<lambda>i. a ! i = Fin 0) [0 ..< length a]"

text \<open>\<open>a[idx] = v\<close> for an index array: raises when an index is out of bounds.\<close>

definition set_at :: "'a list \<Rightarrow> nat list \<Rightarrow> 'a \<Rightarrow> py_error + 'a list" where
  "set_at a idx v =
     (if \<forall>i \<in> set idx. i < length a then Inr (fold (\<lambda>i b. b[i := v]) idx a)
      else Inl IndexError)"

text \<open>
  \<open>np.sum\<close> of a list of Python floats adds the float64 array of the list with NumPy's
  pairwise summation.  Fewer than 8 numbers are added from left to right.  Up to 128
  numbers go into eight accumulators, the number at index \<open>i\<close> into accumulator \<open>i mod 8\<close>
  as long as a whole block of eight is left; the accumulators are added in pairs, and the
  numbers after the last whole block are added one by one.  A longer array is cut in two
  at half its length rounded down to a multiple of 8, and the sums of the two parts are
  added.  The zero that the reduction starts from adds nothing.
\<close>

fun add_blocks :: "rounding \<Rightarrow> npfloat list \<Rightarrow> npfloat list \<Rightarrow> npfloat list \<times> npfloat list" where
  "add_blocks rnd r xs =
     (if length xs < 8 then (r, xs)
      else add_blocks rnd (map2 (fadd rnd) r (take 8 xs)) (drop 8 xs))"

declare add_blocks.simps [simp del]

definition half_block :: "nat \<Rightarrow> nat" where
  "half_block n = n div 2 - (n div 2) mod 8"

function pairwise_sum :: "rounding \<Rightarrow> npfloat list \<Rightarrow> npfloat" where
  "pairwise_sum rnd xs =
     (if length xs < 8 then foldl (fadd rnd) (Fin 0) xs
      else if length xs \<le> 128 then
        (case add_blocks rnd (take 8 xs) (drop 8 xs) of
           (r, rest) \<Rightarrow>
             foldl (fadd rnd)
               (fadd rnd (fadd rnd (fadd rnd (r ! 0) (r ! 1)) (fadd rnd (r ! 2) (r ! 3)))
                         (fadd rnd (fadd rnd (r ! 4) (r ! 5)) (fadd rnd (r ! 6) (r ! 7))))
               rest)
      else fadd rnd (pairwise_sum rnd (take (half_block (length xs)) xs))
                    (pairwise_sum rnd (drop (half_block (length xs)) xs)))"
  by pat_completeness auto

termination
proof (relation "measure (\<lambda>(rnd, xs). length xs)")
  show "wf (measure (\<lambda>(rnd :: rounding, xs :: npfloat list). length xs))"
    by simp
next
  fix rnd :: rounding and xs :: "npfloat list"
  assume "\<not> length xs < 8" and long: "\<not> length xs \<le> 128"
  have "length xs div 2 mod 8 < 8"
    by simp
  moreover have "64 \<le> length xs div 2" "length xs div 2 < length xs"
    using long by simp_all
  ultimately have "0 < half_block (length xs)" "half_block (length xs) < length xs"
    unfolding half_block_def by linarith+
  then show "((rnd, take (half_block (length xs)) xs), (rnd, xs))
      \<in> measure (\<lambda>(rnd, xs). length xs)"
    "((rnd, drop (half_block (length xs)) xs), (rnd, xs)) \<in> measure (\<lambda>(rnd, xs). length xs)"
    by simp_all
qed

declare pairwise_sum.simps [simp del]

definition np_sum :: "rounding \<Rightarrow> npfloat list \<Rightarrow> npfloat" where
  "np_sum rnd xs = pairwise_sum rnd xs"

section \<open>Data model\<close>

text \<open>
  An energy grid is the list of its bin edges; \<open>nbins\<close> is one less than their number.
\<close>

definition nbins :: "real list \<Rightarrow> int" where
  "nbins e = int (length e) - 1"

datatype backscal = Scalar npfloat | PerBin "npfloat list"

datatype obs_id = NoId | ObsId int | ObsIds "obs_id list"

text \<open>
  Modelled from the spec: the class \<open>PHACountsSpectrum\<close> (with its base \<open>CountsSpectrum\<close>)
  is not among the sources.  The spec gives its fields: the counts and the energy grid,
  the quality flags (one boolean per bin, true marks a bin to exclude), the background
  scaling (a scalar or a per-bin array), livetime, observation id and the two thresholds
  of the safe range.  A field that was never set is \<open>None\<close>.  Livetimes are in seconds.
\<close>

record pha_counts_spectrum =
  data :: "npfloat list"
  energy :: "real list"
  quality :: "bool list"
  backscal :: "backscal option"
  livetime :: "npfloat option"
  obs_id :: obs_id
  lo_threshold :: "real option"
  hi_threshold :: "real option"

text \<open>
  Modelled from the spec: the constructor \<open>PHACountsSpectrum(data, energy, quality)\<close>.
  A counts array whose length is not the number of bins of the grid fails with a
  shape-mismatch error; the attributes not given are \<open>None\<close>.
\<close>

definition PHACountsSpectrum :: "npfloat list \<Rightarrow> real list \<Rightarrow> bool list \<Rightarrow> py_error + pha_counts_spectrum" where
  "PHACountsSpectrum d e q =
     (if int (length d) \<noteq> nbins e then Inl ValueError
      else Inr \<lparr>data = d, energy = e, quality = q, backscal = None, livetime = None,
                obs_id = NoId, lo_threshold = None, hi_threshold = None\<rparr>)"

text \<open>
  Modelled from the spec: the safe range of a spectrum.  Bin \<open>k\<close> lies within the thresholds
  when its lower edge is not below \<open>lo_threshold\<close> and its upper edge is not above
  \<open>hi_threshold\<close> (the edge convention; an absent threshold bounds nothing).  A bin is
  safe when it lies within the thresholds and its quality flag is not set.
\<close>

definition in_thresholds :: "real list \<Rightarrow> real option \<Rightarrow> real option \<Rightarrow> nat \<Rightarrow> bool" where
  "in_thresholds e lo hi k =
     (k + 1 < length e
      \<and> (case lo of None \<Rightarrow> True | Some l \<Rightarrow> l \<le> e ! k)
      \<and> (case hi of None \<Rightarrow> True | Some h \<Rightarrow> e ! (k + 1) \<le> h))"

definition flagged :: "bool list \<Rightarrow> nat \<Rightarrow> bool" where
  "flagged q k = (k < length q \<and> q ! k)"

definition bin_is_safe :: "pha_counts_spectrum \<Rightarrow> nat \<Rightarrow> bool" where
  "bin_is_safe s k =
     (in_thresholds (energy s) (lo_threshold s) (hi_threshold s) k \<and> \<not> flagged (quality s) k)"

text \<open>
  Modelled from the spec: \<open>bins_in_safe_range\<close> is the ordered set of the safe bins and
  \<open>counts_in_safe_range\<close> a counts array identical to the raw counts inside that set and
  zero elsewhere.
\<close>

definition bins_in_safe_range :: "pha_counts_spectrum \<Rightarrow> nat list" where
  "bins_in_safe_range s = filter (bin_is_safe s) [0 ..< length (data s)]"

definition counts_in_safe_range :: "pha_counts_spectrum \<Rightarrow> npfloat list" where
  "counts_in_safe_range s =
     map (\<lambda>k. if bin_is_safe s k then data s ! k else Fin 0) [0 ..< length (data s)]"

text \<open>
  Modelled from the spec: \<open>_backscal_array\<close> gives the background scaling as a per-bin
  array, a scalar being repeated for every bin.  The stacker calls \<open>.copy()\<close> on the
  result, which raises when there is no background scaling.
\<close>

definition backscal_array :: "pha_counts_spectrum \<Rightarrow> py_error + npfloat list" where
  "backscal_array s =
     (case backscal s of
        None \<Rightarrow> Inl AttributeError
      | Some (Scalar v) \<Rightarrow> Inr (replicate (nat (nbins (energy s))) v)
      | Some (PerBin a) \<Rightarrow> Inr a)"

text \<open>
  A two-dimensional array carries its shape; \<open>rows2\<close> has \<open>dim0\<close> rows of \<open>dim1\<close> entries.
\<close>

record array2 =
  dim0 :: nat
  dim1 :: nat
  rows2 :: "npfloat list list"

definition array2_ok :: "array2 \<Rightarrow> bool" where
  "array2_ok a = (length (rows2 a) = dim0 a \<and> list_all (\<lambda>r. length r = dim1 a) (rows2 a))"

definition at2 :: "array2 \<Rightarrow> nat \<Rightarrow> nat \<Rightarrow> npfloat" where
  "at2 a i j = rows2 a ! i ! j"

definition tabulate2 :: "nat \<Rightarrow> nat \<Rightarrow> (nat \<Rightarrow> nat \<Rightarrow> npfloat) \<Rightarrow> array2" where
  "tabulate2 r c f =
     \<lparr>dim0 = r, dim1 = c, rows2 = map (\<lambda>i. map (\<lambda>j. f i j) [0 ..< c]) [0 ..< r]\<rparr>"

definition zeros2 :: "int \<Rightarrow> int \<Rightarrow> py_error + array2" where
  "zeros2 r c =
     (if r < 0 \<or> c < 0 then Inl ValueError
      else Inr (tabulate2 (nat r) (nat c) (\<lambda>i j. Fin 0)))"

definition transpose2 :: "array2 \<Rightarrow> array2" where
  "transpose2 a = tabulate2 (dim1 a) (dim0 a) (\<lambda>i j. at2 a j i)"

text \<open>
  Modelled from the spec: \<open>EffectiveAreaTable\<close> holds the true-energy grid and one area
  per true-energy bin (in cm2).  \<open>evaluate(fill_nan=True)\<close> gives the areas with every NaN
  entry replaced by zero.
\<close>

record effective_area_table =
  aeff_energy :: "real list"
  aeff_data :: "npfloat list"

definition evaluate_fill_nan :: "effective_area_table \<Rightarrow> npfloat list" where
  "evaluate_fill_nan t = map (\<lambda>v. if v = NaN then Fin 0 else v) (aeff_data t)"

text \<open>
  Modelled from the spec: \<open>EnergyDispersion\<close> holds both grids and the redistribution
  matrix, one row per true-energy bin and one column per reco-energy bin (the stacker
  transposes it to reco by true and back).  \<open>pdf_in_safe_range(lo, hi)\<close> is the matrix
  with the columns of the reco bins outside the thresholds set to zero.
\<close>

record energy_dispersion =
  edisp_e_true :: "real list"
  edisp_e_reco :: "real list"
  edisp_data :: array2

definition pdf_in_safe_range :: "energy_dispersion \<Rightarrow> real option \<Rightarrow> real option \<Rightarrow> array2" where
  "pdf_in_safe_range d lo hi =
     tabulate2 (dim0 (edisp_data d)) (dim1 (edisp_data d))
       (\<lambda>l k. if in_thresholds (edisp_e_reco d) lo hi k then at2 (edisp_data d) l k else Fin 0)"

subsection \<open>SpectrumObservation\<close>

record spectrum_observation =
  on_vector :: pha_counts_spectrum
  aeff :: effective_area_table
  off_vector :: "pha_counts_spectrum option"
  edisp :: "energy_dispersion option"

definition SpectrumObservation ::
  "pha_counts_spectrum \<Rightarrow> effective_area_table \<Rightarrow> pha_counts_spectrum option
     \<Rightarrow> energy_dispersion option \<Rightarrow> spectrum_observation" where
  "SpectrumObservation onv a offv d = \<lparr>on_vector = onv, aeff = a, off_vector = offv, edisp = d\<rparr>"

definition obs_obs_id :: "spectrum_observation \<Rightarrow> obs_id" where
  "obs_obs_id ob = obs_id (on_vector ob)"

definition obs_livetime :: "spectrum_observation \<Rightarrow> npfloat option" where
  "obs_livetime ob = livetime (on_vector ob)"

definition e_reco :: "spectrum_observation \<Rightarrow> real list" where
  "e_reco ob = energy (on_vector ob)"

definition e_true :: "spectrum_observation \<Rightarrow> real list" where
  "e_true ob = aeff_energy (aeff ob)"

definition obs_lo_threshold :: "spectrum_observation \<Rightarrow> real option" where
  "obs_lo_threshold ob = lo_threshold (on_vector ob)"

definition obs_hi_threshold :: "spectrum_observation \<Rightarrow> real option" where
  "obs_hi_threshold ob = hi_threshold (on_vector ob)"

subsection \<open>SpectrumObservationList\<close>

text \<open>
  \<open>total_livetime\<close> reads the livetime of every member (an observation without one
  raises) and sums them with \<open>np.sum\<close>.
\<close>

fun livetimes :: "spectrum_observation list \<Rightarrow> py_error + npfloat list" where
  "livetimes [] = Inr []"
| "livetimes (ob # os) =
     (case obs_livetime ob of
        None \<Rightarrow> Inl AttributeError
      | Some t \<Rightarrow> (case livetimes os of Inl e \<Rightarrow> Inl e | Inr ts \<Rightarrow> Inr (t # ts)))"

definition total_livetime :: "rounding \<Rightarrow> spectrum_observation list \<Rightarrow> py_error + npfloat" where
  "total_livetime rnd os =
     (case livetimes os of Inl e \<Rightarrow> Inl e | Inr ts \<Rightarrow> Inr (np_sum rnd ts))"

definition list_obs_id :: "spectrum_observation list \<Rightarrow> obs_id" where
  "list_obs_id os = ObsIds (map obs_obs_id os)"

section \<open>SpectrumObservationStacker\<close>

text \<open>An exception ends the computation; \<open>ebind\<close> passes it on.\<close>

definition ebind :: "'e + 'a \<Rightarrow> ('a \<Rightarrow> 'e + 'b) \<Rightarrow> 'e + 'b" where
  "ebind m f = (case m of Inl e \<Rightarrow> Inl e | Inr x \<Rightarrow> f x)"

definition of_option :: "'e \<Rightarrow> 'a option \<Rightarrow> 'e + 'a" where
  "of_option e x = (case x of None \<Rightarrow> Inl e | Some v \<Rightarrow> Inr v)"

text \<open>\<open>xs[0]\<close> raises on an empty list.\<close>

definition first :: "'a list \<Rightarrow> py_error + 'a" where
  "first xs = (case xs of [] \<Rightarrow> Inl IndexError | x # _ \<Rightarrow> Inr x)"

record stacker =
  obs_list :: "spectrum_observation list"
  stacked_on_vector :: "pha_counts_spectrum option"
  stacked_off_vector :: "pha_counts_spectrum option"
  stacked_aeff :: "effective_area_table option"
  stacked_edisp :: "energy_dispersion option"
  stacked_bkscal_on :: "npfloat list option"
  stacked_bkscal_off :: "npfloat list option"
  stacked_obs :: "spectrum_observation option"

definition SpectrumObservationStacker :: "spectrum_observation list \<Rightarrow> stacker" where
  "SpectrumObservationStacker os =
     \<lparr>obs_list = os, stacked_on_vector = None, stacked_off_vector = None,
      stacked_aeff = None, stacked_edisp = None, stacked_bkscal_on = None,
      stacked_bkscal_off = None, stacked_obs = None\<rparr>"

subsection \<open>Counts\<close>

text \<open>
  The loop of \<open>stack_counts_spectrum\<close>.  An absent spectrum in the list (an observation
  without off vector) raises when its attribute is read.  The quality starts as an array of
  zeros, which \<open>np.logical_or\<close> reads as false.
\<close>

fun stack_counts_loop ::
  "rounding \<Rightarrow> pha_counts_spectrum option list \<Rightarrow> npfloat list \<Rightarrow> bool list
     \<Rightarrow> py_error + (npfloat list \<times> bool list)" where
  "stack_counts_loop rnd [] sd sq = Inr (sd, sq)"
| "stack_counts_loop rnd (None # rest) sd sq = Inl AttributeError"
| "stack_counts_loop rnd (Some spec # rest) sd sq =
     ebind (inplace2 (fadd rnd) sd (counts_in_safe_range spec)) (\<lambda>sd'.
     ebind (broadcast2 (\<or>) sq (quality spec)) (\<lambda>sq'.
     stack_counts_loop rnd rest sd' sq'))"

definition stack_counts_spectrum ::
  "rounding \<Rightarrow> pha_counts_spectrum option list \<Rightarrow> py_error + pha_counts_spectrum" where
  "stack_counts_spectrum rnd counts_spectrum_list =
     ebind (first counts_spectrum_list) (\<lambda>c0.
     ebind (of_option AttributeError c0) (\<lambda>template.
     ebind (np_zeros (nbins (energy template))) (\<lambda>z.
     ebind (stack_counts_loop rnd counts_spectrum_list z (map (\<lambda>v. v \<noteq> Fin 0) z)) (\<lambda>(sd, sq).
     PHACountsSpectrum sd (energy template) sq))))"

definition stack_on_vector :: "rounding \<Rightarrow> stacker \<Rightarrow> py_error + stacker" where
  "stack_on_vector rnd st =
     ebind (stack_counts_spectrum rnd (map (\<lambda>ob. Some (on_vector ob)) (obs_list st))) (\<lambda>s.
     Inr (st\<lparr>stacked_on_vector := Some s\<rparr>))"

definition stack_off_vector :: "rounding \<Rightarrow> stacker \<Rightarrow> py_error + stacker" where
  "stack_off_vector rnd st =
     ebind (stack_counts_spectrum rnd (map off_vector (obs_list st))) (\<lambda>s.
     Inr (st\<lparr>stacked_off_vector := Some s\<rparr>))"

subsection \<open>Background scaling\<close>

fun backscal_loop ::
  "rounding \<Rightarrow> spectrum_observation list \<Rightarrow> npfloat list \<Rightarrow> npfloat list
     \<Rightarrow> py_error + (npfloat list \<times> npfloat list)" where
  "backscal_loop rnd [] bkscal_on bkscal_off = Inr (bkscal_on, bkscal_off)"
| "backscal_loop rnd (ob # os) bkscal_on bkscal_off =
     ebind (backscal_array (on_vector ob)) (\<lambda>bkscal_on_data.
     ebind (of_option AttributeError (off_vector ob)) (\<lambda>offv.
     ebind (broadcast2 (fmul rnd) bkscal_on_data (counts_in_safe_range offv)) (\<lambda>won.
     ebind (inplace2 (fadd rnd) bkscal_on won) (\<lambda>bkscal_on'.
     ebind (backscal_array offv) (\<lambda>bkscal_off_data.
     ebind (broadcast2 (fmul rnd) bkscal_off_data (counts_in_safe_range offv)) (\<lambda>woff.
     ebind (inplace2 (fadd rnd) bkscal_off woff) (\<lambda>bkscal_off'.
     backscal_loop rnd os bkscal_on' bkscal_off')))))))"

definition alpha_correction :: npfloat where
  "alpha_correction = Fin (- 1)"

definition stack_backscal :: "rounding \<Rightarrow> stacker \<Rightarrow> py_error + stacker" where
  "stack_backscal rnd st =
     ebind (first (obs_list st)) (\<lambda>ob0.
     ebind (np_zeros (nbins (e_reco ob0))) (\<lambda>z.
     ebind (backscal_loop rnd (obs_list st) z z) (\<lambda>(bkscal_on, bkscal_off).
     ebind (of_option AttributeError (stacked_off_vector st)) (\<lambda>soff.
     ebind (broadcast2 (fdiv rnd) bkscal_on (data soff)) (\<lambda>son1.
     ebind (broadcast2 (fdiv rnd) bkscal_off (data soff)) (\<lambda>soff1.
     ebind (set_at son1 (where_zero (data soff)) alpha_correction) (\<lambda>son2.
     ebind (set_at soff1 (where_zero (data soff)) alpha_correction) (\<lambda>soff2.
     Inr (st\<lparr>stacked_bkscal_on := Some son2, stacked_bkscal_off := Some soff2\<rparr>)))))))))"

definition setup_counts_vectors :: "rounding \<Rightarrow> stacker \<Rightarrow> py_error + stacker" where
  "setup_counts_vectors rnd st =
     ebind (total_livetime rnd (obs_list st)) (\<lambda>t.
     ebind (of_option AttributeError (stacked_on_vector st)) (\<lambda>onv.
     ebind (of_option AttributeError (stacked_off_vector st)) (\<lambda>offv.
     Inr (st\<lparr>stacked_on_vector := Some (onv\<lparr>livetime := Some t,
                 backscal := map_option PerBin (stacked_bkscal_on st),
                 obs_id := list_obs_id (obs_list st)\<rparr>),
              stacked_off_vector := Some (offv\<lparr>livetime := Some t,
                 backscal := map_option PerBin (stacked_bkscal_off st),
                 obs_id := list_obs_id (obs_list st)\<rparr>)\<rparr>))))"

definition stack_counts_vectors :: "rounding \<Rightarrow> stacker \<Rightarrow> py_error + stacker" where
  "stack_counts_vectors rnd st =
     ebind (stack_on_vector rnd st) (\<lambda>st1.
     ebind (stack_off_vector rnd st1) (\<lambda>st2.
     ebind (stack_backscal rnd st2) (\<lambda>st3.
     setup_counts_vectors rnd st3)))"

subsection \<open>Effective area\<close>

text \<open>
  \<open>aeff_data * o.livetime\<close> multiplies every area by the livetime of the observation;
  an observation without livetime raises there.
\<close>

definition aefft_current :: "rounding \<Rightarrow> spectrum_observation \<Rightarrow> py_error + npfloat list" where
  "aefft_current rnd ob =
     ebind (of_option TypeError (obs_livetime ob)) (\<lambda>t.
     Inr (map (\<lambda>a. fmul rnd a t) (evaluate_fill_nan (aeff ob))))"

fun aeff_loop :: "rounding \<Rightarrow> spectrum_observation list \<Rightarrow> npfloat list \<Rightarrow> py_error + npfloat list" where
  "aeff_loop rnd [] aefft = Inr aefft"
| "aeff_loop rnd (ob # os) aefft =
     ebind (aefft_current rnd ob) (\<lambda>cur.
     ebind (inplace2 (fadd rnd) aefft cur) (\<lambda>aefft'.
     aeff_loop rnd os aefft'))"

definition stack_aeff :: "rounding \<Rightarrow> stacker \<Rightarrow> py_error + stacker" where
  "stack_aeff rnd st =
     ebind (first (obs_list st)) (\<lambda>ob0.
     ebind (np_zeros (nbins (e_true ob0))) (\<lambda>z.
     ebind (aeff_loop rnd (obs_list st) z) (\<lambda>aefft.
     ebind (total_livetime rnd (obs_list st)) (\<lambda>t.
     Inr (st\<lparr>stacked_aeff := Some \<lparr>aeff_energy = e_true ob0,
                                      aeff_data = map (\<lambda>x. fdiv rnd x t) aefft\<rparr>\<rparr>)))))"

subsection \<open>Energy dispersion\<close>

text \<open>
  A two-dimensional array combined with a one-dimensional one along the last axis, and
  the in-place sum of two two-dimensional arrays, with NumPy's broadcasting.
\<close>

definition last_axis2 ::
  "(npfloat \<Rightarrow> npfloat \<Rightarrow> npfloat) \<Rightarrow> array2 \<Rightarrow> npfloat list \<Rightarrow> py_error + array2" where
  "last_axis2 f a v =
     (if dim1 a = length v then Inr (tabulate2 (dim0 a) (dim1 a) (\<lambda>i j. f (at2 a i j) (v ! j)))
      else if length v = 1 then Inr (tabulate2 (dim0 a) (dim1 a) (\<lambda>i j. f (at2 a i j) (v ! 0)))
      else if dim1 a = 1 then Inr (tabulate2 (dim0 a) (length v) (\<lambda>i j. f (at2 a i 0) (v ! j)))
      else Inl ValueError)"

definition inplace_array2 ::
  "(npfloat \<Rightarrow> npfloat \<Rightarrow> npfloat) \<Rightarrow> array2 \<Rightarrow> array2 \<Rightarrow> py_error + array2" where
  "inplace_array2 f a b =
     (if (dim0 b = dim0 a \<or> dim0 b = 1) \<and> (dim1 b = dim1 a \<or> dim1 b = 1)
      then Inr (tabulate2 (dim0 a) (dim1 a)
                 (\<lambda>i j. f (at2 a i j)
                           (at2 b (if dim0 b = dim0 a then i else 0)
                                  (if dim1 b = dim1 a then j else 0))))
      else Inl ValueError)"

definition map_array2 :: "(npfloat \<Rightarrow> npfloat) \<Rightarrow> array2 \<Rightarrow> array2" where
  "map_array2 f a = tabulate2 (dim0 a) (dim1 a) (\<lambda>i j. f (at2 a i j))"

fun edisp_loop ::
  "rounding \<Rightarrow> spectrum_observation list \<Rightarrow> npfloat list \<Rightarrow> array2
     \<Rightarrow> py_error + (npfloat list \<times> array2)" where
  "edisp_loop rnd [] aefft aefftedisp = Inr (aefft, aefftedisp)"
| "edisp_loop rnd (ob # os) aefft aefftedisp =
     ebind (aefft_current rnd ob) (\<lambda>cur.
     ebind (inplace2 (fadd rnd) aefft cur) (\<lambda>aefft'.
     ebind (of_option AttributeError (edisp ob)) (\<lambda>d.
     ebind (last_axis2 (fmul rnd)
              (transpose2 (pdf_in_safe_range d (obs_lo_threshold ob) (obs_hi_threshold ob))) cur)
           (\<lambda>w.
     ebind (inplace_array2 (fadd rnd) aefftedisp w) (\<lambda>aefftedisp'.
     edisp_loop rnd os aefft' aefftedisp')))))"

definition stack_edisp :: "rounding \<Rightarrow> stacker \<Rightarrow> py_error + stacker" where
  "stack_edisp rnd st =
     ebind (first (obs_list st)) (\<lambda>ob0.
     ebind (np_zeros (nbins (e_true ob0))) (\<lambda>z.
     ebind (zeros2 (nbins (e_reco ob0)) (nbins (e_true ob0))) (\<lambda>temp.
     ebind (edisp_loop rnd (obs_list st) z temp) (\<lambda>(aefft, aefftedisp).
     ebind (last_axis2 (fdiv rnd) aefftedisp aefft) (\<lambda>q.
     Inr (st\<lparr>stacked_edisp := Some \<lparr>edisp_e_true = e_true ob0, edisp_e_reco = e_reco ob0,
                edisp_data = transpose2 (map_array2 nan_to_num q)\<rparr>\<rparr>))))))"

subsection \<open>Assembling the result\<close>

text \<open>
  \<open>stack_obs\<close> builds the stacked observation from the four stacked parts.  \<open>run\<close> reaches
  it with the on vector and the effective area built; the model has no observation
  without them, so a stacker that lacks one is an error here.
\<close>

definition stack_obs :: "stacker \<Rightarrow> py_error + stacker" where
  "stack_obs st =
     ebind (of_option AttributeError (stacked_on_vector st)) (\<lambda>onv.
     ebind (of_option AttributeError (stacked_aeff st)) (\<lambda>a.
     Inr (st\<lparr>stacked_obs :=
               Some (SpectrumObservation onv a (stacked_off_vector st) (stacked_edisp st))\<rparr>)))"

definition run :: "rounding \<Rightarrow> stacker \<Rightarrow> py_error + stacker" where
  "run rnd st =
     ebind (stack_counts_vectors rnd st) (\<lambda>st1.
     ebind (stack_aeff rnd st1) (\<lambda>st2.
     ebind (stack_edisp rnd st2) (\<lambda>st3.
     stack_obs st3)))"

text \<open>\<open>SpectrumObservationList.stack\<close>: build a stacker, run it, return its result.\<close>

definition stack :: "rounding \<Rightarrow> spectrum_observation list \<Rightarrow> py_error + spectrum_observation" where
  "stack rnd os =
     ebind (run rnd (SpectrumObservationStacker os)) (\<lambda>st.
     of_option AttributeError (stacked_obs st))"

section \<open>The worked example of two observations\<close>

text \<open>
  Two reco bins and two true-energy bins on the grid \<open>[1, 2, 3]\<close>, thresholds that include
  both bins, no quality flag set, the same background scaling \<open>b\<close> for the on and the off
  vector.  The effective area and the energy dispersion are the same in both observations.
\<close>

definition worked_grid :: "real list" where
  "worked_grid = [1, 2, 3]"

definition worked_spectrum :: "real list \<Rightarrow> real \<Rightarrow> real \<Rightarrow> int \<Rightarrow> pha_counts_spectrum" where
  "worked_spectrum counts b t n =
     \<lparr>data = map Fin counts, energy = worked_grid, quality = [False, False],
      backscal = Some (Scalar (Fin b)), livetime = Some (Fin t), obs_id = ObsId n,
      lo_threshold = Some 1, hi_threshold = Some 3\<rparr>"

definition worked_aeff :: effective_area_table where
  "worked_aeff = \<lparr>aeff_energy = worked_grid, aeff_data = [Fin 2, Fin 4]\<rparr>"

definition worked_edisp :: energy_dispersion where
  "worked_edisp =
     \<lparr>edisp_e_true = worked_grid, edisp_e_reco = worked_grid,
      edisp_data = \<lparr>dim0 = 2, dim1 = 2,
                    rows2 = [[Fin (3 / 4), Fin (1 / 4)], [Fin (1 / 2), Fin (1 / 2)]]\<rparr>\<rparr>"

definition worked_obs1 :: "real \<Rightarrow> spectrum_observation" where
  "worked_obs1 b =
     SpectrumObservation (worked_spectrum [10, 20] b 100 1) worked_aeff
       (Some (worked_spectrum [5, 5] b 100 1)) (Some worked_edisp)"

definition worked_obs2 :: "real \<Rightarrow> spectrum_observation" where
  "worked_obs2 b =
     SpectrumObservation (worked_spectrum [30, 40] b 200 2) worked_aeff
       (Some (worked_spectrum [10, 10] b 200 2)) (Some worked_edisp)"

definition worked_stacked_spectrum :: "real list \<Rightarrow> real \<Rightarrow> pha_counts_spectrum" where
  "worked_stacked_spectrum counts b =
     \<lparr>data = map Fin counts, energy = worked_grid, quality = [False, False],
      backscal = Some (PerBin [Fin b, Fin b]), livetime = Some (Fin 300),
      obs_id = ObsIds [ObsId 1, ObsId 2], lo_threshold = None, hi_threshold = None\<rparr>"

definition worked_stacked :: "real \<Rightarrow> spectrum_observation" where
  "worked_stacked b =
     SpectrumObservation (worked_stacked_spectrum [40, 60] b) worked_aeff
       (Some (worked_stacked_spectrum [15, 15] b)) (Some worked_edisp)"

text \<open>The binary64 number nearest to one tenth.\<close>

definition double_tenth :: real where
  "double_tenth = 3602879701896397 / 2 ^ 55"

section \<open>An observation without off counts in one bin\<close>

text \<open>
  The first observation of the worked example with no off count in its first bin, and
  what stacking it alone returns in exact arithmetic.
\<close>

definition zero_off_obs :: spectrum_observation where
  "zero_off_obs =
     SpectrumObservation (worked_spectrum [10, 20] (1 / 10) 100 1) worked_aeff
       (Some (worked_spectrum [0, 5] (1 / 10) 100 1)) (Some worked_edisp)"

definition zero_off_vector :: "real list \<Rightarrow> pha_counts_spectrum" where
  "zero_off_vector counts =
     \<lparr>data = map Fin counts, energy = worked_grid, quality = [False, False],
      backscal = Some (PerBin [Fin (- 1), Fin (1 / 10)]), livetime = Some (Fin 100),
      obs_id = ObsIds [ObsId 1], lo_threshold = None, hi_threshold = None\<rparr>"

definition zero_off_stacked :: spectrum_observation where
  "zero_off_stacked =
     SpectrumObservation (zero_off_vector [10, 20]) worked_aeff
       (Some (zero_off_vector [0, 5])) (Some worked_edisp)"

section \<open>Statistics of a range of bins\<close>

text \<open>Python indexing: a negative index counts from the end, an index out of range raises.\<close>

definition py_index :: "'a list \<Rightarrow> int \<Rightarrow> py_error + 'a" where
  "py_index xs i =
     (if 0 \<le> i \<and> i < int (length xs) then Inr (xs ! nat i)
      else if i < 0 \<and> - int (length xs) \<le> i then Inr (xs ! nat (int (length xs) + i))
      else Inl IndexError)"

text \<open>\<open>int(x)\<close> of a float truncates towards zero and raises on NaN and on an infinity.\<close>

definition truncate_real :: "real \<Rightarrow> int" where
  "truncate_real x = (if 0 \<le> x then \<lfloor>x\<rfloor> else \<lceil>x\<rceil>)"

definition py_int :: "npfloat \<Rightarrow> py_error + int" where
  "py_int v =
     (case v of
        Fin x \<Rightarrow> Inr (truncate_real x)
      | NaN \<Rightarrow> Inl ValueError
      | PInf \<Rightarrow> Inl OverflowError
      | NInf \<Rightarrow> Inl OverflowError)"

record spectrum_stats =
  energy_min :: "real option"
  energy_max :: "real option"
  n_on :: int
  n_off :: int
  a_on :: npfloat
  a_off :: npfloat
  stats_obs_id :: obs_id
  stats_livetime :: "npfloat option"

text \<open>\<open>SpectrumObservation.stats\<close>: the statistics of one bin.\<close>

definition stats :: "spectrum_observation \<Rightarrow> int \<Rightarrow> py_error + spectrum_stats" where
  "stats ob idx =
     ebind (py_index (e_reco ob) idx) (\<lambda>emin.
     ebind (py_index (e_reco ob) (idx + 1)) (\<lambda>emax.
     ebind (py_index (data (on_vector ob)) idx) (\<lambda>von.
     ebind (py_int von) (\<lambda>non.
     ebind (of_option AttributeError (off_vector ob)) (\<lambda>offv.
     ebind (py_index (data offv) idx) (\<lambda>voff.
     ebind (py_int voff) (\<lambda>noff.
     ebind (backscal_array (on_vector ob)) (\<lambda>bon.
     ebind (py_index bon idx) (\<lambda>aon.
     ebind (backscal_array offv) (\<lambda>boff.
     ebind (py_index boff idx) (\<lambda>aoff.
     Inr \<lparr>energy_min = Some emin, energy_max = Some emax, n_on = non, n_off = noff,
          a_on = aon, a_off = aoff, stats_obs_id = obs_obs_id ob,
          stats_livetime = obs_livetime ob\<rparr>)))))))))))"

fun stats_list :: "spectrum_observation \<Rightarrow> int list \<Rightarrow> py_error + spectrum_stats list" where
  "stats_list ob [] = Inr []"
| "stats_list ob (ii # idx) =
     ebind (stats ob ii) (\<lambda>s.
     ebind (stats_list ob idx) (\<lambda>ss.
     Inr (s # ss)))"

text \<open>
  Modelled from the spec: \<open>SpectrumStats.stack\<close> (of \<open>ObservationStats\<close>, not among the
  sources) sums \<open>n_on\<close> and \<open>n_off\<close> across its inputs.  How it combines the background
  scalings is not said, so that is the parameter \<open>scalings\<close>.  The livetime, the id and
  the energy range of its result are overwritten by \<open>stats_in_range\<close> right after the call
  and are left unset here.
\<close>

definition stack_stats ::
  "(spectrum_stats list \<Rightarrow> npfloat \<times> npfloat) \<Rightarrow> spectrum_stats list \<Rightarrow> spectrum_stats" where
  "stack_stats scalings ss =
     \<lparr>energy_min = None, energy_max = None,
      n_on = sum_list (map n_on ss), n_off = sum_list (map n_off ss),
      a_on = fst (scalings ss), a_off = snd (scalings ss),
      stats_obs_id = NoId, stats_livetime = None\<rparr>"

text \<open>\<open>np.arange(bin_min, bin_max)\<close> is the integers from \<open>bin_min\<close> to \<open>bin_max - 1\<close>.\<close>

definition stats_in_range ::
  "(spectrum_stats list \<Rightarrow> npfloat \<times> npfloat) \<Rightarrow> spectrum_observation \<Rightarrow> int \<Rightarrow> int
     \<Rightarrow> py_error + spectrum_stats" where
  "stats_in_range scalings ob bin_min bin_max =
     ebind (stats_list ob [bin_min .. bin_max - 1]) (\<lambda>ss.
     ebind (py_index (e_reco ob) bin_min) (\<lambda>emin.
     ebind (py_index (e_reco ob) (bin_max + 1)) (\<lambda>emax.
     Inr ((stack_stats scalings ss)\<lparr>stats_livetime := obs_livetime ob,
            stats_obs_id := obs_obs_id ob, energy_min := Some emin,
            energy_max := Some emax\<rparr>))))"

definition obs_nbins :: "spectrum_observation \<Rightarrow> int" where
  "obs_nbins ob = nbins (energy (on_vector ob))"

definition total_stats ::
  "(spectrum_stats list \<Rightarrow> npfloat \<times> npfloat) \<Rightarrow> spectrum_observation \<Rightarrow> py_error + spectrum_stats" where
  "total_stats scalings ob = stats_in_range scalings ob 0 (obs_nbins ob - 1)"

section \<open>Reading an observation\<close>

text \<open>
  The readers of the three file kinds and the file names that the header of the on vector
  holds are not among the sources; they are the parameters \<open>io\<close> of \<open>read\<close>.  A reader
  raises \<open>IOError\<close> on a missing file.
\<close>

record io =
  read_pha :: "string \<Rightarrow> py_error + pha_counts_spectrum"
  read_edisp :: "string \<Rightarrow> py_error + energy_dispersion"
  read_aeff :: "string \<Rightarrow> py_error + effective_area_table"
  rmffile :: "pha_counts_spectrum \<Rightarrow> string"
  arffile :: "pha_counts_spectrum \<Rightarrow> string"
  bkgfile :: "pha_counts_spectrum \<Rightarrow> string"

text \<open>The directory of a path, and a file name in a directory.\<close>

definition parent :: "string \<Rightarrow> string" where
  "parent p =
     (if CHR ''/'' \<in> set p then rev (tl (dropWhile (\<lambda>c. c \<noteq> CHR ''/'') (rev p))) else ''.'')"

definition path_join :: "string \<Rightarrow> string \<Rightarrow> string" where
  "path_join d f = d @ ''/'' @ f"

text \<open>\<open>try: x = f() except IOError: x = None\<close>; any other exception passes.\<close>

definition except_IOError :: "py_error + 'a \<Rightarrow> py_error + 'a option" where
  "except_IOError m =
     (case m of Inr x \<Rightarrow> Inr (Some x) | Inl IOError \<Rightarrow> Inr None | Inl e \<Rightarrow> Inl e)"

definition read :: "io \<Rightarrow> string \<Rightarrow> py_error + spectrum_observation" where
  "read io filename =
     (let dirname = parent filename in
      ebind (read_pha io filename) (\<lambda>onv.
      ebind (except_IOError (read_edisp io (path_join dirname (rmffile io onv)))) (\<lambda>energy_dispersion.
      ebind (except_IOError (read_pha io (path_join dirname (bkgfile io onv)))) (\<lambda>offv.
      ebind (read_aeff io (path_join dirname (arffile io onv))) (\<lambda>effective_area.
      Inr (SpectrumObservation onv effective_area offv energy_dispersion))))))"

text \<open>
  A directory that holds the files listed in \<open>files\<close>; every on vector names the same
  three companions.
\<close>

datatype ogip_file = PHA pha_counts_spectrum | RMF energy_dispersion | ARF effective_area_table

definition directory_io :: "(string \<times> ogip_file) list \<Rightarrow> io" where
  "directory_io files =
     \<lparr>read_pha = (\<lambda>p. case map_of files p of Some (PHA s) \<Rightarrow> Inr s
                        | Some f \<Rightarrow> Inl ValueError | None \<Rightarrow> Inl IOError),
      read_edisp = (\<lambda>p. case map_of files p of Some (RMF d) \<Rightarrow> Inr d
                        | Some f \<Rightarrow> Inl ValueError | None \<Rightarrow> Inl IOError),
      read_aeff = (\<lambda>p. case map_of files p of Some (ARF a) \<Rightarrow> Inr a
                        | Some f \<Rightarrow> Inl ValueError | None \<Rightarrow> Inl IOError),
      rmffile = (\<lambda>s. ''rmf.fits''), arffile = (\<lambda>s. ''arf.fits''), bkgfile = (\<lambda>s. ''bkg.fits'')\<rparr>"

definition on_spectrum :: pha_counts_spectrum where
  "on_spectrum = worked_spectrum [10, 20] (1 / 10) 100 1"

definition only_on_vector :: io where
  "only_on_vector = directory_io [(''d/pha.fits'', PHA on_spectrum)]"

definition no_companions :: io where
  "no_companions =
     directory_io [(''d/pha.fits'', PHA on_spectrum), (''d/arf.fits'', ARF worked_aeff)]"

section \<open>What the loops compute\<close>

text \<open>
  The value of a loop \<open>acc += row\<close> over rows of the accumulator's length, the rows that
  the loops of the stacker add, and the sentinel written after the division.
\<close>

definition accumulate :: "('a \<Rightarrow> 'b \<Rightarrow> 'a) \<Rightarrow> 'a list \<Rightarrow> 'b list list \<Rightarrow> 'a list" where
  "accumulate f z rows = foldl (\<lambda>acc row. map2 f acc row) z rows"

definition weighted_backscal ::
  "rounding \<Rightarrow> pha_counts_spectrum \<Rightarrow> pha_counts_spectrum \<Rightarrow> npfloat list" where
  "weighted_backscal rnd s offv =
     map2 (fmul rnd) (projr (backscal_array s)) (counts_in_safe_range offv)"

definition aefft_row :: "rounding \<Rightarrow> spectrum_observation \<Rightarrow> npfloat list" where
  "aefft_row rnd ob = projr (aefft_current rnd ob)"

definition sentinel :: "npfloat list \<Rightarrow> npfloat list \<Rightarrow> npfloat list" where
  "sentinel q d = map2 (\<lambda>x y. if y = Fin 0 then alpha_correction else x) q d"

text \<open>
  Observations as the stacker expects them: every array has the length that the number
  of bins dictates (\<open>r\<close> reco bins, \<open>t\<close> true-energy bins), the off vector, the energy
  dispersion, the livetime and the background scalings are there.
\<close>

definition pha_has_bins :: "nat \<Rightarrow> pha_counts_spectrum \<Rightarrow> bool" where
  "pha_has_bins n s =
     (length (data s) = n \<and> length (energy s) = n + 1 \<and> length (quality s) = n
      \<and> (case backscal s of
            None \<Rightarrow> False
          | Some (Scalar v) \<Rightarrow> True
          | Some (PerBin a) \<Rightarrow> length a = n))"

definition edisp_has_shape :: "nat \<Rightarrow> nat \<Rightarrow> energy_dispersion \<Rightarrow> bool" where
  "edisp_has_shape r t d =
     (array2_ok (edisp_data d) \<and> dim0 (edisp_data d) = t \<and> dim1 (edisp_data d) = r
      \<and> length (edisp_e_reco d) = r + 1 \<and> length (edisp_e_true d) = t + 1)"

definition obs_has_shape :: "nat \<Rightarrow> nat \<Rightarrow> spectrum_observation \<Rightarrow> bool" where
  "obs_has_shape r t ob =
     (pha_has_bins r (on_vector ob)
      \<and> (case off_vector ob of None \<Rightarrow> False | Some offv \<Rightarrow> pha_has_bins r offv)
      \<and> length (aeff_energy (aeff ob)) = t + 1 \<and> length (aeff_data (aeff ob)) = t
      \<and> obs_livetime ob \<noteq> None
      \<and> (case edisp ob of None \<Rightarrow> False | Some d \<Rightarrow> edisp_has_shape r t d))"

text \<open>
  What the counts stages need of an observation: both vectors are there with arrays of
  \<open>r\<close> bins.
\<close>

definition counts_have_bins :: "nat \<Rightarrow> spectrum_observation \<Rightarrow> bool" where
  "counts_have_bins r ob =
     (pha_has_bins r (on_vector ob)
      \<and> (case off_vector ob of None \<Rightarrow> False | Some offv \<Rightarrow> pha_has_bins r offv))"

text \<open>
  What the stacker returns on such observations, following the formulas of its
  documentation: sums over the observations in the order of the list.
\<close>

definition off_vectors :: "spectrum_observation list \<Rightarrow> pha_counts_spectrum list" where
  "off_vectors os = map (\<lambda>ob. the (off_vector ob)) os"

definition stacked_counts :: "rounding \<Rightarrow> nat \<Rightarrow> pha_counts_spectrum list \<Rightarrow> npfloat list" where
  "stacked_counts rnd n specs =
     accumulate (fadd rnd) (replicate n (Fin 0)) (map counts_in_safe_range specs)"

definition stacked_quality :: "nat \<Rightarrow> pha_counts_spectrum list \<Rightarrow> bool list" where
  "stacked_quality n specs = accumulate (\<or>) (replicate n False) (map quality specs)"

definition stacked_backscal_on :: "rounding \<Rightarrow> nat \<Rightarrow> spectrum_observation list \<Rightarrow> npfloat list" where
  "stacked_backscal_on rnd n os =
     sentinel
       (map2 (fdiv rnd)
          (accumulate (fadd rnd) (replicate n (Fin 0))
             (map (\<lambda>ob. weighted_backscal rnd (on_vector ob) (the (off_vector ob))) os))
          (stacked_counts rnd n (off_vectors os)))
       (stacked_counts rnd n (off_vectors os))"

definition stacked_backscal_off :: "rounding \<Rightarrow> nat \<Rightarrow> spectrum_observation list \<Rightarrow> npfloat list" where
  "stacked_backscal_off rnd n os =
     sentinel
       (map2 (fdiv rnd)
          (accumulate (fadd rnd) (replicate n (Fin 0))
             (map (\<lambda>ob. weighted_backscal rnd (the (off_vector ob)) (the (off_vector ob))) os))
          (stacked_counts rnd n (off_vectors os)))
       (stacked_counts rnd n (off_vectors os))"

definition stacked_livetime :: "rounding \<Rightarrow> spectrum_observation list \<Rightarrow> npfloat" where
  "stacked_livetime rnd os = np_sum rnd (map (\<lambda>ob. the (obs_livetime ob)) os)"

definition stacked_aefft :: "rounding \<Rightarrow> nat \<Rightarrow> spectrum_observation list \<Rightarrow> npfloat list" where
  "stacked_aefft rnd t os = accumulate (fadd rnd) (replicate t (Fin 0)) (map (aefft_row rnd) os)"

definition stacked_aeff_data :: "rounding \<Rightarrow> nat \<Rightarrow> spectrum_observation list \<Rightarrow> npfloat list" where
  "stacked_aeff_data rnd t os =
     map (\<lambda>x. fdiv rnd x (stacked_livetime rnd os)) (stacked_aefft rnd t os)"

definition edisp_weight :: "rounding \<Rightarrow> spectrum_observation \<Rightarrow> nat \<Rightarrow> nat \<Rightarrow> npfloat" where
  "edisp_weight rnd ob k l =
     fmul rnd
       (at2 (pdf_in_safe_range (the (edisp ob)) (obs_lo_threshold ob) (obs_hi_threshold ob)) l k)
       (aefft_row rnd ob ! l)"

definition stacked_edisp_data :: "rounding \<Rightarrow> nat \<Rightarrow> nat \<Rightarrow> spectrum_observation list \<Rightarrow> array2" where
  "stacked_edisp_data rnd r t os =
     tabulate2 t r
       (\<lambda>l k. nan_to_num
                (fdiv rnd (foldl (fadd rnd) (Fin 0) (map (\<lambda>ob. edisp_weight rnd ob k l) os))
                          (stacked_aefft rnd t os ! l)))"

definition stacked_vector ::
  "npfloat list \<Rightarrow> real list \<Rightarrow> bool list \<Rightarrow> npfloat list \<Rightarrow> npfloat \<Rightarrow> obs_id
     \<Rightarrow> pha_counts_spectrum" where
  "stacked_vector d e q b t n =
     \<lparr>data = d, energy = e, quality = q, backscal = Some (PerBin b), livetime = Some t,
      obs_id = n, lo_threshold = None, hi_threshold = None\<rparr>"

definition stacked_observation :: "rounding \<Rightarrow> nat \<Rightarrow> nat \<Rightarrow> spectrum_observation list \<Rightarrow> spectrum_observation" where
  "stacked_observation rnd r t os =
     SpectrumObservation
       (stacked_vector (stacked_counts rnd r (map on_vector os)) (e_reco (hd os))
          (stacked_quality r (map on_vector os)) (stacked_backscal_on rnd r os)
          (stacked_livetime rnd os) (list_obs_id os))
       \<lparr>aeff_energy = e_true (hd os), aeff_data = stacked_aeff_data rnd t os\<rparr>
       (Some (stacked_vector (stacked_counts rnd r (off_vectors os))
          (energy (the (off_vector (hd os)))) (stacked_quality r (off_vectors os))
          (stacked_backscal_off rnd r os) (stacked_livetime rnd os) (list_obs_id os)))
       (Some \<lparr>edisp_e_true = e_true (hd os), edisp_e_reco = e_reco (hd os),
              edisp_data = stacked_edisp_data rnd r t os\<rparr>)"

section \<open>An observation with a flagged bin\<close>

text \<open>
  The first observation of the worked example with the quality flag of its second bin
  set, on both vectors.
\<close>

definition flagged_spectrum :: "real list \<Rightarrow> pha_counts_spectrum" where
  "flagged_spectrum counts = (worked_spectrum counts double_tenth 100 3)\<lparr>quality := [False, True]\<rparr>"

text \<open>The same with the flag on the on vector only.\<close>

definition on_flagged_obs :: spectrum_observation where
  "on_flagged_obs =
     SpectrumObservation (flagged_spectrum [10, 20]) worked_aeff
       (Some (worked_spectrum [5, 5] double_tenth 100 3)) (Some worked_edisp)"

definition flagged_obs :: spectrum_observation where
  "flagged_obs =
     SpectrumObservation (flagged_spectrum [10, 20]) worked_aeff
       (Some (flagged_spectrum [5, 5])) (Some worked_edisp)"

section \<open>An observation with an infinite livetime\<close>


section \<open>Three observations with different effective areas\<close>

text \<open>
  Observations on the grid of the worked example with a livetime of one and the effective
  area \<open>a\<close> in both true-energy bins, and the binary64 numbers nearest to two and to three
  tenths.
\<close>

definition area_obs :: "real \<Rightarrow> int \<Rightarrow> spectrum_observation" where
  "area_obs a n =
     SpectrumObservation (worked_spectrum [10, 20] double_tenth 1 n)
       (worked_aeff\<lparr>aeff_data := [Fin a, Fin a]\<rparr>)
       (Some (worked_spectrum [5, 5] double_tenth 1 n)) (Some worked_edisp)"

definition double_fifth :: real where
  "double_fifth = 3602879701896397 / 2 ^ 54"

definition double_three_tenths :: real where
  "double_three_tenths = 5404319552844595 / 2 ^ 54"

section \<open>The stacker on a store\<close>

text \<open>
  To follow what \<open>run\<close> writes, arrays and counts spectra become objects in a store: the
  store is the list of the cells allocated so far and an address is an index into it.  A
  command takes the store and returns its result, or the exception it raises, together
  with the store it leaves.  Energy grids, numbers and observation ids are immutable
  values.  A cell of the wrong kind at an address is a \<open>TypeError\<close>.
\<close>

type_synonym addr = nat

datatype backscal_ref = ScalarOf npfloat | ArrayAt addr

record pha_object =
  data_at :: addr
  energy_of :: "real list"
  quality_at :: addr
  backscal_at :: "backscal_ref option"
  livetime_of :: "npfloat option"
  obs_id_of :: obs_id
  lo_threshold_of :: "real option"
  hi_threshold_of :: "real option"

datatype cell = Floats "npfloat list" | Flags "bool list" | Matrix array2 | Pha pha_object

type_synonym store = "cell list"

type_synonym 'a cmd = "store \<Rightarrow> (py_error + 'a) \<times> store"

definition sreturn :: "'a \<Rightarrow> 'a cmd" where
  "sreturn x = (\<lambda>h. (Inr x, h))"

definition sraise :: "py_error \<Rightarrow> 'a cmd" where
  "sraise e = (\<lambda>h. (Inl e, h))"

definition of_result :: "py_error + 'a \<Rightarrow> 'a cmd" where
  "of_result r = (\<lambda>h. (r, h))"

definition sbind :: "'a cmd \<Rightarrow> ('a \<Rightarrow> 'b cmd) \<Rightarrow> 'b cmd" where
  "sbind m f = (\<lambda>h. case m h of (Inl e, h') \<Rightarrow> (Inl e, h') | (Inr x, h') \<Rightarrow> f x h')"

text \<open>A new object gets the next address; reading and writing go through the address.\<close>

definition alloc :: "cell \<Rightarrow> addr cmd" where
  "alloc c = (\<lambda>h. (Inr (length h), h @ [c]))"

definition load :: "addr \<Rightarrow> cell cmd" where
  "load a = (\<lambda>h. if a < length h then (Inr (h ! a), h) else (Inl TypeError, h))"

definition store_at :: "addr \<Rightarrow> cell \<Rightarrow> unit cmd" where
  "store_at a c = (\<lambda>h. if a < length h then (Inr (), h[a := c]) else (Inl TypeError, h))"

definition floats_at :: "addr \<Rightarrow> npfloat list cmd" where
  "floats_at a = sbind (load a) (\<lambda>c. case c of Floats xs \<Rightarrow> sreturn xs | _ \<Rightarrow> sraise TypeError)"

definition flags_at :: "addr \<Rightarrow> bool list cmd" where
  "flags_at a = sbind (load a) (\<lambda>c. case c of Flags q \<Rightarrow> sreturn q | _ \<Rightarrow> sraise TypeError)"

definition matrix_at :: "addr \<Rightarrow> array2 cmd" where
  "matrix_at a = sbind (load a) (\<lambda>c. case c of Matrix m \<Rightarrow> sreturn m | _ \<Rightarrow> sraise TypeError)"

definition pha_at :: "addr \<Rightarrow> pha_object cmd" where
  "pha_at a = sbind (load a) (\<lambda>c. case c of Pha p \<Rightarrow> sreturn p | _ \<Rightarrow> sraise TypeError)"

subsection \<open>NumPy operations on the store\<close>

text \<open>
  \<open>a += b\<close> and \<open>a[idx] = v\<close> write the array at the address of \<open>a\<close>; a binary operation,
  \<open>np.logical_or\<close>, \<open>np.nan_to_num\<close> and the product with a number allocate their result.
  A transposed array is a view in NumPy; the stacker only reads its views, and the view
  is a cell of its own here.
\<close>

definition iadd :: "rounding \<Rightarrow> addr \<Rightarrow> addr \<Rightarrow> unit cmd" where
  "iadd rnd a b =
     sbind (floats_at a) (\<lambda>xs.
     sbind (floats_at b) (\<lambda>ys.
     sbind (of_result (inplace2 (fadd rnd) xs ys)) (\<lambda>zs.
     store_at a (Floats zs))))"

definition binop :: "(npfloat \<Rightarrow> npfloat \<Rightarrow> npfloat) \<Rightarrow> addr \<Rightarrow> addr \<Rightarrow> addr cmd" where
  "binop f a b =
     sbind (floats_at a) (\<lambda>xs.
     sbind (floats_at b) (\<lambda>ys.
     sbind (of_result (broadcast2 f xs ys)) (\<lambda>zs.
     alloc (Floats zs))))"

definition scale :: "(npfloat \<Rightarrow> npfloat) \<Rightarrow> addr \<Rightarrow> addr cmd" where
  "scale f a = sbind (floats_at a) (\<lambda>xs. alloc (Floats (map f xs)))"

definition logical_or :: "addr \<Rightarrow> addr \<Rightarrow> addr cmd" where
  "logical_or a b =
     sbind (flags_at a) (\<lambda>xs.
     sbind (flags_at b) (\<lambda>ys.
     sbind (of_result (broadcast2 (\<or>) xs ys)) (\<lambda>zs.
     alloc (Flags zs))))"

definition setitem :: "addr \<Rightarrow> nat list \<Rightarrow> npfloat \<Rightarrow> unit cmd" where
  "setitem a idx v =
     sbind (floats_at a) (\<lambda>xs.
     sbind (of_result (set_at xs idx v)) (\<lambda>ys.
     store_at a (Floats ys)))"

definition transpose_st :: "addr \<Rightarrow> addr cmd" where
  "transpose_st a = sbind (matrix_at a) (\<lambda>m. alloc (Matrix (transpose2 m)))"

definition last_axis_st :: "(npfloat \<Rightarrow> npfloat \<Rightarrow> npfloat) \<Rightarrow> addr \<Rightarrow> addr \<Rightarrow> addr cmd" where
  "last_axis_st f a v =
     sbind (matrix_at a) (\<lambda>m.
     sbind (floats_at v) (\<lambda>xs.
     sbind (of_result (last_axis2 f m xs)) (\<lambda>w.
     alloc (Matrix w))))"

definition iadd2 :: "rounding \<Rightarrow> addr \<Rightarrow> addr \<Rightarrow> unit cmd" where
  "iadd2 rnd a b =
     sbind (matrix_at a) (\<lambda>x.
     sbind (matrix_at b) (\<lambda>y.
     sbind (of_result (inplace_array2 (fadd rnd) x y)) (\<lambda>z.
     store_at a (Matrix z))))"

definition nan_to_num_st :: "addr \<Rightarrow> addr cmd" where
  "nan_to_num_st a = sbind (matrix_at a) (\<lambda>m. alloc (Matrix (map_array2 nan_to_num m)))"

subsection \<open>The objects of the data model\<close>

text \<open>
  The value of a counts spectrum in the store: its fields with the arrays read.
\<close>

definition backscal_value :: "backscal_ref option \<Rightarrow> backscal option cmd" where
  "backscal_value b =
     (case b of
        None \<Rightarrow> sreturn None
      | Some (ScalarOf v) \<Rightarrow> sreturn (Some (Scalar v))
      | Some (ArrayAt a) \<Rightarrow> sbind (floats_at a) (\<lambda>xs. sreturn (Some (PerBin xs))))"

definition pha_value :: "addr \<Rightarrow> pha_counts_spectrum cmd" where
  "pha_value a =
     sbind (pha_at a) (\<lambda>p.
     sbind (floats_at (data_at p)) (\<lambda>d.
     sbind (flags_at (quality_at p)) (\<lambda>q.
     sbind (backscal_value (backscal_at p)) (\<lambda>b.
     sreturn \<lparr>data = d, energy = energy_of p, quality = q, backscal = b,
              livetime = livetime_of p, obs_id = obs_id_of p,
              lo_threshold = lo_threshold_of p, hi_threshold = hi_threshold_of p\<rparr>))))"

text \<open>
  Modelled from the spec: the methods of \<open>PHACountsSpectrum\<close>, \<open>EffectiveAreaTable\<close> and
  \<open>EnergyDispersion\<close> that the stacker calls.  \<open>copy()\<close> is a deep copy (arrays copied, no
  shared backing storage); \<open>counts_in_safe_range\<close>, \<open>_backscal_array\<close> followed by
  \<open>.copy()\<close>, \<open>evaluate(fill_nan=True)\<close> and \<open>pdf_in_safe_range\<close> compute a new array from
  the object and leave the object alone; the constructor makes a new object around the
  arrays it is given.
\<close>

definition copy_backscal :: "backscal_ref option \<Rightarrow> backscal_ref option cmd" where
  "copy_backscal b =
     (case b of
        None \<Rightarrow> sreturn None
      | Some (ScalarOf v) \<Rightarrow> sreturn (Some (ScalarOf v))
      | Some (ArrayAt a) \<Rightarrow>
          sbind (floats_at a) (\<lambda>xs. sbind (alloc (Floats xs)) (\<lambda>a'. sreturn (Some (ArrayAt a')))))"

definition copy_st :: "addr \<Rightarrow> addr cmd" where
  "copy_st a =
     sbind (pha_at a) (\<lambda>p.
     sbind (floats_at (data_at p)) (\<lambda>d.
     sbind (alloc (Floats d)) (\<lambda>da.
     sbind (flags_at (quality_at p)) (\<lambda>q.
     sbind (alloc (Flags q)) (\<lambda>qa.
     sbind (copy_backscal (backscal_at p)) (\<lambda>b.
     alloc (Pha (p\<lparr>data_at := da, quality_at := qa, backscal_at := b\<rparr>))))))))"

definition counts_in_safe_range_st :: "addr \<Rightarrow> addr cmd" where
  "counts_in_safe_range_st a = sbind (pha_value a) (\<lambda>s. alloc (Floats (counts_in_safe_range s)))"

definition backscal_array_copy :: "addr \<Rightarrow> addr cmd" where
  "backscal_array_copy a =
     sbind (pha_value a) (\<lambda>s.
     sbind (of_result (backscal_array s)) (\<lambda>xs.
     alloc (Floats xs)))"

definition PHACountsSpectrum_st :: "addr \<Rightarrow> real list \<Rightarrow> addr \<Rightarrow> addr cmd" where
  "PHACountsSpectrum_st d e q =
     sbind (floats_at d) (\<lambda>xs.
     if int (length xs) \<noteq> nbins e then sraise ValueError
     else alloc (Pha \<lparr>data_at = d, energy_of = e, quality_at = q, backscal_at = None,
                      livetime_of = None, obs_id_of = NoId, lo_threshold_of = None,
                      hi_threshold_of = None\<rparr>))"

record aeff_object =
  aeff_energy_of :: "real list"
  aeff_data_at :: addr

record edisp_object =
  e_true_of :: "real list"
  e_reco_of :: "real list"
  edisp_data_at :: addr

definition evaluate_st :: "aeff_object \<Rightarrow> addr cmd" where
  "evaluate_st a =
     sbind (floats_at (aeff_data_at a)) (\<lambda>xs.
     alloc (Floats (evaluate_fill_nan \<lparr>aeff_energy = aeff_energy_of a, aeff_data = xs\<rparr>)))"

definition pdf_in_safe_range_st :: "edisp_object \<Rightarrow> real option \<Rightarrow> real option \<Rightarrow> addr cmd" where
  "pdf_in_safe_range_st d lo hi =
     sbind (matrix_at (edisp_data_at d)) (\<lambda>m.
     alloc (Matrix (pdf_in_safe_range
                      \<lparr>edisp_e_true = e_true_of d, edisp_e_reco = e_reco_of d, edisp_data = m\<rparr>
                      lo hi)))"

text \<open>An observation refers to its vectors and to the arrays of its responses.\<close>

record observation_st =
  on_at :: addr
  aeff_of :: aeff_object
  off_at :: "addr option"
  edisp_of :: "edisp_object option"

fun livetimes_st :: "observation_st list \<Rightarrow> npfloat list cmd" where
  "livetimes_st [] = sreturn []"
| "livetimes_st (ob # os) =
     sbind (pha_at (on_at ob)) (\<lambda>p.
     sbind (of_result (of_option AttributeError (livetime_of p))) (\<lambda>t.
     sbind (livetimes_st os) (\<lambda>ts.
     sreturn (t # ts))))"

definition total_livetime_st :: "rounding \<Rightarrow> observation_st list \<Rightarrow> npfloat cmd" where
  "total_livetime_st rnd os = sbind (livetimes_st os) (\<lambda>ts. sreturn (np_sum rnd ts))"

fun obs_ids_st :: "observation_st list \<Rightarrow> obs_id list cmd" where
  "obs_ids_st [] = sreturn []"
| "obs_ids_st (ob # os) =
     sbind (pha_at (on_at ob)) (\<lambda>p.
     sbind (obs_ids_st os) (\<lambda>ns.
     sreturn (obs_id_of p # ns)))"

definition list_obs_id_st :: "observation_st list \<Rightarrow> obs_id cmd" where
  "list_obs_id_st os = sbind (obs_ids_st os) (\<lambda>ns. sreturn (ObsIds ns))"

subsection \<open>The stages of the stacker\<close>

record stacker_st =
  obs_list_st :: "observation_st list"
  stacked_on_vector_at :: "addr option"
  stacked_off_vector_at :: "addr option"
  stacked_aeff_of :: "aeff_object option"
  stacked_edisp_of :: "edisp_object option"
  stacked_bkscal_on_at :: "addr option"
  stacked_bkscal_off_at :: "addr option"
  stacked_obs_of :: "observation_st option"

definition SpectrumObservationStacker_st :: "observation_st list \<Rightarrow> stacker_st" where
  "SpectrumObservationStacker_st os =
     \<lparr>obs_list_st = os, stacked_on_vector_at = None, stacked_off_vector_at = None,
      stacked_aeff_of = None, stacked_edisp_of = None, stacked_bkscal_on_at = None,
      stacked_bkscal_off_at = None, stacked_obs_of = None\<rparr>"

fun stack_counts_loop_st :: "rounding \<Rightarrow> addr option list \<Rightarrow> addr \<Rightarrow> addr \<Rightarrow> (addr \<times> addr) cmd" where
  "stack_counts_loop_st rnd [] sd sq = sreturn (sd, sq)"
| "stack_counts_loop_st rnd (None # rest) sd sq = sraise AttributeError"
| "stack_counts_loop_st rnd (Some spec # rest) sd sq =
     sbind (counts_in_safe_range_st spec) (\<lambda>c.
     sbind (iadd rnd sd c) (\<lambda>_.
     sbind (pha_at spec) (\<lambda>p.
     sbind (logical_or sq (quality_at p)) (\<lambda>sq'.
     stack_counts_loop_st rnd rest sd sq'))))"

definition stack_counts_spectrum_st :: "rounding \<Rightarrow> addr option list \<Rightarrow> addr cmd" where
  "stack_counts_spectrum_st rnd counts_spectrum_list =
     sbind (of_result (first counts_spectrum_list)) (\<lambda>c0.
     sbind (of_result (of_option AttributeError c0)) (\<lambda>a0.
     sbind (copy_st a0) (\<lambda>template.
     sbind (pha_at template) (\<lambda>tp.
     sbind (of_result (np_zeros (nbins (energy_of tp)))) (\<lambda>z.
     sbind (alloc (Floats z)) (\<lambda>stacked_data.
     sbind (alloc (Flags (map (\<lambda>v. v \<noteq> Fin 0) z))) (\<lambda>stacked_quality.
     sbind (stack_counts_loop_st rnd counts_spectrum_list stacked_data stacked_quality) (\<lambda>r.
     PHACountsSpectrum_st (fst r) (energy_of tp) (snd r)))))))))"

definition stack_on_vector_st :: "rounding \<Rightarrow> stacker_st \<Rightarrow> stacker_st cmd" where
  "stack_on_vector_st rnd st =
     sbind (stack_counts_spectrum_st rnd (map (\<lambda>ob. Some (on_at ob)) (obs_list_st st))) (\<lambda>s.
     sreturn (st\<lparr>stacked_on_vector_at := Some s\<rparr>))"

definition stack_off_vector_st :: "rounding \<Rightarrow> stacker_st \<Rightarrow> stacker_st cmd" where
  "stack_off_vector_st rnd st =
     sbind (stack_counts_spectrum_st rnd (map off_at (obs_list_st st))) (\<lambda>s.
     sreturn (st\<lparr>stacked_off_vector_at := Some s\<rparr>))"

fun backscal_loop_st :: "rounding \<Rightarrow> observation_st list \<Rightarrow> addr \<Rightarrow> addr \<Rightarrow> unit cmd" where
  "backscal_loop_st rnd [] bkscal_on bkscal_off = sreturn ()"
| "backscal_loop_st rnd (ob # os) bkscal_on bkscal_off =
     sbind (backscal_array_copy (on_at ob)) (\<lambda>bkscal_on_data.
     sbind (of_result (of_option AttributeError (off_at ob))) (\<lambda>offv.
     sbind (counts_in_safe_range_st offv) (\<lambda>c.
     sbind (binop (fmul rnd) bkscal_on_data c) (\<lambda>won.
     sbind (iadd rnd bkscal_on won) (\<lambda>_.
     sbind (backscal_array_copy offv) (\<lambda>bkscal_off_data.
     sbind (counts_in_safe_range_st offv) (\<lambda>c'.
     sbind (binop (fmul rnd) bkscal_off_data c') (\<lambda>woff.
     sbind (iadd rnd bkscal_off woff) (\<lambda>_.
     backscal_loop_st rnd os bkscal_on bkscal_off)))))))))"

definition stack_backscal_st :: "rounding \<Rightarrow> stacker_st \<Rightarrow> stacker_st cmd" where
  "stack_backscal_st rnd st =
     sbind (of_result (first (obs_list_st st))) (\<lambda>ob0.
     sbind (pha_at (on_at ob0)) (\<lambda>p0.
     sbind (of_result (np_zeros (nbins (energy_of p0)))) (\<lambda>z.
     sbind (alloc (Floats z)) (\<lambda>bkscal_on.
     sbind (alloc (Floats z)) (\<lambda>bkscal_off.
     sbind (backscal_loop_st rnd (obs_list_st st) bkscal_on bkscal_off) (\<lambda>_.
     sbind (of_result (of_option AttributeError (stacked_off_vector_at st))) (\<lambda>soff.
     sbind (pha_at soff) (\<lambda>sp.
     sbind (binop (fdiv rnd) bkscal_on (data_at sp)) (\<lambda>stacked_bkscal_on.
     sbind (binop (fdiv rnd) bkscal_off (data_at sp)) (\<lambda>stacked_bkscal_off.
     sbind (floats_at (data_at sp)) (\<lambda>d.
     sbind (setitem stacked_bkscal_on (where_zero d) alpha_correction) (\<lambda>_.
     sbind (setitem stacked_bkscal_off (where_zero d) alpha_correction) (\<lambda>_.
     sreturn (st\<lparr>stacked_bkscal_on_at := Some stacked_bkscal_on,
                 stacked_bkscal_off_at := Some stacked_bkscal_off\<rparr>))))))))))))))"

text \<open>
  Assigning the attributes of a counts spectrum writes the object at its address; the
  three assignments to one vector are a single write here.
\<close>

definition set_attributes ::
  "addr \<Rightarrow> npfloat \<Rightarrow> addr option \<Rightarrow> obs_id \<Rightarrow> unit cmd" where
  "set_attributes a t b n =
     sbind (pha_at a) (\<lambda>p.
     store_at a (Pha (p\<lparr>livetime_of := Some t, backscal_at := map_option ArrayAt b,
                        obs_id_of := n\<rparr>)))"

definition setup_counts_vectors_st :: "rounding \<Rightarrow> stacker_st \<Rightarrow> stacker_st cmd" where
  "setup_counts_vectors_st rnd st =
     sbind (total_livetime_st rnd (obs_list_st st)) (\<lambda>t.
     sbind (of_result (of_option AttributeError (stacked_on_vector_at st))) (\<lambda>onv.
     sbind (of_result (of_option AttributeError (stacked_off_vector_at st))) (\<lambda>offv.
     sbind (list_obs_id_st (obs_list_st st)) (\<lambda>n.
     sbind (set_attributes onv t (stacked_bkscal_on_at st) n) (\<lambda>_.
     sbind (set_attributes offv t (stacked_bkscal_off_at st) n) (\<lambda>_.
     sreturn st))))))"

definition stack_counts_vectors_st :: "rounding \<Rightarrow> stacker_st \<Rightarrow> stacker_st cmd" where
  "stack_counts_vectors_st rnd st =
     sbind (stack_on_vector_st rnd st) (\<lambda>st1.
     sbind (stack_off_vector_st rnd st1) (\<lambda>st2.
     sbind (stack_backscal_st rnd st2) (\<lambda>st3.
     setup_counts_vectors_st rnd st3)))"

definition aefft_current_st :: "rounding \<Rightarrow> observation_st \<Rightarrow> addr cmd" where
  "aefft_current_st rnd ob =
     sbind (evaluate_st (aeff_of ob)) (\<lambda>aeff_data.
     sbind (pha_at (on_at ob)) (\<lambda>p.
     sbind (of_result (of_option TypeError (livetime_of p))) (\<lambda>t.
     scale (\<lambda>a. fmul rnd a t) aeff_data)))"

fun aeff_loop_st :: "rounding \<Rightarrow> observation_st list \<Rightarrow> addr \<Rightarrow> unit cmd" where
  "aeff_loop_st rnd [] aefft = sreturn ()"
| "aeff_loop_st rnd (ob # os) aefft =
     sbind (aefft_current_st rnd ob) (\<lambda>cur.
     sbind (iadd rnd aefft cur) (\<lambda>_.
     aeff_loop_st rnd os aefft))"

definition stack_aeff_st :: "rounding \<Rightarrow> stacker_st \<Rightarrow> stacker_st cmd" where
  "stack_aeff_st rnd st =
     sbind (of_result (first (obs_list_st st))) (\<lambda>ob0.
     sbind (of_result (np_zeros (nbins (aeff_energy_of (aeff_of ob0))))) (\<lambda>z.
     sbind (alloc (Floats z)) (\<lambda>aefft.
     sbind (aeff_loop_st rnd (obs_list_st st) aefft) (\<lambda>_.
     sbind (total_livetime_st rnd (obs_list_st st)) (\<lambda>t.
     sbind (scale (\<lambda>x. fdiv rnd x t) aefft) (\<lambda>stacked_data.
     sreturn (st\<lparr>stacked_aeff_of :=
                   Some \<lparr>aeff_energy_of = aeff_energy_of (aeff_of ob0),
                         aeff_data_at = stacked_data\<rparr>\<rparr>)))))))"

fun edisp_loop_st :: "rounding \<Rightarrow> observation_st list \<Rightarrow> addr \<Rightarrow> addr \<Rightarrow> unit cmd" where
  "edisp_loop_st rnd [] aefft aefftedisp = sreturn ()"
| "edisp_loop_st rnd (ob # os) aefft aefftedisp =
     sbind (aefft_current_st rnd ob) (\<lambda>cur.
     sbind (iadd rnd aefft cur) (\<lambda>_.
     sbind (of_result (of_option AttributeError (edisp_of ob))) (\<lambda>d.
     sbind (pha_at (on_at ob)) (\<lambda>p.
     sbind (pdf_in_safe_range_st d (lo_threshold_of p) (hi_threshold_of p)) (\<lambda>edisp_data.
     sbind (transpose_st edisp_data) (\<lambda>tr.
     sbind (last_axis_st (fmul rnd) tr cur) (\<lambda>w.
     sbind (iadd2 rnd aefftedisp w) (\<lambda>_.
     edisp_loop_st rnd os aefft aefftedisp))))))))"

definition stack_edisp_st :: "rounding \<Rightarrow> stacker_st \<Rightarrow> stacker_st cmd" where
  "stack_edisp_st rnd st =
     sbind (of_result (first (obs_list_st st))) (\<lambda>ob0.
     sbind (pha_at (on_at ob0)) (\<lambda>p0.
     sbind (of_result (np_zeros (nbins (aeff_energy_of (aeff_of ob0))))) (\<lambda>z.
     sbind (alloc (Floats z)) (\<lambda>aefft.
     sbind (of_result (zeros2 (nbins (energy_of p0)) (nbins (aeff_energy_of (aeff_of ob0))))) (\<lambda>temp.
     sbind (alloc (Matrix temp)) (\<lambda>aefftedisp.
     sbind (edisp_loop_st rnd (obs_list_st st) aefft aefftedisp) (\<lambda>_.
     sbind (last_axis_st (fdiv rnd) aefftedisp aefft) (\<lambda>q.
     sbind (nan_to_num_st q) (\<lambda>stacked_edisp.
     sbind (transpose_st stacked_edisp) (\<lambda>tr.
     sreturn (st\<lparr>stacked_edisp_of :=
                   Some \<lparr>e_true_of = aeff_energy_of (aeff_of ob0), e_reco_of = energy_of p0,
                         edisp_data_at = tr\<rparr>\<rparr>)))))))))))"

definition stack_obs_st :: "stacker_st \<Rightarrow> stacker_st cmd" where
  "stack_obs_st st =
     sbind (of_result (of_option AttributeError (stacked_on_vector_at st))) (\<lambda>onv.
     sbind (of_result (of_option AttributeError (stacked_aeff_of st))) (\<lambda>a.
     sreturn (st\<lparr>stacked_obs_of :=
                   Some \<lparr>on_at = onv, aeff_of = a, off_at = stacked_off_vector_at st,
                         edisp_of = stacked_edisp_of st\<rparr>\<rparr>)))"

definition run_st :: "rounding \<Rightarrow> stacker_st \<Rightarrow> stacker_st cmd" where
  "run_st rnd st =
     sbind (stack_counts_vectors_st rnd st) (\<lambda>st1.
     sbind (stack_aeff_st rnd st1) (\<lambda>st2.
     sbind (stack_edisp_st rnd st2) (\<lambda>st3.
     stack_obs_st st3)))"

text \<open>
  What a command may do to the cells below address \<open>n\<close>: nothing.  \<open>keeps n m Q\<close> says
  that from a store of at least \<open>n\<close> cells the command \<open>m\<close> leaves a store that is not
  shorter and holds the same first \<open>n\<close> cells, whether it returns or raises, and that a
  returned result satisfies \<open>Q\<close>.
\<close>

definition keeps :: "nat \<Rightarrow> 'a cmd \<Rightarrow> ('a \<Rightarrow> bool) \<Rightarrow> bool" where
  "keeps n m Q =
     (\<forall>h. n \<le> length h \<longrightarrow>
        length h \<le> length (snd (m h)) \<and> take n (snd (m h)) = take n h
        \<and> (case fst (m h) of Inl e \<Rightarrow> True | Inr x \<Rightarrow> Q x))"

definition fresh_stacker :: "nat \<Rightarrow> stacker_st \<Rightarrow> bool" where
  "fresh_stacker n st =
     ((case stacked_on_vector_at st of None \<Rightarrow> True | Some a \<Rightarrow> n \<le> a)
      \<and> (case stacked_off_vector_at st of None \<Rightarrow> True | Some a \<Rightarrow> n \<le> a))"

subsection \<open>A store with one observation\<close>

text \<open>
  The first observation of the worked example in a store of eight cells: the arrays and
  the object of its on vector, those of its off vector, the areas and the matrix.
\<close>

definition worked_pha :: "addr \<Rightarrow> addr \<Rightarrow> pha_object" where
  "worked_pha d q =
     \<lparr>data_at = d, energy_of = worked_grid, quality_at = q,
      backscal_at = Some (ScalarOf (Fin (1 / 10))), livetime_of = Some (Fin 100),
      obs_id_of = ObsId 1, lo_threshold_of = Some 1, hi_threshold_of = Some 3\<rparr>"

definition worked_store :: store where
  "worked_store =
     [Floats [Fin 10, Fin 20], Flags [False, False], Pha (worked_pha 0 1),
      Floats [Fin 5, Fin 5], Flags [False, False], Pha (worked_pha 3 4),
      Floats [Fin 2, Fin 4], Matrix (edisp_data worked_edisp)]"

definition worked_obs_st :: observation_st where
  "worked_obs_st =
     \<lparr>on_at = 2, aeff_of = \<lparr>aeff_energy_of = worked_grid, aeff_data_at = 6\<rparr>,
      off_at = Some 5,
      edisp_of = Some \<lparr>e_true_of = worked_grid, e_reco_of = worked_grid, edisp_data_at = 7\<rparr>\<rparr>"
subsection \<open>Reading after the run\<close>

text \<open>
  A command that only reads leaves the store as it is, and what it returns from a store
  it returns from every store that extends it.
\<close>

definition stable :: "'a cmd \<Rightarrow> bool" where
  "stable m =
     (\<forall>h. snd (m h) = h
        \<and> (\<forall>h' x. take (length h) h' = h \<longrightarrow> fst (m h) = Inr x \<longrightarrow> fst (m h') = Inr x))"

section \<open>Observations with a given livetime and effective area\<close>

text \<open>
  The first observation of the worked example with the livetime \<open>t\<close> on both vectors and
  the effective area \<open>a\<close> in both true-energy bins.
\<close>

definition plain_obs :: "real \<Rightarrow> real \<Rightarrow> spectrum_observation" where
  "plain_obs t a =
     SpectrumObservation (worked_spectrum [10, 20] double_tenth t 1)
       (worked_aeff\<lparr>aeff_data := [Fin a, Fin a]\<rparr>)
       (Some (worked_spectrum [5, 5] double_tenth t 1)) (Some worked_edisp)"

section \<open>Evaluation\<close>

text \<open>
  The bit length of a numeral, digit by digit, and the equations that unfold the model
  on a concrete input.
\<close>

lemma np_sum_short: "length xs < 8 \<Longrightarrow> np_sum rnd xs = foldl (fadd rnd) (Fin 0) xs"
  by (simp add: np_sum_def pairwise_sum.simps)

lemma bitlen_numeral_simps:
  "bitlen 1 = 1"
  "bitlen (numeral Num.One) = 1"
  "bitlen (numeral (Num.Bit0 n)) = bitlen (numeral n) + 1"
  "bitlen (numeral (Num.Bit1 n)) = bitlen (numeral n) + 1"
proof -
  show "bitlen 1 = 1" by (subst compute_bitlen) simp
  then show "bitlen (numeral Num.One) = 1" by simp
  show "bitlen (numeral (Num.Bit0 n)) = bitlen (numeral n) + 1"
    by (subst compute_bitlen) simp
  show "bitlen (numeral (Num.Bit1 n)) = bitlen (numeral n) + 1"
    by (subst compute_bitlen) simp
qed

lemmas round64_eval = round64_def round_abs_def exponent_def scale2_def round_even_def Let_def
  bitlen_numeral_simps

lemmas stack_eval = stack_def run_def stack_obs_def stack_edisp_def
  inplace_array2_def last_axis2_def map_array2_def stack_aeff_def
  aefft_current_def stack_counts_vectors_def setup_counts_vectors_def stack_backscal_def
  alpha_correction_def stack_off_vector_def stack_on_vector_def
  stack_counts_spectrum_def SpectrumObservationStacker_def
  first_def of_option_def ebind_def list_obs_id_def total_livetime_def
  obs_hi_threshold_def obs_lo_threshold_def e_true_def e_reco_def obs_livetime_def
  obs_obs_id_def SpectrumObservation_def pdf_in_safe_range_def evaluate_fill_nan_def
  transpose2_def zeros2_def tabulate2_def at2_def backscal_array_def
  counts_in_safe_range_def bin_is_safe_def flagged_def in_thresholds_def
  PHACountsSpectrum_def nbins_def np_sum_short set_at_def where_zero_def inplace2_def
  broadcast2_def np_zeros_def numeral_2_eq_2

lemmas worked_eval = worked_stacked_def worked_stacked_spectrum_def worked_obs1_def
  worked_obs2_def worked_edisp_def worked_aeff_def worked_spectrum_def worked_grid_def

lemmas shape_eval_livetime = obs_livetime_def SpectrumObservation_def worked_obs1_def
  worked_obs2_def worked_spectrum_def

lemma worked_exact:
  "stack Fin [worked_obs1 (1 / 10), worked_obs2 (1 / 10)] = Inr (worked_stacked (1 / 10))"
  by (simp add: stack_eval worked_eval)

lemma worked_double:
  "stack round64 [worked_obs1 double_tenth, worked_obs2 double_tenth]
     = Inr (worked_stacked double_tenth)"
  by (simp add: stack_eval worked_eval double_tenth_def round64_eval)

section \<open>Exceptions\<close>

lemma ebind_Inr [simp]: "ebind (Inr x) f = f x"
  by (simp add: ebind_def)

lemma ebind_Inl [simp]: "ebind (Inl e) f = Inl e"
  by (simp add: ebind_def)

lemma ebind_eq_Inr: "ebind m f = Inr y \<longleftrightarrow> (\<exists>x. m = Inr x \<and> f x = Inr y)"
  by (cases m) simp_all

lemma of_option_eq_Inr [simp]: "of_option e x = Inr v \<longleftrightarrow> x = Some v"
  by (cases x) (simp_all add: of_option_def)

lemma of_option_Some [simp]: "of_option e (Some v) = Inr v"
  by (simp add: of_option_def)

section \<open>What each stage leaves alone\<close>

lemma stack_on_vector_obs_list: "stack_on_vector rnd st = Inr st' \<Longrightarrow> obs_list st' = obs_list st"
  by (auto simp: stack_on_vector_def ebind_eq_Inr)

lemma stack_off_vector_obs_list: "stack_off_vector rnd st = Inr st' \<Longrightarrow> obs_list st' = obs_list st"
  by (auto simp: stack_off_vector_def ebind_eq_Inr)

lemma stack_backscal_obs_list: "stack_backscal rnd st = Inr st' \<Longrightarrow> obs_list st' = obs_list st"
  unfolding stack_backscal_def ebind_def
  by (simp split: sum.splits prod.splits) fastforce?

lemma stack_aeff_frame:
  "stack_aeff rnd st = Inr st' \<Longrightarrow>
     obs_list st' = obs_list st \<and> stacked_on_vector st' = stacked_on_vector st
     \<and> stacked_off_vector st' = stacked_off_vector st"
  by (auto simp: stack_aeff_def ebind_eq_Inr)

lemma stack_edisp_frame:
  "stack_edisp rnd st = Inr st' \<Longrightarrow>
     obs_list st' = obs_list st \<and> stacked_on_vector st' = stacked_on_vector st
     \<and> stacked_off_vector st' = stacked_off_vector st \<and> stacked_aeff st' = stacked_aeff st"
  unfolding stack_edisp_def ebind_def
  by (simp split: sum.splits prod.splits) fastforce?

lemma stack_obs_result:
  "stack_obs st = Inr st' \<Longrightarrow>
     \<exists>onv a. stacked_on_vector st = Some onv \<and> stacked_aeff st = Some a
       \<and> stacked_obs st' = Some (SpectrumObservation onv a (stacked_off_vector st) (stacked_edisp st))"
  by (auto simp: stack_obs_def ebind_eq_Inr)

text \<open>The stages of a run that returns, and how its result is put together.\<close>

lemma run_stages:
  assumes "run rnd st = Inr st'"
  obtains st1 st2 st3 where "stack_counts_vectors rnd st = Inr st1"
    and "stack_aeff rnd st1 = Inr st2" and "stack_edisp rnd st2 = Inr st3"
    and "stack_obs st3 = Inr st'"
  using assms by (auto simp: run_def ebind_eq_Inr)

lemma stack_counts_vectors_stages:
  assumes "stack_counts_vectors rnd st = Inr st'"
  obtains st1 st2 st3 where "stack_on_vector rnd st = Inr st1"
    and "stack_off_vector rnd st1 = Inr st2" and "stack_backscal rnd st2 = Inr st3"
    and "setup_counts_vectors rnd st3 = Inr st'"
  using assms by (auto simp: stack_counts_vectors_def ebind_eq_Inr)

lemma stack_result:
  assumes "stack rnd os = Inr sob"
  shows "\<exists>st1 st2 st3 onv a.
           stack_counts_vectors rnd (SpectrumObservationStacker os) = Inr st1
           \<and> stack_aeff rnd st1 = Inr st2 \<and> stack_edisp rnd st2 = Inr st3
           \<and> stacked_on_vector st1 = Some onv \<and> stacked_aeff st2 = Some a
           \<and> sob = SpectrumObservation onv a (stacked_off_vector st1) (stacked_edisp st3)"
proof -
  from assms obtain st where r: "run rnd (SpectrumObservationStacker os) = Inr st"
    and so: "stacked_obs st = Some sob"
    by (auto simp: stack_def ebind_eq_Inr)
  from r obtain st1 st2 st3 where
    s1: "stack_counts_vectors rnd (SpectrumObservationStacker os) = Inr st1"
    and s2: "stack_aeff rnd st1 = Inr st2" and s3: "stack_edisp rnd st2 = Inr st3"
    and s4: "stack_obs st3 = Inr st"
    by (rule run_stages)
  from stack_obs_result [OF s4] so obtain onv a where
    r3: "stacked_on_vector st3 = Some onv" "stacked_aeff st3 = Some a"
    "sob = SpectrumObservation onv a (stacked_off_vector st3) (stacked_edisp st3)"
    by auto
  have e1: "stacked_on_vector st1 = Some onv"
    using r3(1) stack_aeff_frame [OF s2] stack_edisp_frame [OF s3] by simp
  have e2: "stacked_aeff st2 = Some a"
    using r3(2) stack_edisp_frame [OF s3] by simp
  have e3: "sob = SpectrumObservation onv a (stacked_off_vector st1) (stacked_edisp st3)"
    using r3(3) stack_aeff_frame [OF s2] stack_edisp_frame [OF s3] by simp
  show ?thesis
    using s1 s2 s3 e1 e2 e3 by blast
qed

section \<open>Arithmetic of the special values\<close>

lemma fadd_exact_commute: "fadd Fin a b = fadd Fin b a"
  by (cases a; cases b) (simp_all add: add.commute)

lemma fadd_exact_assoc: "fadd Fin (fadd Fin a b) c = fadd Fin a (fadd Fin b c)"
  by (cases a; cases b; cases c) (simp_all add: add.assoc)

lemma fadd_exact_left_commute: "fadd Fin a (fadd Fin b c) = fadd Fin b (fadd Fin a c)"
  by (metis fadd_exact_assoc fadd_exact_commute)

lemma fadd_exact_swap: "fadd Fin (fadd Fin a x) y = fadd Fin (fadd Fin a y) x"
  by (metis fadd_exact_assoc fadd_exact_commute)

lemma fadd_exact_zero [simp]: "fadd Fin a (Fin 0) = a" "fadd Fin (Fin 0) a = a"
  by (cases a; simp)+

lemmas fadd_exact_ac = fadd_exact_assoc fadd_exact_commute fadd_exact_left_commute

section \<open>Livetime\<close>

lemma livetimes_Inr_D: "livetimes os = Inr ts \<Longrightarrow> map obs_livetime os = map Some ts"
proof (induction os arbitrary: ts)
  case Nil
  then show ?case by simp
next
  case (Cons ob os)
  from Cons.prems obtain t ts' where "obs_livetime ob = Some t" "livetimes os = Inr ts'" "ts = t # ts'"
    by (auto split: option.splits sum.splits)
  with Cons.IH [of ts'] show ?case by simp
qed

lemma livetimes_Inr_I: "map obs_livetime os = map Some ts \<Longrightarrow> livetimes os = Inr ts"
proof (induction os arbitrary: ts)
  case Nil
  then show ?case by simp
next
  case (Cons ob os)
  from Cons.prems obtain t ts' where "ts = t # ts'" "obs_livetime ob = Some t"
    "map obs_livetime os = map Some ts'"
    by (cases ts) auto
  with Cons.IH [of ts'] show ?case by simp
qed

lemma total_livetime_eq_Inr:
  "total_livetime rnd os = Inr t \<longleftrightarrow> (\<exists>ts. livetimes os = Inr ts \<and> t = np_sum rnd ts)"
  by (cases "livetimes os") (auto simp: total_livetime_def)

text \<open>In exact arithmetic the pairwise sum is the sum from left to right.\<close>

lemma foldl_fadd_Fin: "foldl (fadd Fin) a xs = fadd Fin a (foldl (fadd Fin) (Fin 0) xs)"
proof (induction xs arbitrary: a)
  case Nil
  show ?case by simp
next
  case (Cons x xs)
  show ?case
    using Cons.IH [of "fadd Fin a x"] Cons.IH [of x] by (simp add: fadd_exact_assoc)
qed

lemma foldl_fadd_Fin_append:
  "foldl (fadd Fin) (Fin 0) (xs @ ys)
     = fadd Fin (foldl (fadd Fin) (Fin 0) xs) (foldl (fadd Fin) (Fin 0) ys)"
  using foldl_fadd_Fin [of "foldl (fadd Fin) (Fin 0) xs" ys] by simp

lemma foldl_fadd_Fin_map2:
  "length xs = length ys \<Longrightarrow>
     foldl (fadd Fin) (Fin 0) (map2 (fadd Fin) xs ys)
       = fadd Fin (foldl (fadd Fin) (Fin 0) xs) (foldl (fadd Fin) (Fin 0) ys)"
proof (induction xs ys rule: list_induct2)
  case Nil
  show ?case by simp
next
  case (Cons x xs y ys)
  show ?case
    using foldl_fadd_Fin [of "fadd Fin x y" "map2 (fadd Fin) xs ys"]
      foldl_fadd_Fin [of x xs] foldl_fadd_Fin [of y ys] Cons.IH
    by (simp add: fadd_exact_ac)
qed

lemma add_blocks_exact:
  assumes "length r = 8"
  shows "length (fst (add_blocks Fin r xs)) = 8
     \<and> fadd Fin (foldl (fadd Fin) (Fin 0) (fst (add_blocks Fin r xs)))
                 (foldl (fadd Fin) (Fin 0) (snd (add_blocks Fin r xs)))
         = fadd Fin (foldl (fadd Fin) (Fin 0) r) (foldl (fadd Fin) (Fin 0) xs)"
  using assms
proof (induction "length xs" arbitrary: r xs rule: less_induct)
  case less
  show ?case
  proof (cases "length xs < 8")
    case True
    then show ?thesis
      using less.prems by (simp add: add_blocks.simps)
  next
    case False
    let ?r = "map2 (fadd Fin) r (take 8 xs)"
    have l: "length ?r = 8" "length r = length (take 8 xs)"
      using False less.prems by simp_all
    have d: "length (drop 8 xs) < length xs"
      using False by simp
    have s: "foldl (fadd Fin) (Fin 0) ?r
        = fadd Fin (foldl (fadd Fin) (Fin 0) r) (foldl (fadd Fin) (Fin 0) (take 8 xs))"
      by (rule foldl_fadd_Fin_map2 [OF l(2)])
    have x: "foldl (fadd Fin) (Fin 0) xs
        = fadd Fin (foldl (fadd Fin) (Fin 0) (take 8 xs)) (foldl (fadd Fin) (Fin 0) (drop 8 xs))"
      using foldl_fadd_Fin_append [of "take 8 xs" "drop 8 xs"] by simp
    have a: "add_blocks Fin r xs = add_blocks Fin ?r (drop 8 xs)"
      using False by (subst add_blocks.simps) simp
    from less.hyps [OF d l(1)] show ?thesis
      unfolding a s x by (simp add: fadd_exact_assoc)
  qed
qed

lemma eight_accumulators_exact:
  assumes "length r = 8"
  shows "fadd Fin (fadd Fin (fadd Fin (r ! 0) (r ! 1)) (fadd Fin (r ! 2) (r ! 3)))
                  (fadd Fin (fadd Fin (r ! 4) (r ! 5)) (fadd Fin (r ! 6) (r ! 7)))
         = foldl (fadd Fin) (Fin 0) r"
proof -
  from assms obtain a b c d e f g h where "r = [a, b, c, d, e, f, g, h]"
    by (auto simp: length_Suc_conv numeral_eq_Suc)
  then show ?thesis
    by (simp add: fadd_exact_assoc)
qed

lemma half_block_bounds:
  assumes "128 < n"
  shows "0 < half_block n \<and> half_block n < n"
proof -
  have "n div 2 mod 8 < 8"
    by simp
  moreover have "64 \<le> n div 2" "n div 2 < n"
    using assms by simp_all
  ultimately show ?thesis
    unfolding half_block_def by linarith
qed

lemma pairwise_sum_exact: "pairwise_sum Fin xs = foldl (fadd Fin) (Fin 0) xs"
proof (induction "length xs" arbitrary: xs rule: less_induct)
  case less
  show ?case
  proof (cases "length xs < 8")
    case True
    then show ?thesis
      by (simp add: pairwise_sum.simps)
  next
    case False
    show ?thesis
    proof (cases "length xs \<le> 128")
      case True
      have l: "length (take 8 xs) = 8"
        using False by simp
      let ?b = "add_blocks Fin (take 8 xs) (drop 8 xs)"
      let ?r = "fst ?b"
      note b = add_blocks_exact [OF l, of "drop 8 xs"]
      have "pairwise_sum Fin xs
          = foldl (fadd Fin)
              (fadd Fin (fadd Fin (fadd Fin (?r ! 0) (?r ! 1)) (fadd Fin (?r ! 2) (?r ! 3)))
                        (fadd Fin (fadd Fin (?r ! 4) (?r ! 5)) (fadd Fin (?r ! 6) (?r ! 7))))
              (snd ?b)"
        by (subst pairwise_sum.simps) (simp only: False True if_False if_True split_def)
      also have "\<dots> = foldl (fadd Fin) (foldl (fadd Fin) (Fin 0) ?r) (snd ?b)"
        by (simp only: eight_accumulators_exact [OF conjunct1 [OF b]])
      also have "\<dots> = fadd Fin (foldl (fadd Fin) (Fin 0) ?r) (foldl (fadd Fin) (Fin 0) (snd ?b))"
        by (rule foldl_fadd_Fin)
      also have "\<dots> = fadd Fin (foldl (fadd Fin) (Fin 0) (take 8 xs))
                            (foldl (fadd Fin) (Fin 0) (drop 8 xs))"
        by (rule conjunct2 [OF b])
      also have "\<dots> = foldl (fadd Fin) (Fin 0) xs"
        using foldl_fadd_Fin_append [of "take 8 xs" "drop 8 xs"] by simp
      finally show ?thesis .
    next
      case long: False
      let ?n = "half_block (length xs)"
      have n: "0 < ?n" "?n < length xs"
        using long half_block_bounds [of "length xs"] by simp_all
      then have len: "length (take ?n xs) < length xs" "length (drop ?n xs) < length xs"
        by simp_all
      have "pairwise_sum Fin xs
          = fadd Fin (pairwise_sum Fin (take ?n xs)) (pairwise_sum Fin (drop ?n xs))"
        using False long by (subst pairwise_sum.simps) simp
      also have "\<dots> = fadd Fin (foldl (fadd Fin) (Fin 0) (take ?n xs))
                            (foldl (fadd Fin) (Fin 0) (drop ?n xs))"
        by (simp only: less.hyps [OF len(1)] less.hyps [OF len(2)])
      also have "\<dots> = foldl (fadd Fin) (Fin 0) xs"
        using foldl_fadd_Fin_append [of "take ?n xs" "drop ?n xs"] by simp
      finally show ?thesis .
    qed
  qed
qed

lemma np_sum_exact_fold: "np_sum Fin xs = foldl (fadd Fin) (Fin 0) xs"
  by (simp add: np_sum_def pairwise_sum_exact)

lemma foldl_fadd_exact: "foldl (fadd Fin) (Fin a) (map Fin xs) = Fin (a + sum_list xs)"
  by (induction xs arbitrary: a) (simp_all add: add.assoc)

lemma np_sum_exact: "np_sum Fin (map Fin xs) = Fin (sum_list xs)"
  using foldl_fadd_exact [of 0 xs] by (simp add: np_sum_exact_fold)

lemma setup_counts_vectors_livetime:
  assumes "setup_counts_vectors rnd st = Inr st'"
  shows "\<exists>t onv offv. total_livetime rnd (obs_list st) = Inr t
           \<and> stacked_on_vector st' = Some onv \<and> livetime onv = Some t
           \<and> stacked_off_vector st' = Some offv \<and> livetime offv = Some t"
  using assms by (auto simp: setup_counts_vectors_def ebind_eq_Inr)

lemma stack_counts_vectors_livetime:
  assumes "stack_counts_vectors rnd st = Inr st'"
  shows "\<exists>t onv offv. total_livetime rnd (obs_list st) = Inr t
           \<and> stacked_on_vector st' = Some onv \<and> livetime onv = Some t
           \<and> stacked_off_vector st' = Some offv \<and> livetime offv = Some t"
proof -
  from assms obtain st1 st2 st3 where
    s1: "stack_on_vector rnd st = Inr st1" and s2: "stack_off_vector rnd st1 = Inr st2"
    and s3: "stack_backscal rnd st2 = Inr st3" and s4: "setup_counts_vectors rnd st3 = Inr st'"
    by (rule stack_counts_vectors_stages)
  have "obs_list st3 = obs_list st"
    using stack_on_vector_obs_list [OF s1] stack_off_vector_obs_list [OF s2]
      stack_backscal_obs_list [OF s3] by simp
  with setup_counts_vectors_livetime [OF s4] show ?thesis by simp
qed

lemma stacked_livetime_np_sum:
  assumes "stack rnd os = Inr sob"
  shows "\<exists>ts offv. map obs_livetime os = map Some ts
           \<and> livetime (on_vector sob) = Some (np_sum rnd ts)
           \<and> off_vector sob = Some offv \<and> livetime offv = Some (np_sum rnd ts)"
proof -
  from stack_result [OF assms] obtain st1 st3 :: stacker and onv a where
    s1: "stack_counts_vectors rnd (SpectrumObservationStacker os) = Inr st1"
    and onv: "stacked_on_vector st1 = Some onv"
    and sob: "sob = SpectrumObservation onv a (stacked_off_vector st1) (stacked_edisp st3)"
    by blast
  have ol: "obs_list (SpectrumObservationStacker os) = os"
    by (simp add: SpectrumObservationStacker_def)
  from stack_counts_vectors_livetime [OF s1] ol onv obtain t offv where
    t: "total_livetime rnd os = Inr t" and on: "livetime onv = Some t"
    and off: "stacked_off_vector st1 = Some offv" "livetime offv = Some t"
    by auto
  from t obtain ts where ts: "livetimes os = Inr ts" "t = np_sum rnd ts"
    by (auto simp: total_livetime_eq_Inr)
  have "on_vector sob = onv" "off_vector sob = Some offv"
    using sob off by (simp_all add: SpectrumObservation_def)
  moreover have "map obs_livetime os = map Some ts"
    using ts(1) by (rule livetimes_Inr_D)
  ultimately show ?thesis
    using on off(2) ts(2) by blast
qed

text \<open>
  C6, as stated, fails: in binary64 arithmetic two observations with livetimes of 0.1 s
  and 0.2 s stack to a livetime of 0.30000000000000004 s, which is not the sum of the two
  numbers.
\<close>

theorem stacked_livetime_counterexample:
  "map obs_livetime [plain_obs double_tenth 2, plain_obs double_fifth 2]
     = [Some (Fin double_tenth), Some (Fin double_fifth)]
   \<and> map_sum id (\<lambda>sob. (livetime (on_vector sob), map_option livetime (off_vector sob)))
       (stack round64 [plain_obs double_tenth 2, plain_obs double_fifth 2])
     = Inr (Some (Fin (1351079888211149 / 2 ^ 52)), Some (Some (Fin (1351079888211149 / 2 ^ 52))))
   \<and> double_tenth + double_fifth = 10808639105689191 / 2 ^ 55
   \<and> (1351079888211149 / 2 ^ 52 :: real) \<noteq> double_tenth + double_fifth"
  by (simp add: stack_eval worked_eval plain_obs_def double_tenth_def double_fifth_def
      round64_eval)

text \<open>
  C6, amended.  In exact arithmetic the livetime carried by the stacked on vector and by
  the stacked off vector is the sum of the (finite) livetimes of the observations of the
  list.
\<close>

theorem stacked_livetime_exact_sum:
  assumes "stack Fin os = Inr sob" and "map obs_livetime os = map (\<lambda>x. Some (Fin x)) xs"
  shows "livetime (on_vector sob) = Some (Fin (sum_list xs))
     \<and> map_option livetime (off_vector sob) = Some (Some (Fin (sum_list xs)))"
proof -
  from stacked_livetime_np_sum [OF assms(1)] obtain ts offv where
    ts: "map obs_livetime os = map Some ts"
    and l: "livetime (on_vector sob) = Some (np_sum Fin ts)"
      "off_vector sob = Some offv" "livetime offv = Some (np_sum Fin ts)"
    by blast
  from ts assms(2) have "map Some ts = map Some (map Fin xs)"
    by (simp add: comp_def)
  then have "ts = map Fin xs"
    by (rule map_injective) simp
  with l show ?thesis
    by (simp add: np_sum_exact)
qed

theorem stacked_livetime_exact_sum_witness:
  "stack Fin [worked_obs1 (1 / 10), worked_obs2 (1 / 10)] = Inr (worked_stacked (1 / 10))
   \<and> map obs_livetime [worked_obs1 (1 / 10), worked_obs2 (1 / 10)]
       = map (\<lambda>x. Some (Fin x)) [100, 200]
   \<and> livetime (on_vector (worked_stacked (1 / 10))) = Some (Fin 300)
   \<and> map_option livetime (off_vector (worked_stacked (1 / 10))) = Some (Some (Fin 300))"
proof -
  have 1: "map obs_livetime [worked_obs1 (1 / 10), worked_obs2 (1 / 10)]
       = map (\<lambda>x. Some (Fin x)) [100, 200]"
    by (simp add: shape_eval_livetime)
  from stacked_livetime_exact_sum [OF worked_exact 1] worked_exact 1 show ?thesis
    by simp
qed

section \<open>The worked example\<close>

text \<open>
  C1.  Stacking the two observations of the worked example gives on counts 40 and 60,
  off counts 15 and 15, a livetime of 300 s on both vectors and the background scaling of
  the inputs in both bins: in binary64 arithmetic with the double nearest to 0.1, and in
  exact arithmetic with one tenth.
\<close>

theorem worked_example_stacked:
  "stack round64 [worked_obs1 double_tenth, worked_obs2 double_tenth]
     = Inr (worked_stacked double_tenth)
   \<and> stack Fin [worked_obs1 (1 / 10), worked_obs2 (1 / 10)] = Inr (worked_stacked (1 / 10))
   \<and> data (on_vector (worked_stacked b)) = [Fin 40, Fin 60]
   \<and> map_option data (off_vector (worked_stacked b)) = Some [Fin 15, Fin 15]
   \<and> livetime (on_vector (worked_stacked b)) = Some (Fin 300)
   \<and> map_option livetime (off_vector (worked_stacked b)) = Some (Some (Fin 300))
   \<and> backscal (on_vector (worked_stacked b)) = Some (PerBin [Fin b, Fin b])
   \<and> round64 (1 / 10) = Fin double_tenth"
proof -
  have "round64 (1 / 10) = Fin double_tenth"
    by (simp add: double_tenth_def round64_eval)
  then show ?thesis
    using worked_double worked_exact
    by (simp add: worked_stacked_def worked_stacked_spectrum_def SpectrumObservation_def)
qed

section \<open>Background scaling\<close>

lemma zero_off_exact: "stack Fin [zero_off_obs] = Inr zero_off_stacked"
  by (simp add: stack_eval worked_eval zero_off_obs_def zero_off_stacked_def zero_off_vector_def)

lemma length_fold_update: "length (fold (\<lambda>i b. b[i := v]) idx a) = length a"
  by (induction idx arbitrary: a) simp_all

lemma fold_update_nth:
  "i < length a \<Longrightarrow> fold (\<lambda>i b. b[i := v]) idx a ! i = (if i \<in> set idx then v else a ! i)"
proof (induction idx arbitrary: a)
  case Nil
  then show ?case by simp
next
  case (Cons j idx)
  then show ?case by (cases "i = j") (simp_all add: length_fold_update)
qed

lemma set_at_nth:
  assumes "set_at a idx v = Inr a'" and "i < length a"
  shows "a' ! i = (if i \<in> set idx then v else a ! i)" and "length a' = length a"
  using assms by (auto simp: set_at_def fold_update_nth length_fold_update split: if_splits)

lemma set_at_member:
  assumes "set_at a idx v = Inr a'" and "i \<in> set idx"
  shows "a' ! i = v"
proof -
  from assms have "i < length a"
    by (auto simp: set_at_def split: if_splits)
  with set_at_nth(1) [OF assms(1)] assms(2) show ?thesis by simp
qed

lemma where_zero_member: "k \<in> set (where_zero d) \<longleftrightarrow> k < length d \<and> d ! k = Fin 0"
  by (auto simp: where_zero_def)

lemma stack_backscal_result:
  assumes "stack_backscal rnd st = Inr st'"
  shows "\<exists>soff son1 soff1 son2 soff2.
           stacked_off_vector st = Some soff
           \<and> set_at son1 (where_zero (data soff)) alpha_correction = Inr son2
           \<and> set_at soff1 (where_zero (data soff)) alpha_correction = Inr soff2
           \<and> st' = st\<lparr>stacked_bkscal_on := Some son2, stacked_bkscal_off := Some soff2\<rparr>"
  using assms by (fastforce simp: stack_backscal_def ebind_eq_Inr split: prod.splits)

lemma setup_counts_vectors_result:
  assumes "setup_counts_vectors rnd st = Inr st'"
  shows "\<exists>t onv offv. total_livetime rnd (obs_list st) = Inr t
           \<and> stacked_on_vector st = Some onv \<and> stacked_off_vector st = Some offv
           \<and> stacked_on_vector st' = Some (onv\<lparr>livetime := Some t,
                 backscal := map_option PerBin (stacked_bkscal_on st),
                 obs_id := list_obs_id (obs_list st)\<rparr>)
           \<and> stacked_off_vector st' = Some (offv\<lparr>livetime := Some t,
                 backscal := map_option PerBin (stacked_bkscal_off st),
                 obs_id := list_obs_id (obs_list st)\<rparr>)"
  using assms by (auto simp: setup_counts_vectors_def ebind_eq_Inr)

section \<open>Reading with missing companion files\<close>

lemma except_IOError_simps [simp]:
  "except_IOError (Inr x) = Inr (Some x)"
  "except_IOError (Inl IOError) = Inr None"
  by (simp_all add: except_IOError_def)

lemmas read_eval = read_def directory_io_def parent_def path_join_def only_on_vector_def
  no_companions_def

text \<open>
  C7, as stated, fails: in a directory that holds the on vector alone the background
  file is missing (its reader raises \<open>IOError\<close>), and so is the effective area file, whose
  read is not guarded: the \<open>IOError\<close> surfaces from \<open>read\<close>.
\<close>

theorem read_missing_companion_counterexample:
  "read_pha only_on_vector (path_join (parent ''d/pha.fits'') (bkgfile only_on_vector on_spectrum))
     = Inl IOError
   \<and> read only_on_vector ''d/pha.fits'' = Inl IOError"
  by (simp add: read_eval)

text \<open>
  C7, amended.  When the on vector and the effective area file are read, a missing
  background file leaves \<open>off_vector\<close> absent, a missing response matrix file leaves
  \<open>edisp\<close> absent, and \<open>read\<close> returns the observation.
\<close>

theorem read_recovers_missing_companion:
  assumes "read_pha io filename = Inr onv"
    and "read_aeff io (path_join (parent filename) (arffile io onv)) = Inr a"
    and "read_edisp io (path_join (parent filename) (rmffile io onv)) = Inl IOError
         \<or> read_pha io (path_join (parent filename) (bkgfile io onv)) = Inl IOError"
    and "\<forall>e. read_edisp io (path_join (parent filename) (rmffile io onv)) = Inl e \<longrightarrow> e = IOError"
    and "\<forall>e. read_pha io (path_join (parent filename) (bkgfile io onv)) = Inl e \<longrightarrow> e = IOError"
  shows "\<exists>ob. read io filename = Inr ob \<and> on_vector ob = onv \<and> aeff ob = a
           \<and> (read_edisp io (path_join (parent filename) (rmffile io onv)) = Inl IOError
                \<longrightarrow> edisp ob = None)
           \<and> (read_pha io (path_join (parent filename) (bkgfile io onv)) = Inl IOError
                \<longrightarrow> off_vector ob = None)"
proof -
  let ?rmf = "read_edisp io (path_join (parent filename) (rmffile io onv))"
  let ?bkg = "read_pha io (path_join (parent filename) (bkgfile io onv))"
  obtain d where d: "except_IOError ?rmf = Inr d" "?rmf = Inl IOError \<longrightarrow> d = None"
    using assms(4) by (cases ?rmf) auto
  obtain s where s: "except_IOError ?bkg = Inr s" "?bkg = Inl IOError \<longrightarrow> s = None"
    using assms(5) by (cases ?bkg) auto
  have "read io filename = Inr (SpectrumObservation onv a s d)"
    using assms(1,2) d(1) s(1) by (simp add: read_def)
  then show ?thesis
    using d(2) s(2) by (simp add: SpectrumObservation_def)
qed

theorem read_recovers_missing_companion_witness:
  "read_pha no_companions ''d/pha.fits'' = Inr on_spectrum
   \<and> read no_companions ''d/pha.fits'' = Inr (SpectrumObservation on_spectrum worked_aeff None None)
   \<and> (\<exists>ob. read no_companions ''d/pha.fits'' = Inr ob \<and> on_vector ob = on_spectrum
         \<and> aeff ob = worked_aeff \<and> edisp ob = None \<and> off_vector ob = None)"
proof -
  have 1: "read_pha no_companions ''d/pha.fits'' = Inr on_spectrum"
    by (simp add: read_eval)
  have 2: "read_aeff no_companions (path_join (parent ''d/pha.fits'') (arffile no_companions on_spectrum))
      = Inr worked_aeff"
    by (simp add: read_eval)
  have 3: "read_edisp no_companions (path_join (parent ''d/pha.fits'') (rmffile no_companions on_spectrum))
      = Inl IOError"
    by (simp add: read_eval)
  have 4: "read_pha no_companions (path_join (parent ''d/pha.fits'') (bkgfile no_companions on_spectrum))
      = Inl IOError"
    by (simp add: read_eval)
  have "read no_companions ''d/pha.fits'' = Inr (SpectrumObservation on_spectrum worked_aeff None None)"
    by (simp add: read_eval)
  with read_recovers_missing_companion [OF 1 2, simplified 3 4] 1 3 4 show ?thesis
    by simp
qed

section \<open>Statistics of a range of bins\<close>

lemma py_index_nonneg:
  "0 \<le> i \<Longrightarrow> py_index xs i = Inr v \<longleftrightarrow> nat i < length xs \<and> v = xs ! nat i"
  by (auto simp: py_index_def)

lemma py_int_eq_Inr: "py_int v = Inr n \<longleftrightarrow> (\<exists>x. v = Fin x \<and> n = truncate_real x)"
  by (cases v) (auto simp: py_int_def)

lemma stats_counts:
  assumes "stats ob i = Inr s" and "0 \<le> i"
  shows "\<exists>c d offv. data (on_vector ob) ! nat i = Fin c \<and> n_on s = truncate_real c
           \<and> off_vector ob = Some offv \<and> data offv ! nat i = Fin d \<and> n_off s = truncate_real d"
  using assms
  by (fastforce simp: stats_def ebind_eq_Inr py_index_nonneg py_int_eq_Inr)

lemma stats_list_counts:
  assumes "stats_list ob idx = Inr ss" and "\<forall>i \<in> set idx. 0 \<le> i"
  shows "\<exists>cs ds. map (\<lambda>i. data (on_vector ob) ! nat i) idx = map Fin cs
           \<and> map n_on ss = map truncate_real cs
           \<and> map (\<lambda>i. map_option (\<lambda>v. data v ! nat i) (off_vector ob)) idx = map (\<lambda>d. Some (Fin d)) ds
           \<and> map n_off ss = map truncate_real ds"
  using assms
proof (induction idx arbitrary: ss)
  case Nil
  then show ?case by simp
next
  case (Cons i idx)
  from Cons.prems(1) obtain s ss' where s: "stats ob i = Inr s"
    and ss': "stats_list ob idx = Inr ss'" and ss: "ss = s # ss'"
    by (auto simp: ebind_eq_Inr)
  from Cons.IH [OF ss'] Cons.prems(2) obtain cs ds where
    ih: "map (\<lambda>i. data (on_vector ob) ! nat i) idx = map Fin cs"
      "map n_on ss' = map truncate_real cs"
      "map (\<lambda>i. map_option (\<lambda>v. data v ! nat i) (off_vector ob)) idx = map (\<lambda>d. Some (Fin d)) ds"
      "map n_off ss' = map truncate_real ds"
    by auto
  from stats_counts [OF s] Cons.prems(2) obtain c d offv where
    c: "data (on_vector ob) ! nat i = Fin c" "n_on s = truncate_real c"
      "off_vector ob = Some offv" "data offv ! nat i = Fin d" "n_off s = truncate_real d"
    by auto
  have "map (\<lambda>i. data (on_vector ob) ! nat i) (i # idx) = map Fin (c # cs)"
    "map n_on ss = map truncate_real (c # cs)"
    "map (\<lambda>i. map_option (\<lambda>v. data v ! nat i) (off_vector ob)) (i # idx) = map (\<lambda>d. Some (Fin d)) (d # ds)"
    "map n_off ss = map truncate_real (d # ds)"
    using ih c ss by simp_all
  then show ?case by blast
qed

text \<open>
  C10.  The statistics of the range \<open>(bin_min, bin_max)\<close> sum the counts of the bins
  \<open>bin_min\<close> to \<open>bin_max - 1\<close>, while the energy range reported goes from the edge
  \<open>bin_min\<close> to the edge \<open>bin_max + 1\<close>, the upper edge of bin \<open>bin_max\<close>.  \<open>total_stats\<close> is
  the range \<open>(0, nbins - 1)\<close>, so the counts of the last bin are not in it.
\<close>

theorem stats_in_range_excludes_bin_max:
  assumes "0 \<le> bin_min" and "bin_min < bin_max"
    and "stats_in_range scalings ob bin_min bin_max = Inr s"
  shows "\<exists>cs ds. map (\<lambda>i. data (on_vector ob) ! nat i) [bin_min .. bin_max - 1] = map Fin cs
           \<and> n_on s = sum_list (map truncate_real cs)
           \<and> map (\<lambda>i. map_option (\<lambda>v. data v ! nat i) (off_vector ob)) [bin_min .. bin_max - 1]
               = map (\<lambda>d. Some (Fin d)) ds
           \<and> n_off s = sum_list (map truncate_real ds)
           \<and> energy_min s = Some (e_reco ob ! nat bin_min)
           \<and> energy_max s = Some (e_reco ob ! nat (bin_max + 1))
           \<and> total_stats scalings ob = stats_in_range scalings ob 0 (obs_nbins ob - 1)"
proof -
  from assms(3) obtain ss emin emax where
    ss: "stats_list ob [bin_min .. bin_max - 1] = Inr ss"
    and emin: "py_index (e_reco ob) bin_min = Inr emin"
    and emax: "py_index (e_reco ob) (bin_max + 1) = Inr emax"
    and s: "s = (stack_stats scalings ss)\<lparr>stats_livetime := obs_livetime ob,
            stats_obs_id := obs_obs_id ob, energy_min := Some emin, energy_max := Some emax\<rparr>"
    by (auto simp: stats_in_range_def ebind_eq_Inr)
  have "\<forall>i \<in> set [bin_min .. bin_max - 1]. 0 \<le> i"
    using assms(1) by auto
  from stats_list_counts [OF ss this] obtain cs ds where
    c: "map (\<lambda>i. data (on_vector ob) ! nat i) [bin_min .. bin_max - 1] = map Fin cs"
      "map n_on ss = map truncate_real cs"
      "map (\<lambda>i. map_option (\<lambda>v. data v ! nat i) (off_vector ob)) [bin_min .. bin_max - 1]
         = map (\<lambda>d. Some (Fin d)) ds"
      "map n_off ss = map truncate_real ds"
    by blast
  have "n_on s = sum_list (map truncate_real cs)" "n_off s = sum_list (map truncate_real ds)"
    using s c(2,4) by (simp_all add: stack_stats_def)
  moreover have "energy_min s = Some (e_reco ob ! nat bin_min)"
    using s emin assms(1) by (simp add: py_index_nonneg)
  moreover have "energy_max s = Some (e_reco ob ! nat (bin_max + 1))"
    using s emax assms(1,2) by (simp add: py_index_nonneg)
  ultimately show ?thesis
    using c(1,3) by (auto simp: total_stats_def)
qed

lemma worked_total_stats:
  "total_stats scalings (worked_obs1 (1 / 10)) =
     Inr \<lparr>energy_min = Some 1, energy_max = Some 3, n_on = 10, n_off = 5,
          a_on = fst (scalings [\<lparr>energy_min = Some 1, energy_max = Some 2, n_on = 10, n_off = 5,
            a_on = Fin (1 / 10), a_off = Fin (1 / 10), stats_obs_id = ObsId 1,
            stats_livetime = Some (Fin 100)\<rparr>]),
          a_off = snd (scalings [\<lparr>energy_min = Some 1, energy_max = Some 2, n_on = 10, n_off = 5,
            a_on = Fin (1 / 10), a_off = Fin (1 / 10), stats_obs_id = ObsId 1,
            stats_livetime = Some (Fin 100)\<rparr>]),
          stats_obs_id = ObsId 1, stats_livetime = Some (Fin 100)\<rparr>"
  by (simp add: total_stats_def stats_in_range_def obs_nbins_def stats_def py_index_def
      py_int_def truncate_real_def stack_stats_def worked_eval stack_eval upto.simps)

theorem stats_in_range_excludes_bin_max_witness:
  "(0::int) \<le> 0 \<and> (0::int) < 1
   \<and> data (on_vector (worked_obs1 (1 / 10))) = [Fin 10, Fin 20]
   \<and> (\<exists>s. stats_in_range (\<lambda>ss. (Fin 1, Fin 1)) (worked_obs1 (1 / 10)) 0 1 = Inr s \<and> n_on s = 10
         \<and> energy_min s = Some 1 \<and> energy_max s = Some 3
         \<and> total_stats (\<lambda>ss. (Fin 1, Fin 1)) (worked_obs1 (1 / 10)) = Inr s)"
proof -
  let ?ob = "worked_obs1 (1 / 10)"
  have n: "obs_nbins ?ob - 1 = 1"
    by (simp add: obs_nbins_def worked_eval stack_eval)
  obtain s where s: "stats_in_range (\<lambda>ss. (Fin 1, Fin 1)) ?ob 0 1 = Inr s" "n_on s = 10"
    "energy_min s = Some 1" "energy_max s = Some 3" "total_stats (\<lambda>ss. (Fin 1, Fin 1)) ?ob = Inr s"
    using worked_total_stats [of "\<lambda>ss. (Fin 1, Fin 1)"] n by (simp add: total_stats_def)
  from stats_in_range_excludes_bin_max [of 0 1 "\<lambda>ss. (Fin 1, Fin 1)" ?ob s] s show ?thesis
    by (auto simp: worked_eval stack_eval)
qed

section \<open>Accumulation loops\<close>

lemma inplace2_same_length:
  "length ys = length xs \<Longrightarrow> inplace2 f xs ys = Inr (map2 f xs ys)"
  by (simp add: inplace2_def)

lemma broadcast2_same_length:
  "length ys = length xs \<Longrightarrow> broadcast2 f xs ys = Inr (map2 f xs ys)"
  by (simp add: broadcast2_def)

lemma accumulate_Nil [simp]: "accumulate f z [] = z"
  by (simp add: accumulate_def)

lemma accumulate_Cons [simp]: "accumulate f z (row # rows) = accumulate f (map2 f z row) rows"
  by (simp add: accumulate_def)

lemma length_accumulate:
  "\<forall>row \<in> set rows. length row = length z \<Longrightarrow> length (accumulate f z rows) = length z"
  by (induction rows arbitrary: z) simp_all

lemma accumulate_nth:
  "\<forall>row \<in> set rows. length row = length z \<Longrightarrow> k < length z \<Longrightarrow>
     accumulate f z rows ! k = foldl f (z ! k) (map (\<lambda>row. row ! k) rows)"
  by (induction rows arbitrary: z) simp_all

lemma accumulate_permute:
  assumes "\<And>a x y. f (f a x) y = f (f a y) x" and "mset rows = mset rows'"
  shows "accumulate f z rows = accumulate f z rows'"
proof -
  have c: "(\<lambda>acc. map2 f acc x) \<circ> (\<lambda>acc. map2 f acc y) = (\<lambda>acc. map2 f acc y) \<circ> (\<lambda>acc. map2 f acc x)"
    for x y :: "'b list"
  proof
    fix acc :: "'a list"
    show "((\<lambda>acc. map2 f acc x) \<circ> (\<lambda>acc. map2 f acc y)) acc
        = ((\<lambda>acc. map2 f acc y) \<circ> (\<lambda>acc. map2 f acc x)) acc"
      by (rule nth_equalityI) (simp_all add: assms(1) min.commute min.left_commute)
  qed
  have "fold (\<lambda>row acc. map2 f acc row) rows = fold (\<lambda>row acc. map2 f acc row) rows'"
    by (rule fold_multiset_equiv) (simp_all add: c assms(2))
  then show ?thesis
    by (simp add: accumulate_def foldl_conv_fold)
qed

lemma foldl_permute:
  assumes "\<And>a x y. f (f a x) y = f (f a y) x" and "mset xs = mset ys"
  shows "foldl f z xs = foldl f z ys"
proof -
  have "fold (\<lambda>x a. f a x) xs = fold (\<lambda>x a. f a x) ys"
    by (rule fold_multiset_equiv) (auto simp: assms)
  then show ?thesis
    by (simp add: foldl_conv_fold)
qed

section \<open>Counts\<close>

lemma length_counts_in_safe_range [simp]: "length (counts_in_safe_range s) = length (data s)"
  by (simp add: counts_in_safe_range_def)

lemma stack_counts_loop_eq:
  assumes "\<forall>s \<in> set specs. length (data s) = length sd \<and> length (quality s) = length sq"
  shows "stack_counts_loop rnd (map Some specs) sd sq
     = Inr (accumulate (fadd rnd) sd (map counts_in_safe_range specs),
            accumulate (\<or>) sq (map quality specs))"
  using assms
proof (induction specs arbitrary: sd sq)
  case Nil
  then show ?case by simp
next
  case (Cons s specs)
  then show ?case
    by (simp add: inplace2_same_length broadcast2_same_length)
qed

lemma stack_counts_spectrum_eq:
  assumes "specs \<noteq> []" and "\<forall>s \<in> set specs. pha_has_bins n s"
  shows "stack_counts_spectrum rnd (map Some specs)
     = Inr \<lparr>data = accumulate (fadd rnd) (replicate n (Fin 0)) (map counts_in_safe_range specs),
            energy = energy (hd specs),
            quality = accumulate (\<or>) (replicate n False) (map quality specs),
            backscal = None, livetime = None, obs_id = NoId,
            lo_threshold = None, hi_threshold = None\<rparr>"
proof -
  from assms obtain s0 rest where specs: "specs = s0 # rest"
    by (cases specs) auto
  have n: "nbins (energy s0) = int n"
    using assms(2) specs by (simp add: pha_has_bins_def nbins_def)
  have l: "\<forall>s \<in> set specs. length (data s) = length (replicate n (Fin 0))
      \<and> length (quality s) = length (replicate n False)"
    using assms(2) by (simp add: pha_has_bins_def)
  have rows: "\<forall>row \<in> set (map counts_in_safe_range specs). length row = length (replicate n (Fin 0))"
    using assms(2) by (simp add: pha_has_bins_def)
  have len: "length (accumulate (fadd rnd) (replicate n (Fin 0)) (map counts_in_safe_range specs)) = n"
    using length_accumulate [OF rows] by simp
  have "stack_counts_spectrum rnd (map Some specs)
     = ebind (stack_counts_loop rnd (map Some specs) (replicate n (Fin 0)) (replicate n False))
         (\<lambda>(sd, sq). PHACountsSpectrum sd (energy s0) sq)"
    by (simp add: stack_counts_spectrum_def first_def specs n np_zeros_def)
  also have "\<dots> = PHACountsSpectrum
      (accumulate (fadd rnd) (replicate n (Fin 0)) (map counts_in_safe_range specs))
      (energy s0) (accumulate (\<or>) (replicate n False) (map quality specs))"
    by (simp add: stack_counts_loop_eq [OF l])
  finally show ?thesis
    using len n by (simp add: PHACountsSpectrum_def specs)
qed
section \<open>Background scaling, livetime and effective area of well-shaped observations\<close>

lemma backscal_array_has_bins:
  assumes "pha_has_bins n s"
  obtains a where "backscal_array s = Inr a" and "length a = n"
  using assms
  by (auto simp: pha_has_bins_def backscal_array_def nbins_def split: option.splits backscal.splits)

lemma weighted_backscal_eq:
  assumes "pha_has_bins n s" and "pha_has_bins n offv"
  shows "ebind (backscal_array s) (\<lambda>a. broadcast2 (fmul rnd) a (counts_in_safe_range offv))
           = Inr (weighted_backscal rnd s offv)"
    and "length (weighted_backscal rnd s offv) = n"
proof -
  from assms(1) obtain a where a: "backscal_array s = Inr a" "length a = n"
    by (rule backscal_array_has_bins)
  have c: "length (counts_in_safe_range offv) = n"
    using assms(2) by (simp add: pha_has_bins_def)
  show "ebind (backscal_array s) (\<lambda>a. broadcast2 (fmul rnd) a (counts_in_safe_range offv))
           = Inr (weighted_backscal rnd s offv)"
    using a c by (simp add: broadcast2_same_length weighted_backscal_def)
  show "length (weighted_backscal rnd s offv) = n"
    using a c by (simp add: weighted_backscal_def)
qed

lemma backscal_loop_step:
  assumes "pha_has_bins n (on_vector ob)" and "off_vector ob = Some offv" and "pha_has_bins n offv"
    and "length bon = n" and "length boff = n"
  shows "backscal_loop rnd (ob # os) bon boff
     = backscal_loop rnd os (map2 (fadd rnd) bon (weighted_backscal rnd (on_vector ob) offv))
         (map2 (fadd rnd) boff (weighted_backscal rnd offv offv))"
proof -
  from assms(1) obtain a1 where a1: "backscal_array (on_vector ob) = Inr a1" "length a1 = n"
    by (rule backscal_array_has_bins)
  from assms(3) obtain a2 where a2: "backscal_array offv = Inr a2" "length a2 = n"
    by (rule backscal_array_has_bins)
  have c: "length (counts_in_safe_range offv) = n"
    using assms(3) by (simp add: pha_has_bins_def)
  have w1: "weighted_backscal rnd (on_vector ob) offv = map2 (fmul rnd) a1 (counts_in_safe_range offv)"
    by (simp add: weighted_backscal_def a1)
  have w2: "weighted_backscal rnd offv offv = map2 (fmul rnd) a2 (counts_in_safe_range offv)"
    by (simp add: weighted_backscal_def a2)
  show ?thesis
    using a1 a2 c assms(2,4,5)
    by (simp add: w1 w2 broadcast2_same_length inplace2_same_length)
qed

lemma backscal_loop_eq:
  assumes "\<forall>ob \<in> set os. pha_has_bins n (on_vector ob)
             \<and> (\<exists>offv. off_vector ob = Some offv \<and> pha_has_bins n offv)"
    and "length bon = n" and "length boff = n"
  shows "backscal_loop rnd os bon boff
     = Inr (accumulate (fadd rnd) bon
              (map (\<lambda>ob. weighted_backscal rnd (on_vector ob) (the (off_vector ob))) os),
            accumulate (fadd rnd) boff
              (map (\<lambda>ob. weighted_backscal rnd (the (off_vector ob)) (the (off_vector ob))) os))"
  using assms
proof (induction os arbitrary: bon boff)
  case Nil
  then show ?case by simp
next
  case (Cons ob os)
  from Cons.prems(1) obtain offv where offv: "off_vector ob = Some offv"
    and h: "pha_has_bins n (on_vector ob)" "pha_has_bins n offv"
    by auto
  have l: "length (map2 (fadd rnd) bon (weighted_backscal rnd (on_vector ob) offv)) = n"
    "length (map2 (fadd rnd) boff (weighted_backscal rnd offv offv)) = n"
    using Cons.prems(2,3) weighted_backscal_eq(2) [OF h] weighted_backscal_eq(2) [OF h(2) h(2)]
    by simp_all
  have r: "\<forall>ob \<in> set os. pha_has_bins n (on_vector ob)
             \<and> (\<exists>offv. off_vector ob = Some offv \<and> pha_has_bins n offv)"
    using Cons.prems(1) by simp
  show ?case
    unfolding backscal_loop_step [OF h(1) offv h(2) Cons.prems(2,3)] Cons.IH [OF r l]
    by (simp add: offv)
qed

lemma set_at_where_zero:
  assumes "length q = length d"
  shows "set_at q (where_zero d) alpha_correction = Inr (sentinel q d)"
proof -
  have "fold (\<lambda>i b. b[i := alpha_correction]) (where_zero d) q = sentinel q d"
  proof (rule nth_equalityI)
    show "length (fold (\<lambda>i b. b[i := alpha_correction]) (where_zero d) q) = length (sentinel q d)"
      using assms by (simp add: length_fold_update sentinel_def)
  next
    fix i assume "i < length (fold (\<lambda>i b. b[i := alpha_correction]) (where_zero d) q)"
    then have i: "i < length q" by (simp add: length_fold_update)
    then show "fold (\<lambda>i b. b[i := alpha_correction]) (where_zero d) q ! i = sentinel q d ! i"
      using assms by (simp add: fold_update_nth where_zero_member sentinel_def)
  qed
  moreover have "\<forall>i \<in> set (where_zero d). i < length q"
    using assms by (simp add: where_zero_member)
  ultimately show ?thesis
    by (simp add: set_at_def)
qed

lemma livetimes_present:
  "\<forall>ob \<in> set os. obs_livetime ob \<noteq> None \<Longrightarrow>
     livetimes os = Inr (map (\<lambda>ob. the (obs_livetime ob)) os)"
  by (rule livetimes_Inr_I) (simp add: comp_def)

lemma total_livetime_present:
  "\<forall>ob \<in> set os. obs_livetime ob \<noteq> None \<Longrightarrow> total_livetime rnd os = Inr (stacked_livetime rnd os)"
  by (simp add: total_livetime_def livetimes_present stacked_livetime_def)

lemma aefft_current_present:
  assumes "obs_livetime ob \<noteq> None"
  shows "aefft_current rnd ob = Inr (aefft_row rnd ob)"
    and "length (aefft_row rnd ob) = length (aeff_data (aeff ob))"
  using assms by (auto simp: aefft_current_def aefft_row_def evaluate_fill_nan_def)

lemma aeff_loop_eq:
  assumes "\<forall>ob \<in> set os. obs_livetime ob \<noteq> None \<and> length (aeff_data (aeff ob)) = length z"
  shows "aeff_loop rnd os z = Inr (accumulate (fadd rnd) z (map (aefft_row rnd) os))"
  using assms
proof (induction os arbitrary: z)
  case Nil
  then show ?case by simp
next
  case (Cons ob os)
  then show ?case
    by (simp add: aefft_current_present inplace2_same_length)
qed

section \<open>Energy dispersion of well-shaped observations\<close>

lemma dim_tabulate2 [simp]: "dim0 (tabulate2 r c f) = r" "dim1 (tabulate2 r c f) = c"
  by (simp_all add: tabulate2_def)

lemma at2_tabulate2 [simp]: "i < r \<Longrightarrow> j < c \<Longrightarrow> at2 (tabulate2 r c f) i j = f i j"
  by (simp add: tabulate2_def at2_def)

lemma tabulate2_cong:
  "(\<And>i j. i < r \<Longrightarrow> j < c \<Longrightarrow> f i j = g i j) \<Longrightarrow> tabulate2 r c f = tabulate2 r c g"
  by (simp add: tabulate2_def)


lemma edisp_loop_step:
  assumes "obs_livetime ob \<noteq> None" and "length (aeff_data (aeff ob)) = t"
    and "edisp ob = Some d" and "edisp_has_shape r t d" and "length aefft = t"
  shows "edisp_loop rnd (ob # os) aefft (tabulate2 r t g)
     = edisp_loop rnd os (map2 (fadd rnd) aefft (aefft_row rnd ob))
         (tabulate2 r t (\<lambda>k l. fadd rnd (g k l) (edisp_weight rnd ob k l)))"
proof -
  let ?P = "pdf_in_safe_range d (obs_lo_threshold ob) (obs_hi_threshold ob)"
  have cur: "aefft_current rnd ob = Inr (aefft_row rnd ob)" "length (aefft_row rnd ob) = t"
    using aefft_current_present [OF assms(1)] assms(2) by simp_all
  have dims: "dim0 ?P = t" "dim1 ?P = r"
    using assms(4) by (simp_all add: pdf_in_safe_range_def edisp_has_shape_def)
  let ?W = "tabulate2 r t (\<lambda>k l. fmul rnd (at2 (transpose2 ?P) k l) (aefft_row rnd ob ! l))"
  have w: "last_axis2 (fmul rnd) (transpose2 ?P) (aefft_row rnd ob) = Inr ?W"
    using dims cur(2) by (simp add: last_axis2_def transpose2_def)
  have "tabulate2 r t (\<lambda>k l. fadd rnd (at2 (tabulate2 r t g) k l) (at2 ?W k l))
      = tabulate2 r t (\<lambda>k l. fadd rnd (g k l) (edisp_weight rnd ob k l))"
    by (rule tabulate2_cong) (simp add: transpose2_def dims edisp_weight_def assms(3))
  then have acc: "inplace_array2 (fadd rnd) (tabulate2 r t g) ?W
      = Inr (tabulate2 r t (\<lambda>k l. fadd rnd (g k l) (edisp_weight rnd ob k l)))"
    by (simp add: inplace_array2_def)
  show ?thesis
    using assms(5) cur
    by (simp add: inplace2_same_length assms(3) w acc)
qed

lemma edisp_loop_eq:
  assumes "\<forall>ob \<in> set os. obs_livetime ob \<noteq> None \<and> length (aeff_data (aeff ob)) = t
             \<and> (\<exists>d. edisp ob = Some d \<and> edisp_has_shape r t d)"
    and "length aefft = t"
  shows "edisp_loop rnd os aefft (tabulate2 r t g)
     = Inr (accumulate (fadd rnd) aefft (map (aefft_row rnd) os),
            tabulate2 r t (\<lambda>k l. foldl (fadd rnd) (g k l) (map (\<lambda>ob. edisp_weight rnd ob k l) os)))"
  using assms
proof (induction os arbitrary: aefft g)
  case Nil
  then show ?case by simp
next
  case (Cons ob os)
  from Cons.prems(1) obtain d where d: "edisp ob = Some d" "edisp_has_shape r t d"
    and h: "obs_livetime ob \<noteq> None" "length (aeff_data (aeff ob)) = t"
    by auto
  have r: "\<forall>ob \<in> set os. obs_livetime ob \<noteq> None \<and> length (aeff_data (aeff ob)) = t
             \<and> (\<exists>d. edisp ob = Some d \<and> edisp_has_shape r t d)"
    using Cons.prems(1) by simp
  have l: "length (map2 (fadd rnd) aefft (aefft_row rnd ob)) = t"
    using Cons.prems(2) aefft_current_present(2) [OF h(1)] h(2) by simp
  show ?case
    unfolding edisp_loop_step [OF h d Cons.prems(2)] Cons.IH [OF r l]
    by simp
qed

section \<open>The stacker on well-shaped observations\<close>

lemma obs_has_shape_D:
  assumes "obs_has_shape r t ob"
  shows "pha_has_bins r (on_vector ob)"
    and "\<exists>offv. off_vector ob = Some offv \<and> pha_has_bins r offv"
    and "length (aeff_energy (aeff ob)) = t + 1" and "length (aeff_data (aeff ob)) = t"
    and "obs_livetime ob \<noteq> None"
    and "\<exists>d. edisp ob = Some d \<and> edisp_has_shape r t d"
  using assms by (auto simp: obs_has_shape_def split: option.splits)

lemma off_vector_present:
  assumes "obs_has_shape r t ob"
  obtains offv where "off_vector ob = Some offv" and "pha_has_bins r offv"
  using obs_has_shape_D(2) [OF assms] by blast

lemma off_vectors_present:
  "\<forall>ob \<in> set os. obs_has_shape r t ob \<Longrightarrow> map off_vector os = map Some (off_vectors os)"
proof (induction os)
  case Nil
  then show ?case by (simp add: off_vectors_def)
next
  case (Cons ob os)
  from Cons.prems obtain offv where "off_vector ob = Some offv"
    by (auto elim: off_vector_present)
  with Cons show ?case by (simp add: off_vectors_def)
qed

lemma off_vectors_have_bins:
  assumes "\<forall>ob \<in> set os. obs_has_shape r t ob"
  shows "\<forall>s \<in> set (off_vectors os). pha_has_bins r s"
proof
  fix s assume "s \<in> set (off_vectors os)"
  then obtain ob where ob: "ob \<in> set os" "s = the (off_vector ob)"
    by (auto simp: off_vectors_def)
  with assms obtain offv where "off_vector ob = Some offv" "pha_has_bins r offv"
    by (auto elim: off_vector_present)
  with ob show "pha_has_bins r s" by simp
qed

lemma on_vectors_have_bins:
  "\<forall>ob \<in> set os. obs_has_shape r t ob \<Longrightarrow> \<forall>s \<in> set (map on_vector os). pha_has_bins r s"
  using obs_has_shape_D(1) by auto

lemma length_stacked_counts:
  assumes "\<forall>s \<in> set specs. pha_has_bins n s"
  shows "length (stacked_counts rnd n specs) = n"
proof -
  have "\<forall>row \<in> set (map counts_in_safe_range specs). length row = length (replicate n (Fin 0))"
    using assms by (simp add: pha_has_bins_def)
  from length_accumulate [OF this] show ?thesis
    by (simp add: stacked_counts_def)
qed

lemma length_aefft_row:
  "obs_has_shape r t ob \<Longrightarrow> length (aefft_row rnd ob) = t"
  using aefft_current_present(2) [of ob rnd] obs_has_shape_D(4,5) [of r t ob] by simp

lemma length_stacked_aefft:
  assumes "\<forall>ob \<in> set os. obs_has_shape r t ob"
  shows "length (stacked_aefft rnd t os) = t"
proof -
  have "\<forall>row \<in> set (map (aefft_row rnd) os). length row = length (replicate t (Fin 0))"
    using assms by (auto simp: length_aefft_row [of r t])
  from length_accumulate [OF this] show ?thesis
    by (simp add: stacked_aefft_def)
qed

lemma obs_has_shape_counts: "obs_has_shape r t ob \<Longrightarrow> counts_have_bins r ob"
  by (simp add: obs_has_shape_def counts_have_bins_def)

lemma counts_off_vectors_present:
  "\<forall>ob \<in> set os. counts_have_bins r ob \<Longrightarrow> map off_vector os = map Some (off_vectors os)"
  by (induction os) (auto simp: off_vectors_def counts_have_bins_def split: option.splits)

lemma counts_off_vectors_have_bins:
  "\<forall>ob \<in> set os. counts_have_bins r ob \<Longrightarrow> \<forall>s \<in> set (off_vectors os). pha_has_bins r s"
  by (auto simp: off_vectors_def counts_have_bins_def split: option.splits)

lemma counts_on_vectors_have_bins:
  "\<forall>ob \<in> set os. counts_have_bins r ob \<Longrightarrow> \<forall>s \<in> set (map on_vector os). pha_has_bins r s"
  by (auto simp: counts_have_bins_def)

lemma stack_backscal_counts:
  assumes "obs_list st = os" and "os \<noteq> []" and "\<forall>ob \<in> set os. counts_have_bins r ob"
    and "stacked_off_vector st = Some soff"
    and "data soff = stacked_counts rnd r (off_vectors os)"
  shows "stack_backscal rnd st
     = Inr (st\<lparr>stacked_bkscal_on := Some (stacked_backscal_on rnd r os),
               stacked_bkscal_off := Some (stacked_backscal_off rnd r os)\<rparr>)"
proof -
  from assms(2) obtain ob0 rest where os: "os = ob0 # rest"
    by (cases os) auto
  have n: "nbins (e_reco ob0) = int r"
    using assms(3) os by (simp add: counts_have_bins_def pha_has_bins_def nbins_def e_reco_def)
  have sh: "\<forall>ob \<in> set os. pha_has_bins r (on_vector ob)
             \<and> (\<exists>offv. off_vector ob = Some offv \<and> pha_has_bins r offv)"
    using assms(3) by (auto simp: counts_have_bins_def split: option.splits)
  let ?on = "accumulate (fadd rnd) (replicate r (Fin 0))
      (map (\<lambda>ob. weighted_backscal rnd (on_vector ob) (the (off_vector ob))) os)"
  let ?off = "accumulate (fadd rnd) (replicate r (Fin 0))
      (map (\<lambda>ob. weighted_backscal rnd (the (off_vector ob)) (the (off_vector ob))) os)"
  have loop: "backscal_loop rnd os (replicate r (Fin 0)) (replicate r (Fin 0)) = Inr (?on, ?off)"
    by (rule backscal_loop_eq [OF sh]) simp_all
  have rows: "length (weighted_backscal rnd (on_vector ob) (the (off_vector ob))) = r
      \<and> length (weighted_backscal rnd (the (off_vector ob)) (the (off_vector ob))) = r"
    if "ob \<in> set os" for ob
  proof -
    from sh that obtain offv where "off_vector ob = Some offv" "pha_has_bins r offv"
      "pha_has_bins r (on_vector ob)"
      by blast
    then show ?thesis
      using weighted_backscal_eq(2) by simp
  qed
  have lon: "length ?on = r"
    using length_accumulate [of "map (\<lambda>ob. weighted_backscal rnd (on_vector ob) (the (off_vector ob))) os"
        "replicate r (Fin 0)" "fadd rnd"] rows
    by simp
  have loff: "length ?off = r"
    using length_accumulate [of "map (\<lambda>ob. weighted_backscal rnd (the (off_vector ob)) (the (off_vector ob))) os"
        "replicate r (Fin 0)" "fadd rnd"] rows
    by simp
  have ld: "length (data soff) = r"
    using assms(5) length_stacked_counts [OF counts_off_vectors_have_bins [OF assms(3)]] by simp
  have d1: "broadcast2 (fdiv rnd) ?on (data soff) = Inr (map2 (fdiv rnd) ?on (data soff))"
    "broadcast2 (fdiv rnd) ?off (data soff) = Inr (map2 (fdiv rnd) ?off (data soff))"
    using lon loff ld by (simp_all add: broadcast2_same_length)
  have s1: "set_at (map2 (fdiv rnd) ?on (data soff)) (where_zero (data soff)) alpha_correction
      = Inr (sentinel (map2 (fdiv rnd) ?on (data soff)) (data soff))"
    "set_at (map2 (fdiv rnd) ?off (data soff)) (where_zero (data soff)) alpha_correction
      = Inr (sentinel (map2 (fdiv rnd) ?off (data soff)) (data soff))"
    using lon loff ld by (simp_all add: set_at_where_zero)
  have f: "first (obs_list st) = Inr ob0"
    by (simp add: first_def assms(1) os)
  have loop': "backscal_loop rnd (obs_list st) (replicate r (Fin 0)) (replicate r (Fin 0))
      = Inr (?on, ?off)"
    using loop assms(1) by simp
  have "stack_backscal rnd st
     = Inr (st\<lparr>stacked_bkscal_on := Some (sentinel (map2 (fdiv rnd) ?on (data soff)) (data soff)),
               stacked_bkscal_off := Some (sentinel (map2 (fdiv rnd) ?off (data soff)) (data soff))\<rparr>)"
    by (simp add: stack_backscal_def f n np_zeros_def loop' assms(4) d1 s1)
  then show ?thesis
    by (simp add: stacked_backscal_on_def stacked_backscal_off_def assms(5))
qed

lemma stack_backscal_eq:
  assumes "obs_list st = os" and "os \<noteq> []" and "\<forall>ob \<in> set os. obs_has_shape r t ob"
    and "stacked_off_vector st = Some soff"
    and "data soff = stacked_counts rnd r (off_vectors os)"
  shows "stack_backscal rnd st
     = Inr (st\<lparr>stacked_bkscal_on := Some (stacked_backscal_on rnd r os),
               stacked_bkscal_off := Some (stacked_backscal_off rnd r os)\<rparr>)"
proof -
  have "\<forall>ob \<in> set os. counts_have_bins r ob"
    using assms(3) obs_has_shape_counts by blast
  then show ?thesis
    by (rule stack_backscal_counts [OF assms(1,2) _ assms(4,5)])
qed

text \<open>
  C3.  On every list that is not empty of observations whose two vectors have \<open>r\<close> bins,
  whatever their responses, the counts stages up to \<open>stack_backscal\<close> return: the division
  by the stacked off counts raises nothing where they are zero.  After \<open>stack_backscal\<close>
  the two stacked background scalings are the sentinel \<open>-1\<close> in every bin whose stacked
  off counts are exactly zero; and when every observation has a livetime,
  \<open>stack_counts_vectors\<close> returns too and the stacked vectors carry these arrays.
\<close>

theorem backscal_sentinel:
  assumes "os \<noteq> []" and "\<forall>ob \<in> set os. counts_have_bins r ob"
  shows "\<exists>st1 st2 st3 soff bon boff.
           stack_on_vector rnd (SpectrumObservationStacker os) = Inr st1
           \<and> stack_off_vector rnd st1 = Inr st2 \<and> stack_backscal rnd st2 = Inr st3
           \<and> stacked_off_vector st3 = Some soff
           \<and> data soff = stacked_counts rnd r (off_vectors os)
           \<and> stacked_bkscal_on st3 = Some bon \<and> stacked_bkscal_off st3 = Some boff
           \<and> (\<forall>k<r. data soff ! k = Fin 0 \<longrightarrow> bon ! k = Fin (- 1) \<and> boff ! k = Fin (- 1))
           \<and> ((\<forall>ob \<in> set os. obs_livetime ob \<noteq> None) \<longrightarrow>
                (\<exists>st4 onv offv.
                   stack_counts_vectors rnd (SpectrumObservationStacker os) = Inr st4
                   \<and> stacked_on_vector st4 = Some onv \<and> stacked_off_vector st4 = Some offv
                   \<and> data offv = data soff
                   \<and> backscal onv = Some (PerBin bon) \<and> backscal offv = Some (PerBin boff)))"
proof -
  let ?st0 = "SpectrumObservationStacker os"
  have ol: "obs_list ?st0 = os"
    by (simp add: SpectrumObservationStacker_def)
  let ?bare = "\<lambda>specs. \<lparr>data = stacked_counts rnd r specs, energy = energy (hd specs),
      quality = stacked_quality r specs, backscal = None, livetime = None, obs_id = NoId,
      lo_threshold = None, hi_threshold = None\<rparr>"
  let ?son = "?bare (map on_vector os)"
  let ?soff = "?bare (off_vectors os)"
  have on: "stack_counts_spectrum rnd (map (\<lambda>ob. Some (on_vector ob)) os) = Inr ?son"
    using stack_counts_spectrum_eq [of "map on_vector os" r rnd] assms(1)
      counts_on_vectors_have_bins [OF assms(2)]
    by (simp add: stacked_counts_def stacked_quality_def comp_def)
  have offne: "off_vectors os \<noteq> []"
    using assms(1) by (simp add: off_vectors_def)
  have off: "stack_counts_spectrum rnd (map off_vector os) = Inr ?soff"
    using stack_counts_spectrum_eq [OF offne counts_off_vectors_have_bins [OF assms(2)], of rnd]
    by (simp add: counts_off_vectors_present [OF assms(2)] stacked_counts_def stacked_quality_def)
  let ?st1 = "?st0\<lparr>stacked_on_vector := Some ?son\<rparr>"
  let ?st2 = "?st1\<lparr>stacked_off_vector := Some ?soff\<rparr>"
  let ?bon = "stacked_backscal_on rnd r os"
  let ?boff = "stacked_backscal_off rnd r os"
  let ?st3 = "?st2\<lparr>stacked_bkscal_on := Some ?bon, stacked_bkscal_off := Some ?boff\<rparr>"
  have s1: "stack_on_vector rnd ?st0 = Inr ?st1"
    by (simp add: stack_on_vector_def ol on)
  have s2: "stack_off_vector rnd ?st1 = Inr ?st2"
    by (simp add: stack_off_vector_def ol off)
  have ol2: "obs_list ?st2 = os"
    by (simp add: ol)
  have s3: "stack_backscal rnd ?st2 = Inr ?st3"
    by (rule stack_backscal_counts [OF ol2 assms, where soff = ?soff]) simp_all
  have so: "stacked_off_vector ?st3 = Some ?soff" "data ?soff = stacked_counts rnd r (off_vectors os)"
    and sb: "stacked_bkscal_on ?st3 = Some ?bon" "stacked_bkscal_off ?st3 = Some ?boff"
    by simp_all
  have len: "length (data ?soff) = r"
    using length_stacked_counts [OF counts_off_vectors_have_bins [OF assms(2)], of rnd] by simp
  from stack_backscal_result [OF s3] obtain son1 soff1 son2 soff2 where
    on2: "set_at son1 (where_zero (data ?soff)) alpha_correction = Inr son2"
    and off2: "set_at soff1 (where_zero (data ?soff)) alpha_correction = Inr soff2"
    and e: "?st3 = ?st2\<lparr>stacked_bkscal_on := Some son2, stacked_bkscal_off := Some soff2\<rparr>"
    by auto
  from arg_cong [OF e, of stacked_bkscal_on] arg_cong [OF e, of stacked_bkscal_off]
  have eq: "son2 = ?bon" "soff2 = ?boff"
    by simp_all
  have zero: "?bon ! k = Fin (- 1) \<and> ?boff ! k = Fin (- 1)"
    if "k < r" "data ?soff ! k = Fin 0" for k
  proof -
    have "k \<in> set (where_zero (data ?soff))"
      using that len by (simp only: where_zero_member)
    then show ?thesis
      using set_at_member [OF on2] set_at_member [OF off2] eq
      by (simp add: alpha_correction_def)
  qed
  have full: "\<exists>st4 onv offv. stack_counts_vectors rnd ?st0 = Inr st4
      \<and> stacked_on_vector st4 = Some onv \<and> stacked_off_vector st4 = Some offv
      \<and> data offv = data ?soff
      \<and> backscal onv = Some (PerBin ?bon) \<and> backscal offv = Some (PerBin ?boff)"
    if "\<forall>ob \<in> set os. obs_livetime ob \<noteq> None"
  proof -
    let ?onv = "?son\<lparr>livetime := Some (stacked_livetime rnd os), backscal := Some (PerBin ?bon),
        obs_id := list_obs_id os\<rparr>"
    let ?offv = "?soff\<lparr>livetime := Some (stacked_livetime rnd os),
        backscal := Some (PerBin ?boff), obs_id := list_obs_id os\<rparr>"
    let ?st4 = "?st3\<lparr>stacked_on_vector := Some ?onv, stacked_off_vector := Some ?offv\<rparr>"
    have lt: "total_livetime rnd os = Inr (stacked_livetime rnd os)"
      by (rule total_livetime_present [OF that])
    have s4: "setup_counts_vectors rnd ?st3 = Inr ?st4"
      by (simp add: setup_counts_vectors_def ol lt)
    have c: "stack_counts_vectors rnd ?st0 = Inr ?st4"
      unfolding stack_counts_vectors_def s1 ebind_Inr s2 s3 s4 ..
    have "stacked_on_vector ?st4 = Some ?onv" "stacked_off_vector ?st4 = Some ?offv"
      "data ?offv = data ?soff" "backscal ?onv = Some (PerBin ?bon)"
      "backscal ?offv = Some (PerBin ?boff)"
      by simp_all
    with c show ?thesis
      by blast
  qed
  show ?thesis
    using s1 s2 s3 so sb zero full by blast
qed

theorem backscal_sentinel_witness:
  "[zero_off_obs\<lparr>edisp := None\<rparr>] \<noteq> []
   \<and> counts_have_bins 2 (zero_off_obs\<lparr>edisp := None\<rparr>)
   \<and> edisp (zero_off_obs\<lparr>edisp := None\<rparr>) = None
   \<and> (\<exists>st1 st2 st3 soff bon boff.
         stack_on_vector round64 (SpectrumObservationStacker [zero_off_obs\<lparr>edisp := None\<rparr>])
           = Inr st1
         \<and> stack_off_vector round64 st1 = Inr st2 \<and> stack_backscal round64 st2 = Inr st3
         \<and> stacked_off_vector st3 = Some soff \<and> data soff = [Fin 0, Fin 5]
         \<and> stacked_bkscal_on st3 = Some bon \<and> stacked_bkscal_off st3 = Some boff
         \<and> bon ! 0 = Fin (- 1) \<and> boff ! 0 = Fin (- 1))"
proof -
  let ?Z = "zero_off_obs\<lparr>edisp := None\<rparr>"
  have 1: "[?Z] \<noteq> []"
    by simp
  have 2: "counts_have_bins 2 ?Z"
    by (simp add: counts_have_bins_def pha_has_bins_def zero_off_obs_def SpectrumObservation_def
        worked_spectrum_def worked_grid_def)
  then have 3: "\<forall>ob \<in> set [?Z]. counts_have_bins 2 ob"
    by simp
  have 4: "edisp ?Z = None"
    by simp
  have 5: "stacked_counts round64 2 (off_vectors [?Z]) = [Fin 0, Fin 5]"
    by (simp add: stacked_counts_def off_vectors_def zero_off_obs_def SpectrumObservation_def
        worked_spectrum_def worked_grid_def counts_in_safe_range_def bin_is_safe_def
        flagged_def in_thresholds_def numeral_2_eq_2 round64_eval)
  from backscal_sentinel [OF 1 3, of round64] obtain st1 st2 st3 soff bon boff where
    f: "stack_on_vector round64 (SpectrumObservationStacker [?Z]) = Inr st1"
      "stack_off_vector round64 st1 = Inr st2" "stack_backscal round64 st2 = Inr st3"
      "stacked_off_vector st3 = Some soff"
      "data soff = stacked_counts round64 2 (off_vectors [?Z])"
      "stacked_bkscal_on st3 = Some bon" "stacked_bkscal_off st3 = Some boff"
      "\<forall>k<2. data soff ! k = Fin 0 \<longrightarrow> bon ! k = Fin (- 1) \<and> boff ! k = Fin (- 1)"
    by blast
  have d: "data soff = [Fin 0, Fin 5]"
    using f(5) 5 by simp
  have "bon ! 0 = Fin (- 1) \<and> boff ! 0 = Fin (- 1)"
    using f(8) [rule_format, of 0] d by simp
  with f d
  have "\<exists>st1 st2 st3 soff bon boff.
         stack_on_vector round64 (SpectrumObservationStacker [?Z]) = Inr st1
         \<and> stack_off_vector round64 st1 = Inr st2 \<and> stack_backscal round64 st2 = Inr st3
         \<and> stacked_off_vector st3 = Some soff \<and> data soff = [Fin 0, Fin 5]
         \<and> stacked_bkscal_on st3 = Some bon \<and> stacked_bkscal_off st3 = Some boff
         \<and> bon ! 0 = Fin (- 1) \<and> boff ! 0 = Fin (- 1)"
    by blast
  with 1 2 4 show ?thesis
    by blast
qed

lemma stack_aeff_eq:
  assumes "obs_list st = os" and "os \<noteq> []" and "\<forall>ob \<in> set os. obs_has_shape r t ob"
  shows "stack_aeff rnd st
     = Inr (st\<lparr>stacked_aeff := Some \<lparr>aeff_energy = e_true (hd os),
                                      aeff_data = stacked_aeff_data rnd t os\<rparr>\<rparr>)"
proof -
  from assms(2) obtain ob0 rest where os: "os = ob0 # rest"
    by (cases os) auto
  have f: "first (obs_list st) = Inr ob0"
    by (simp add: first_def assms(1) os)
  have h: "hd os = ob0"
    by (simp add: os)
  have n: "nbins (e_true ob0) = int t"
    using assms(3) os obs_has_shape_D(3) [of r t ob0] by (simp add: nbins_def e_true_def)
  have sh: "\<forall>ob \<in> set os. obs_livetime ob \<noteq> None
      \<and> length (aeff_data (aeff ob)) = length (replicate t (Fin 0))"
    using assms(3) obs_has_shape_D(4,5) by auto
  have loop: "aeff_loop rnd (obs_list st) (replicate t (Fin 0)) = Inr (stacked_aefft rnd t os)"
    using aeff_loop_eq [OF sh] assms(1) by (simp add: stacked_aefft_def)
  have lt: "total_livetime rnd (obs_list st) = Inr (stacked_livetime rnd os)"
    using total_livetime_present [of os rnd] sh assms(1) by simp
  show ?thesis
    by (simp add: stack_aeff_def f n np_zeros_def loop lt stacked_aeff_data_def h)
qed

lemma stack_edisp_eq:
  assumes "obs_list st = os" and "os \<noteq> []" and "\<forall>ob \<in> set os. obs_has_shape r t ob"
  shows "stack_edisp rnd st
     = Inr (st\<lparr>stacked_edisp := Some \<lparr>edisp_e_true = e_true (hd os), edisp_e_reco = e_reco (hd os),
                                       edisp_data = stacked_edisp_data rnd r t os\<rparr>\<rparr>)"
proof -
  from assms(2) obtain ob0 rest where os: "os = ob0 # rest"
    by (cases os) auto
  have f: "first (obs_list st) = Inr ob0"
    by (simp add: first_def assms(1) os)
  have h: "hd os = ob0"
    by (simp add: os)
  have nt: "nbins (e_true ob0) = int t"
    using assms(3) os obs_has_shape_D(3) [of r t ob0] by (simp add: nbins_def e_true_def)
  have nr: "nbins (e_reco ob0) = int r"
    using assms(3) os obs_has_shape_D(1) [of r t ob0]
    by (simp add: pha_has_bins_def nbins_def e_reco_def)
  have sh: "\<forall>ob \<in> set os. obs_livetime ob \<noteq> None \<and> length (aeff_data (aeff ob)) = t
             \<and> (\<exists>d. edisp ob = Some d \<and> edisp_has_shape r t d)"
    using assms(3) obs_has_shape_D(4,5,6) by blast
  let ?S = "\<lambda>k l. foldl (fadd rnd) (Fin 0) (map (\<lambda>ob. edisp_weight rnd ob k l) os)"
  have loop: "edisp_loop rnd (obs_list st) (replicate t (Fin 0)) (tabulate2 r t (\<lambda>i j. Fin 0))
      = Inr (stacked_aefft rnd t os, tabulate2 r t ?S)"
    using edisp_loop_eq [OF sh, of "replicate t (Fin 0)" rnd "\<lambda>i j. Fin 0"] assms(1)
    by (simp add: stacked_aefft_def)
  have la: "length (stacked_aefft rnd t os) = t"
    by (rule length_stacked_aefft [OF assms(3)])
  let ?Q = "tabulate2 r t (\<lambda>k l. fdiv rnd (at2 (tabulate2 r t ?S) k l) (stacked_aefft rnd t os ! l))"
  have q: "last_axis2 (fdiv rnd) (tabulate2 r t ?S) (stacked_aefft rnd t os) = Inr ?Q"
    using la by (simp add: last_axis2_def)
  have "transpose2 (map_array2 nan_to_num ?Q) = stacked_edisp_data rnd r t os"
    unfolding transpose2_def map_array2_def stacked_edisp_data_def dim_tabulate2
    by (rule tabulate2_cong) simp
  then show ?thesis
    by (simp add: stack_edisp_def f nt nr np_zeros_def zeros2_def loop q h)
qed

text \<open>
  On a list that is not empty of observations of one shape the stacker returns, and what
  it returns is the stacked observation of the formulas.
\<close>

lemma stack_eq:
  assumes "os \<noteq> []" and "\<forall>ob \<in> set os. obs_has_shape r t ob"
  shows "stack rnd os = Inr (stacked_observation rnd r t os)"
proof -
  let ?st0 = "SpectrumObservationStacker os"
  have ol: "obs_list ?st0 = os"
    by (simp add: SpectrumObservationStacker_def)
  let ?bare = "\<lambda>specs. \<lparr>data = stacked_counts rnd r specs, energy = energy (hd specs),
      quality = stacked_quality r specs, backscal = None, livetime = None, obs_id = NoId,
      lo_threshold = None, hi_threshold = None\<rparr>"
  have on: "stack_counts_spectrum rnd (map (\<lambda>ob. Some (on_vector ob)) os)
      = Inr (?bare (map on_vector os))"
    using stack_counts_spectrum_eq [of "map on_vector os" r rnd] assms
      on_vectors_have_bins [OF assms(2)]
    by (simp add: stacked_counts_def stacked_quality_def comp_def)
  have offne: "off_vectors os \<noteq> []"
    using assms(1) by (simp add: off_vectors_def)
  have off: "stack_counts_spectrum rnd (map off_vector os) = Inr (?bare (off_vectors os))"
    using stack_counts_spectrum_eq [OF offne off_vectors_have_bins [OF assms(2)], of rnd]
    by (simp add: off_vectors_present [OF assms(2)] stacked_counts_def stacked_quality_def)
  let ?st1 = "?st0\<lparr>stacked_on_vector := Some (?bare (map on_vector os))\<rparr>"
  let ?st2 = "?st1\<lparr>stacked_off_vector := Some (?bare (off_vectors os))\<rparr>"
  have s1: "stack_on_vector rnd ?st0 = Inr ?st1"
    by (simp add: stack_on_vector_def ol on)
  have s2: "stack_off_vector rnd ?st1 = Inr ?st2"
    by (simp add: stack_off_vector_def ol off)
  have ol2: "obs_list ?st2 = os"
    by (simp add: ol)
  let ?st3 = "?st2\<lparr>stacked_bkscal_on := Some (stacked_backscal_on rnd r os),
      stacked_bkscal_off := Some (stacked_backscal_off rnd r os)\<rparr>"
  have s3: "stack_backscal rnd ?st2 = Inr ?st3"
    by (rule stack_backscal_eq [OF ol2 assms, where soff = "?bare (off_vectors os)"]) simp_all
  have lt: "total_livetime rnd os = Inr (stacked_livetime rnd os)"
    using total_livetime_present [of os rnd] assms(2) obs_has_shape_D(5) by blast
  let ?on = "stacked_vector (stacked_counts rnd r (map on_vector os)) (e_reco (hd os))
      (stacked_quality r (map on_vector os)) (stacked_backscal_on rnd r os)
      (stacked_livetime rnd os) (list_obs_id os)"
  let ?off = "stacked_vector (stacked_counts rnd r (off_vectors os))
      (energy (the (off_vector (hd os)))) (stacked_quality r (off_vectors os))
      (stacked_backscal_off rnd r os) (stacked_livetime rnd os) (list_obs_id os)"
  let ?st4 = "?st3\<lparr>stacked_on_vector := Some ?on, stacked_off_vector := Some ?off\<rparr>"
  have hd_on: "energy (hd (map on_vector os)) = e_reco (hd os)"
    using assms(1) by (simp add: hd_map e_reco_def)
  have hd_off: "hd (off_vectors os) = the (off_vector (hd os))"
    using assms(1) by (simp add: off_vectors_def hd_map)
  have s4: "setup_counts_vectors rnd ?st3 = Inr ?st4"
    by (simp add: setup_counts_vectors_def ol lt stacked_vector_def hd_on hd_off)
  have c: "stack_counts_vectors rnd ?st0 = Inr ?st4"
    unfolding stack_counts_vectors_def s1 ebind_Inr s2 s3 s4 ..
  have ol4: "obs_list ?st4 = os"
    by (simp add: ol)
  let ?a = "\<lparr>aeff_energy = e_true (hd os), aeff_data = stacked_aeff_data rnd t os\<rparr>"
  let ?st5 = "?st4\<lparr>stacked_aeff := Some ?a\<rparr>"
  have s5: "stack_aeff rnd ?st4 = Inr ?st5"
    by (rule stack_aeff_eq [OF ol4 assms])
  have ol5: "obs_list ?st5 = os"
    by (simp add: ol)
  let ?d = "\<lparr>edisp_e_true = e_true (hd os), edisp_e_reco = e_reco (hd os),
      edisp_data = stacked_edisp_data rnd r t os\<rparr>"
  let ?st6 = "?st5\<lparr>stacked_edisp := Some ?d\<rparr>"
  have s6: "stack_edisp rnd ?st5 = Inr ?st6"
    by (rule stack_edisp_eq [OF ol5 assms])
  have s7: "stack_obs ?st6
      = Inr (?st6\<lparr>stacked_obs := Some (SpectrumObservation ?on ?a (Some ?off) (Some ?d))\<rparr>)"
    by (simp add: stack_obs_def)
  have "run rnd ?st0
      = Inr (?st6\<lparr>stacked_obs := Some (SpectrumObservation ?on ?a (Some ?off) (Some ?d))\<rparr>)"
    unfolding run_def c ebind_Inr s5 s6 s7 ..
  then show ?thesis
    by (simp add: stack_def stacked_observation_def)
qed

section \<open>Bins outside the safe range\<close>

lemma counts_in_safe_range_nth:
  "k < length (data s) \<Longrightarrow>
     counts_in_safe_range s ! k = (if bin_is_safe s k then data s ! k else Fin 0)"
  by (simp add: counts_in_safe_range_def)

lemma stacked_counts_nth:
  assumes "\<forall>s \<in> set specs. pha_has_bins n s" and "k < n"
  shows "stacked_counts rnd n specs ! k
     = foldl (fadd rnd) (Fin 0) (map (\<lambda>s. counts_in_safe_range s ! k) specs)"
proof -
  have "\<forall>row \<in> set (map counts_in_safe_range specs). length row = length (replicate n (Fin 0))"
    using assms(1) by (simp add: pha_has_bins_def)
  from accumulate_nth [OF this, of k "fadd rnd"] assms(2) show ?thesis
    by (simp add: stacked_counts_def comp_def)
qed

lemma foldl_exact_remove1:
  assumes "x \<in> set xs" and "g x = Fin 0"
  shows "foldl (fadd Fin) (Fin 0) (map g xs) = foldl (fadd Fin) (Fin 0) (map g (remove1 x xs))"
proof -
  have "mset xs = mset (x # remove1 x xs)"
    using assms(1) by simp
  then have "mset (map g xs) = mset (map g (x # remove1 x xs))"
    by (metis mset_map)
  then have "foldl (fadd Fin) (Fin 0) (map g xs) = foldl (fadd Fin) (Fin 0) (map g (x # remove1 x xs))"
    by (intro foldl_permute [where f = "fadd Fin"] fadd_exact_swap)
  then show ?thesis
    using assms(2) by simp
qed

lemmas shape_eval = obs_has_shape_def pha_has_bins_def edisp_has_shape_def array2_ok_def
  obs_livetime_def SpectrumObservation_def worked_eval flagged_obs_def flagged_spectrum_def

text \<open>
  C4, as stated, fails: the counts of each vector are cut by that vector's own thresholds
  and quality flags.  For the observation whose on vector flags the second bin and whose
  off vector does not, the bin is unsafe by the flags of the observation's on vector, and
  the observation still adds its 5 off counts of that bin.
\<close>

theorem unsafe_bin_counterexample:
  "flagged (quality (on_vector on_flagged_obs)) 1 \<and> \<not> bin_is_safe (on_vector on_flagged_obs) 1
   \<and> map_option (\<lambda>s. data s ! 1) (off_vector on_flagged_obs) = Some (Fin 5)
   \<and> map_sum id (\<lambda>sob. (data (on_vector sob), map_option data (off_vector sob)))
       (stack round64 [on_flagged_obs])
     = Inr ([Fin 10, Fin 0], Some [Fin 5, Fin 5])"
  by (simp add: stack_eval worked_eval on_flagged_obs_def flagged_spectrum_def double_tenth_def
      round64_eval)

text \<open>
  C4, amended.  Every observation adds the counts in the safe range of its on vector to
  the stacked on counts of a bin and those of its off vector to the stacked off counts.
  Where the bin is not safe for the on vector of observation \<open>A\<close> (outside its thresholds
  or flagged by its quality array) the number it adds to the on counts is zero, whatever
  the other observations add, and likewise for the off vector and the off counts: in exact
  arithmetic the stacked counts of the bin are the sum over the list without \<open>A\<close>.
\<close>

theorem unsafe_bin_contributes_nothing:
  assumes "\<forall>ob \<in> set os. obs_has_shape r t ob" and "A \<in> set os" and "k < r"
    and "off_vector A = Some offA"
  shows "\<exists>sob offv. stack rnd os = Inr sob \<and> off_vector sob = Some offv
           \<and> data (on_vector sob) ! k
               = foldl (fadd rnd) (Fin 0) (map (\<lambda>ob. counts_in_safe_range (on_vector ob) ! k) os)
           \<and> data offv ! k
               = foldl (fadd rnd) (Fin 0)
                   (map (\<lambda>ob. counts_in_safe_range (the (off_vector ob)) ! k) os)
           \<and> (\<not> bin_is_safe (on_vector A) k \<longrightarrow>
                counts_in_safe_range (on_vector A) ! k = Fin 0
                \<and> (rnd = Fin \<longrightarrow> data (on_vector sob) ! k
                      = foldl (fadd Fin) (Fin 0)
                          (map (\<lambda>ob. counts_in_safe_range (on_vector ob) ! k) (remove1 A os))))
           \<and> (\<not> bin_is_safe offA k \<longrightarrow>
                counts_in_safe_range offA ! k = Fin 0
                \<and> (rnd = Fin \<longrightarrow> data offv ! k
                      = foldl (fadd Fin) (Fin 0)
                          (map (\<lambda>ob. counts_in_safe_range (the (off_vector ob)) ! k)
                             (remove1 A os))))"
proof -
  have ne: "os \<noteq> []"
    using assms(2) by auto
  let ?sob = "stacked_observation rnd r t os"
  let ?offv = "stacked_vector (stacked_counts rnd r (off_vectors os))
          (energy (the (off_vector (hd os)))) (stacked_quality r (off_vectors os))
          (stacked_backscal_off rnd r os) (stacked_livetime rnd os) (list_obs_id os)"
  have st: "stack rnd os = Inr ?sob"
    by (rule stack_eq [OF ne assms(1)])
  have off: "off_vector ?sob = Some ?offv"
    by (simp add: stacked_observation_def SpectrumObservation_def)
  have on_k: "data (on_vector ?sob) ! k
      = foldl (fadd rnd) (Fin 0) (map (\<lambda>ob. counts_in_safe_range (on_vector ob) ! k) os)"
    using stacked_counts_nth [OF on_vectors_have_bins [OF assms(1)] assms(3), of rnd]
    by (simp add: stacked_observation_def SpectrumObservation_def stacked_vector_def comp_def)
  have off_k: "data ?offv ! k
      = foldl (fadd rnd) (Fin 0) (map (\<lambda>ob. counts_in_safe_range (the (off_vector ob)) ! k) os)"
    using stacked_counts_nth [OF off_vectors_have_bins [OF assms(1)] assms(3), of rnd]
    by (simp add: stacked_vector_def off_vectors_def comp_def)
  have la: "length (data (on_vector A)) = r" "length (data offA) = r"
    using assms(1,2,4) obs_has_shape_D(1,2) [of r t A] by (auto simp: pha_has_bins_def)
  have zon: "counts_in_safe_range (on_vector A) ! k = Fin 0" if "\<not> bin_is_safe (on_vector A) k"
    using that la(1) assms(3) by (simp add: counts_in_safe_range_nth)
  have zoff: "counts_in_safe_range offA ! k = Fin 0" if "\<not> bin_is_safe offA k"
    using that la(2) assms(3) by (simp add: counts_in_safe_range_nth)
  have ron: "data (on_vector ?sob) ! k = foldl (fadd Fin) (Fin 0)
      (map (\<lambda>ob. counts_in_safe_range (on_vector ob) ! k) (remove1 A os))"
    if "\<not> bin_is_safe (on_vector A) k" "rnd = Fin"
    using on_k that(2) foldl_exact_remove1 [OF assms(2), of "\<lambda>ob. counts_in_safe_range (on_vector ob) ! k"]
      zon [OF that(1)] by simp
  have roff: "data ?offv ! k = foldl (fadd Fin) (Fin 0)
      (map (\<lambda>ob. counts_in_safe_range (the (off_vector ob)) ! k) (remove1 A os))"
    if "\<not> bin_is_safe offA k" "rnd = Fin"
    using off_k that(2)
      foldl_exact_remove1 [OF assms(2), of "\<lambda>ob. counts_in_safe_range (the (off_vector ob)) ! k"]
      zoff [OF that(1)] assms(4) by simp
  show ?thesis
    using st off on_k off_k zon zoff ron roff by blast
qed

theorem unsafe_bin_contributes_nothing_witness:
  "obs_has_shape 2 2 (worked_obs1 (1 / 10)) \<and> obs_has_shape 2 2 flagged_obs
   \<and> flagged_obs \<in> set [worked_obs1 (1 / 10), flagged_obs] \<and> (1::nat) < 2
   \<and> off_vector flagged_obs = Some (flagged_spectrum [5, 5])
   \<and> \<not> bin_is_safe (on_vector flagged_obs) 1 \<and> \<not> bin_is_safe (flagged_spectrum [5, 5]) 1
   \<and> (\<exists>sob offv. stack Fin [worked_obs1 (1 / 10), flagged_obs] = Inr sob
         \<and> off_vector sob = Some offv
         \<and> data (on_vector sob) ! 1 = Fin 20 \<and> data offv ! 1 = Fin 5)"
proof -
  let ?os = "[worked_obs1 (1 / 10), flagged_obs]"
  have 0: "obs_has_shape 2 2 (worked_obs1 (1 / 10))" "obs_has_shape 2 2 flagged_obs"
    by (simp_all add: shape_eval numeral_2_eq_2)
  then have 1: "\<forall>ob \<in> set ?os. obs_has_shape 2 2 ob"
    by simp
  have 2: "flagged_obs \<in> set ?os" by simp
  have 3: "(1::nat) < 2" by simp
  have 4: "off_vector flagged_obs = Some (flagged_spectrum [5, 5])"
    by (simp add: flagged_obs_def SpectrumObservation_def)
  have 5: "\<not> bin_is_safe (on_vector flagged_obs) 1" "\<not> bin_is_safe (flagged_spectrum [5, 5]) 1"
    by (simp_all add: bin_is_safe_def flagged_def flagged_obs_def flagged_spectrum_def
        SpectrumObservation_def)
  have 6: "remove1 flagged_obs ?os = [worked_obs1 (1 / 10)]"
    by (simp add: shape_eval)
  have 7: "counts_in_safe_range (on_vector (worked_obs1 (1 / 10))) ! 1 = Fin 20"
    "counts_in_safe_range (the (off_vector (worked_obs1 (1 / 10)))) ! 1 = Fin 5"
    by (simp_all add: stack_eval worked_eval)
  from unsafe_bin_contributes_nothing [OF 1 2 3 4, of Fin] 5 6 7
  have "\<exists>sob offv. stack Fin ?os = Inr sob \<and> off_vector sob = Some offv
         \<and> data (on_vector sob) ! 1 = Fin 20 \<and> data offv ! 1 = Fin 5"
    by auto
  with 0 2 3 4 5 show ?thesis by blast
qed

section \<open>Stacking a single observation\<close>

text \<open>
  C2, as stated, fails twice, in binary64 arithmetic.  Stacking the observation with a
  flagged bin alone gives zero on counts in the flagged bin, where the observation has 20.
  Stacking alone an observation without unsafe bins, with the effective area 0.1 and a
  livetime of 3 s, reproduces its counts and gives the effective area
  0.10000000000000002: the product with the livetime and the division by it do not
  cancel.
\<close>

theorem singleton_identity_counterexample:
  "data (on_vector flagged_obs) = [Fin 10, Fin 20]
   \<and> map_sum id (\<lambda>sob. data (on_vector sob)) (stack round64 [flagged_obs]) = Inr [Fin 10, Fin 0]
   \<and> aeff_data (aeff (plain_obs 3 double_tenth)) = [Fin double_tenth, Fin double_tenth]
   \<and> data (on_vector (plain_obs 3 double_tenth)) = [Fin 10, Fin 20]
   \<and> map_sum id (\<lambda>sob. (data (on_vector sob), aeff_data (aeff sob)))
       (stack round64 [plain_obs 3 double_tenth])
     = Inr ([Fin 10, Fin 20],
            [Fin (7205759403792795 / 2 ^ 56), Fin (7205759403792795 / 2 ^ 56)])
   \<and> (7205759403792795 / 2 ^ 56 :: real) \<noteq> double_tenth"
  by (simp add: stack_eval worked_eval flagged_obs_def flagged_spectrum_def plain_obs_def
      double_tenth_def round64_eval)

lemma map2_fadd_zero:
  "length xs = n \<Longrightarrow> \<forall>v \<in> set xs. fadd rnd (Fin 0) v = v \<Longrightarrow>
     map2 (fadd rnd) (replicate n (Fin 0)) xs = xs"
  by (rule nth_equalityI) simp_all

lemma set_counts_in_safe_range:
  "set (counts_in_safe_range s) \<subseteq> insert (Fin 0) (set (data s))"
  by (auto simp: counts_in_safe_range_def)

lemma counts_in_safe_range_all_safe:
  "\<forall>k < length (data s). bin_is_safe s k \<Longrightarrow> counts_in_safe_range s = data s"
  by (rule nth_equalityI) (simp_all add: counts_in_safe_range_nth)

lemma fdiv_fmul_exact:
  "a \<noteq> NaN \<Longrightarrow> tt \<noteq> 0 \<Longrightarrow> fdiv Fin (fmul Fin a (Fin tt)) (Fin tt) = a"
  by (cases a) (auto simp: not_less)

lemma evaluate_fill_nan_no_NaN: "v \<in> set (evaluate_fill_nan a) \<Longrightarrow> v \<noteq> NaN"
  by (auto simp: evaluate_fill_nan_def)

lemma aefft_row_livetime:
  "obs_livetime ob = Some tv \<Longrightarrow>
     aefft_row rnd ob = map (\<lambda>a. fmul rnd a tv) (evaluate_fill_nan (aeff ob))"
  by (simp add: aefft_row_def aefft_current_def)

text \<open>The responses of a single observation stacked in exact arithmetic.\<close>

lemma singleton_responses_exact:
  assumes "obs_has_shape r t A" and "edisp A = Some d"
    and "obs_livetime A = Some (Fin tt)" and "tt \<noteq> 0"
  shows "stacked_aeff_data Fin t [A] = evaluate_fill_nan (aeff A)"
    and "l < t \<Longrightarrow> k < r \<Longrightarrow> evaluate_fill_nan (aeff A) ! l = Fin x \<Longrightarrow>
         at2 (pdf_in_safe_range d (obs_lo_threshold A) (obs_hi_threshold A)) l k = Fin p \<Longrightarrow>
         at2 (stacked_edisp_data Fin r t [A]) l k = (if x = 0 then Fin 0 else Fin p)"
proof -
  have len: "length (aeff_data (aeff A)) = t"
    using obs_has_shape_D(4) [OF assms(1)] .
  have row: "aefft_row Fin A = map (\<lambda>a. fmul Fin a (Fin tt)) (evaluate_fill_nan (aeff A))"
    by (rule aefft_row_livetime [OF assms(3)])
  have lrow: "length (aefft_row Fin A) = t"
    using len by (simp add: row evaluate_fill_nan_def)
  have aefft: "stacked_aefft Fin t [A] = aefft_row Fin A"
    using lrow by (simp add: stacked_aefft_def map2_fadd_zero)
  have lt: "stacked_livetime Fin [A] = Fin tt"
    by (simp add: stacked_livetime_def np_sum_short assms(3))
  have "map (\<lambda>a. fdiv Fin (fmul Fin a (Fin tt)) (Fin tt)) (evaluate_fill_nan (aeff A))
      = evaluate_fill_nan (aeff A)"
    by (rule map_idI) (simp add: fdiv_fmul_exact evaluate_fill_nan_no_NaN assms(4))
  then show "stacked_aeff_data Fin t [A] = evaluate_fill_nan (aeff A)"
    by (simp add: stacked_aeff_data_def aefft lt row comp_def)
  show "at2 (stacked_edisp_data Fin r t [A]) l k = (if x = 0 then Fin 0 else Fin p)"
    if "l < t" "k < r" "evaluate_fill_nan (aeff A) ! l = Fin x"
      "at2 (pdf_in_safe_range d (obs_lo_threshold A) (obs_hi_threshold A)) l k = Fin p"
  proof -
    have "l < length (evaluate_fill_nan (aeff A))"
      using that(1) len by (simp add: evaluate_fill_nan_def)
    then have c: "aefft_row Fin A ! l = Fin (x * tt)"
      using that(3) by (simp add: row)
    have "at2 (stacked_edisp_data Fin r t [A]) l k
       = nan_to_num (fdiv Fin (fadd Fin (Fin 0) (edisp_weight Fin A k l)) (aefft_row Fin A ! l))"
      using that(1,2) by (simp add: stacked_edisp_data_def aefft)
    also have "edisp_weight Fin A k l = Fin (p * (x * tt))"
      using that(4) c by (simp add: edisp_weight_def assms(2))
    finally show ?thesis
      using c assms(4) by simp
  qed
qed

text \<open>
  C2, amended.  Stacking a single well-shaped observation gives as on and off counts the
  counts in the safe range of its vectors, which are its counts when every bin is safe:
  in every arithmetic in which zero plus a count is that count, binary64 on binary64
  numbers included.  In exact arithmetic and for a finite livetime other than zero it
  gives as effective area the observation's own with NaN replaced by zero, and at every
  finite entry of its energy-dispersion matrix in the safe range that entry where the
  effective area of the true-energy bin is finite and not zero, and zero where that
  effective area is zero.
\<close>

theorem singleton_stack:
  assumes "obs_has_shape r t A" and "off_vector A = Some offA" and "edisp A = Some d"
    and "\<forall>v \<in> set (Fin 0 # data (on_vector A) @ data offA). fadd rnd (Fin 0) v = v"
  shows "\<exists>sob offv sd. stack rnd [A] = Inr sob \<and> off_vector sob = Some offv \<and> edisp sob = Some sd
     \<and> data (on_vector sob) = counts_in_safe_range (on_vector A)
     \<and> data offv = counts_in_safe_range offA
     \<and> ((\<forall>k < r. bin_is_safe (on_vector A) k) \<longrightarrow> data (on_vector sob) = data (on_vector A))
     \<and> ((\<forall>k < r. bin_is_safe offA k) \<longrightarrow> data offv = data offA)
     \<and> (\<forall>tt. rnd = Fin \<and> obs_livetime A = Some (Fin tt) \<and> tt \<noteq> 0 \<longrightarrow>
           aeff_data (aeff sob) = evaluate_fill_nan (aeff A)
           \<and> (\<forall>l < t. \<forall>k < r. \<forall>x p.
                 evaluate_fill_nan (aeff A) ! l = Fin x
                 \<and> at2 (pdf_in_safe_range d (obs_lo_threshold A) (obs_hi_threshold A)) l k = Fin p
                 \<longrightarrow> at2 (edisp_data sd) l k = (if x = 0 then Fin 0 else Fin p)))"
proof -
  let ?sob = "stacked_observation rnd r t [A]"
  let ?offv = "stacked_vector (stacked_counts rnd r (off_vectors [A]))
          (energy (the (off_vector (hd [A])))) (stacked_quality r (off_vectors [A]))
          (stacked_backscal_off rnd r [A]) (stacked_livetime rnd [A]) (list_obs_id [A])"
  let ?sd = "\<lparr>edisp_e_true = e_true (hd [A]), edisp_e_reco = e_reco (hd [A]),
              edisp_data = stacked_edisp_data rnd r t [A]\<rparr>"
  have st: "stack rnd [A] = Inr ?sob"
    by (rule stack_eq) (simp_all add: assms(1))
  have off: "off_vector ?sob = Some ?offv" and ed: "edisp ?sob = Some ?sd"
    by (simp_all add: stacked_observation_def SpectrumObservation_def)
  have len: "length (data (on_vector A)) = r" "length (data offA) = r"
    using obs_has_shape_D(1,2) [OF assms(1)] assms(2) by (auto simp: pha_has_bins_def)
  have z_on: "\<forall>v \<in> set (counts_in_safe_range (on_vector A)). fadd rnd (Fin 0) v = v"
    using assms(4) set_counts_in_safe_range [of "on_vector A"] by auto
  have z_off: "\<forall>v \<in> set (counts_in_safe_range offA). fadd rnd (Fin 0) v = v"
    using assms(4) set_counts_in_safe_range [of offA] by auto
  have on: "data (on_vector ?sob) = counts_in_safe_range (on_vector A)"
    using len(1) z_on
    by (simp add: stacked_observation_def SpectrumObservation_def stacked_vector_def
        stacked_counts_def map2_fadd_zero)
  have offd: "data ?offv = counts_in_safe_range offA"
    using len(2) z_off
    by (simp add: stacked_vector_def stacked_counts_def off_vectors_def assms(2) map2_fadd_zero)
  have safe_on: "data (on_vector ?sob) = data (on_vector A)" if "\<forall>k < r. bin_is_safe (on_vector A) k"
    using on that len(1) by (simp add: counts_in_safe_range_all_safe)
  have safe_off: "data ?offv = data offA" if "\<forall>k < r. bin_is_safe offA k"
    using offd that len(2) by (simp add: counts_in_safe_range_all_safe)
  have exact: "aeff_data (aeff ?sob) = evaluate_fill_nan (aeff A)
      \<and> (\<forall>l < t. \<forall>k < r. \<forall>x p.
            evaluate_fill_nan (aeff A) ! l = Fin x
            \<and> at2 (pdf_in_safe_range d (obs_lo_threshold A) (obs_hi_threshold A)) l k = Fin p
            \<longrightarrow> at2 (edisp_data ?sd) l k = (if x = 0 then Fin 0 else Fin p))"
    if "rnd = Fin \<and> obs_livetime A = Some (Fin tt) \<and> tt \<noteq> 0" for tt
  proof -
    from that have r: "rnd = Fin" and l: "obs_livetime A = Some (Fin tt)" "tt \<noteq> 0"
      by simp_all
    note e = singleton_responses_exact [OF assms(1,3) l]
    show ?thesis
      using e by (simp add: r stacked_observation_def SpectrumObservation_def)
  qed
  show ?thesis
    using st off ed on offd safe_on safe_off exact by blast
qed

theorem singleton_stack_witness:
  "obs_has_shape 2 2 flagged_obs \<and> off_vector flagged_obs = Some (flagged_spectrum [5, 5])
   \<and> edisp flagged_obs = Some worked_edisp
   \<and> fadd round64 (Fin 0) (Fin 0) = Fin 0 \<and> fadd round64 (Fin 0) (Fin 5) = Fin 5
   \<and> fadd round64 (Fin 0) (Fin 10) = Fin 10 \<and> fadd round64 (Fin 0) (Fin 20) = Fin 20
   \<and> obs_livetime flagged_obs = Some (Fin 100) \<and> (100::real) \<noteq> 0
   \<and> (\<exists>sob offv. stack round64 [flagged_obs] = Inr sob \<and> off_vector sob = Some offv
         \<and> data (on_vector sob) = [Fin 10, Fin 0] \<and> data offv = [Fin 5, Fin 0])
   \<and> (\<exists>sob sd. stack Fin [flagged_obs] = Inr sob \<and> edisp sob = Some sd
         \<and> data (on_vector sob) = [Fin 10, Fin 0]
         \<and> aeff_data (aeff sob) = [Fin 2, Fin 4]
         \<and> at2 (edisp_data sd) 0 0 = Fin (3 / 4))"
proof -
  have 1: "obs_has_shape 2 2 flagged_obs"
    by (simp add: shape_eval numeral_2_eq_2)
  have 2: "off_vector flagged_obs = Some (flagged_spectrum [5, 5])"
    and 3: "edisp flagged_obs = Some worked_edisp"
    and 4: "obs_livetime flagged_obs = Some (Fin 100)"
    by (simp_all add: shape_eval)
  have z: "fadd round64 (Fin 0) (Fin 0) = Fin 0" "fadd round64 (Fin 0) (Fin 5) = Fin 5"
    "fadd round64 (Fin 0) (Fin 10) = Fin 10" "fadd round64 (Fin 0) (Fin 20) = Fin 20"
    by (simp_all add: round64_eval)
  have d: "data (on_vector flagged_obs) = [Fin 10, Fin 20]"
    "data (flagged_spectrum [5, 5]) = [Fin 5, Fin 5]"
    by (simp_all add: shape_eval)
  have 5: "\<forall>v \<in> set (Fin 0 # data (on_vector flagged_obs) @ data (flagged_spectrum [5, 5])).
      fadd round64 (Fin 0) v = v"
    using z by (simp add: d)
  have x5: "\<forall>v \<in> set (Fin 0 # data (on_vector flagged_obs) @ data (flagged_spectrum [5, 5])).
      fadd Fin (Fin 0) v = v"
    by simp
  have 6: "counts_in_safe_range (on_vector flagged_obs) = [Fin 10, Fin 0]"
    "counts_in_safe_range (flagged_spectrum [5, 5]) = [Fin 5, Fin 0]"
    "evaluate_fill_nan (aeff flagged_obs) = [Fin 2, Fin 4]"
    "at2 (pdf_in_safe_range worked_edisp (obs_lo_threshold flagged_obs)
            (obs_hi_threshold flagged_obs)) 0 0 = Fin (3 / 4)"
    by (simp_all add: stack_eval shape_eval)
  from singleton_stack [OF 1 2 3 5] 6
  have a: "\<exists>sob offv. stack round64 [flagged_obs] = Inr sob \<and> off_vector sob = Some offv
         \<and> data (on_vector sob) = [Fin 10, Fin 0] \<and> data offv = [Fin 5, Fin 0]"
    by auto
  from singleton_stack [OF 1 2 3 x5] obtain sob sd where
    b: "stack Fin [flagged_obs] = Inr sob" "edisp sob = Some sd"
      "data (on_vector sob) = counts_in_safe_range (on_vector flagged_obs)"
    and c: "\<forall>tt. Fin = Fin \<and> obs_livetime flagged_obs = Some (Fin tt) \<and> tt \<noteq> 0 \<longrightarrow>
           aeff_data (aeff sob) = evaluate_fill_nan (aeff flagged_obs)
           \<and> (\<forall>l < 2. \<forall>k < 2. \<forall>x p.
                 evaluate_fill_nan (aeff flagged_obs) ! l = Fin x
                 \<and> at2 (pdf_in_safe_range worked_edisp (obs_lo_threshold flagged_obs)
                           (obs_hi_threshold flagged_obs)) l k = Fin p
                 \<longrightarrow> at2 (edisp_data sd) l k = (if x = 0 then Fin 0 else Fin p))"
    by blast
  from c [rule_format, of 100] 4
  have e: "aeff_data (aeff sob) = evaluate_fill_nan (aeff flagged_obs)"
    and f: "\<forall>l < 2. \<forall>k < 2. \<forall>x p.
                 evaluate_fill_nan (aeff flagged_obs) ! l = Fin x
                 \<and> at2 (pdf_in_safe_range worked_edisp (obs_lo_threshold flagged_obs)
                           (obs_hi_threshold flagged_obs)) l k = Fin p
                 \<longrightarrow> at2 (edisp_data sd) l k = (if x = 0 then Fin 0 else Fin p)"
    by simp_all
  from f [rule_format, of 0 0 2 "3 / 4"] 6
  have g: "at2 (edisp_data sd) 0 0 = Fin (3 / 4)"
    by simp
  from b e g 6
  have "\<exists>sob sd. stack Fin [flagged_obs] = Inr sob \<and> edisp sob = Some sd
         \<and> data (on_vector sob) = [Fin 10, Fin 0]
         \<and> aeff_data (aeff sob) = [Fin 2, Fin 4]
         \<and> at2 (edisp_data sd) 0 0 = Fin (3 / 4)"
    by auto
  with 1 2 3 4 z a show ?thesis
    by simp
qed

section \<open>NaN in the stacked responses\<close>


lemma nan_to_num_no_NaN [simp]: "nan_to_num v \<noteq> NaN" "NaN \<noteq> nan_to_num v"
  by (cases v; simp)+







section \<open>The order of the observations\<close>

text \<open>
  C5, as stated, fails: binary64 addition is not associative, and the stacked effective
  area of three observations with the areas 0.1, 0.2 and 0.3 on shared grids is
  0.20000000000000004 in this order and 0.19999999999999998 in the reverse order.
\<close>

theorem permuted_stack_counterexample:
  "map_sum id (\<lambda>sob. aeff_data (aeff sob))
     (stack round64
        [area_obs double_tenth 1, area_obs double_fifth 2, area_obs double_three_tenths 3])
     = Inr [Fin (7205759403792795 / 2 ^ 55), Fin (7205759403792795 / 2 ^ 55)]
   \<and> map_sum id (\<lambda>sob. aeff_data (aeff sob))
       (stack round64
          [area_obs double_three_tenths 3, area_obs double_fifth 2, area_obs double_tenth 1])
     = Inr [Fin (7205759403792793 / 2 ^ 55), Fin (7205759403792793 / 2 ^ 55)]"
  by (simp add: stack_eval worked_eval area_obs_def double_tenth_def double_fifth_def
      double_three_tenths_def round64_eval)

lemma stacked_counts_permute:
  assumes "mset specs = mset specs'"
  shows "stacked_counts Fin n specs = stacked_counts Fin n specs'"
proof -
  have "mset (map counts_in_safe_range specs) = mset (map counts_in_safe_range specs')"
    using assms by (metis mset_map)
  then show ?thesis
    unfolding stacked_counts_def
    by (intro accumulate_permute [where f = "fadd Fin"] fadd_exact_swap)
qed

lemma accumulate_map_permute:
  assumes "mset os = mset os'"
  shows "accumulate (fadd Fin) z (map g os) = accumulate (fadd Fin) z (map g os')"
proof -
  have "mset (map g os) = mset (map g os')"
    using assms by (metis mset_map)
  then show ?thesis
    by (intro accumulate_permute [where f = "fadd Fin"] fadd_exact_swap)
qed

lemma foldl_map_permute:
  assumes "mset os = mset os'"
  shows "foldl (fadd Fin) z (map g os) = foldl (fadd Fin) z (map g os')"
proof -
  have "mset (map g os) = mset (map g os')"
    using assms by (metis mset_map)
  then show ?thesis
    by (intro foldl_permute [where f = "fadd Fin"] fadd_exact_swap)
qed

text \<open>
  C5, amended.  In exact arithmetic, on well-shaped observations, the stacked on and off
  counts, background scalings, effective area and energy dispersion of a permutation of
  the list are those of the list.
\<close>

theorem stack_permutation_exact:
  assumes "mset os = mset os'" and "os \<noteq> []" and "\<forall>ob \<in> set os. obs_has_shape r t ob"
  shows "\<exists>sob sob' offv offv' sd sd'.
     stack Fin os = Inr sob \<and> stack Fin os' = Inr sob'
     \<and> off_vector sob = Some offv \<and> off_vector sob' = Some offv'
     \<and> edisp sob = Some sd \<and> edisp sob' = Some sd'
     \<and> data (on_vector sob') = data (on_vector sob) \<and> data offv' = data offv
     \<and> backscal (on_vector sob') = backscal (on_vector sob) \<and> backscal offv' = backscal offv
     \<and> aeff_data (aeff sob') = aeff_data (aeff sob)
     \<and> edisp_data sd' = edisp_data sd"
proof -
  have set_eq: "set os' = set os"
    using assms(1) by (metis mset_eq_setD)
  then have ne': "os' \<noteq> []" and shape': "\<forall>ob \<in> set os'. obs_has_shape r t ob"
    using assms(2,3) by auto
  have st: "stack Fin os = Inr (stacked_observation Fin r t os)"
    by (rule stack_eq [OF assms(2,3)])
  have st': "stack Fin os' = Inr (stacked_observation Fin r t os')"
    by (rule stack_eq [OF ne' shape'])
  have m_on: "mset (map on_vector os) = mset (map on_vector os')"
    and m_off: "mset (off_vectors os) = mset (off_vectors os')"
    unfolding off_vectors_def using assms(1) by (metis mset_map)+
  have c_on: "stacked_counts Fin r (map on_vector os') = stacked_counts Fin r (map on_vector os)"
    by (rule stacked_counts_permute [OF m_on [symmetric]])
  have c_off: "stacked_counts Fin r (off_vectors os') = stacked_counts Fin r (off_vectors os)"
    by (rule stacked_counts_permute [OF m_off [symmetric]])
  have b_on: "stacked_backscal_on Fin r os' = stacked_backscal_on Fin r os"
    unfolding stacked_backscal_on_def c_off
    by (simp add: accumulate_map_permute [OF assms(1)])
  have b_off: "stacked_backscal_off Fin r os' = stacked_backscal_off Fin r os"
    unfolding stacked_backscal_off_def c_off
    by (simp add: accumulate_map_permute [OF assms(1)])
  have lt: "stacked_livetime Fin os' = stacked_livetime Fin os"
    by (simp add: stacked_livetime_def np_sum_exact_fold foldl_map_permute [OF assms(1)])
  have af: "stacked_aefft Fin t os' = stacked_aefft Fin t os"
    by (simp add: stacked_aefft_def accumulate_map_permute [OF assms(1)])
  have ad: "stacked_aeff_data Fin t os' = stacked_aeff_data Fin t os"
    by (simp add: stacked_aeff_data_def lt af)
  have ed: "stacked_edisp_data Fin r t os' = stacked_edisp_data Fin r t os"
    by (simp add: stacked_edisp_data_def af foldl_map_permute [OF assms(1)])
  show ?thesis
    unfolding st st'
    by (simp add: stacked_observation_def SpectrumObservation_def stacked_vector_def
        c_on c_off b_on b_off ad ed)
qed

theorem stack_permutation_exact_witness:
  "mset [worked_obs1 (1 / 10), worked_obs2 (1 / 10)]
     = mset [worked_obs2 (1 / 10), worked_obs1 (1 / 10)]
   \<and> [worked_obs1 (1 / 10), worked_obs2 (1 / 10)] \<noteq> []
   \<and> obs_has_shape 2 2 (worked_obs1 (1 / 10)) \<and> obs_has_shape 2 2 (worked_obs2 (1 / 10))
   \<and> (\<exists>sob' offv' sd'.
         stack Fin [worked_obs2 (1 / 10), worked_obs1 (1 / 10)] = Inr sob'
         \<and> off_vector sob' = Some offv' \<and> edisp sob' = Some sd'
         \<and> data (on_vector sob') = [Fin 40, Fin 60] \<and> data offv' = [Fin 15, Fin 15]
         \<and> backscal (on_vector sob') = Some (PerBin [Fin (1 / 10), Fin (1 / 10)])
         \<and> aeff_data (aeff sob') = [Fin 2, Fin 4]
         \<and> edisp_data sd' = edisp_data worked_edisp)"
proof -
  let ?os = "[worked_obs1 (1 / 10), worked_obs2 (1 / 10)]"
  let ?os' = "[worked_obs2 (1 / 10), worked_obs1 (1 / 10)]"
  have 1: "mset ?os = mset ?os'"
    by (simp add: add_mset_commute)
  have 2: "?os \<noteq> []" by simp
  have s: "obs_has_shape 2 2 (worked_obs1 (1 / 10))" "obs_has_shape 2 2 (worked_obs2 (1 / 10))"
    by (simp_all add: shape_eval numeral_2_eq_2)
  then have 3: "\<forall>ob \<in> set ?os. obs_has_shape 2 2 ob"
    by simp
  have w: "on_vector (worked_stacked (1 / 10)) = worked_stacked_spectrum [40, 60] (1 / 10)"
    "off_vector (worked_stacked (1 / 10)) = Some (worked_stacked_spectrum [15, 15] (1 / 10))"
    "aeff (worked_stacked (1 / 10)) = worked_aeff"
    "edisp (worked_stacked (1 / 10)) = Some worked_edisp"
    by (simp_all add: worked_stacked_def SpectrumObservation_def)
  have v: "data (worked_stacked_spectrum [40, 60] (1 / 10)) = [Fin 40, Fin 60]"
    "data (worked_stacked_spectrum [15, 15] (1 / 10)) = [Fin 15, Fin 15]"
    "backscal (worked_stacked_spectrum [40, 60] (1 / 10)) = Some (PerBin [Fin (1 / 10), Fin (1 / 10)])"
    "aeff_data worked_aeff = [Fin 2, Fin 4]"
    by (simp_all add: worked_stacked_spectrum_def worked_aeff_def)
  from stack_permutation_exact [OF 1 2 3]
  have "\<exists>sob' offv' sd'.
         stack Fin ?os' = Inr sob'
         \<and> off_vector sob' = Some offv' \<and> edisp sob' = Some sd'
         \<and> data (on_vector sob') = [Fin 40, Fin 60] \<and> data offv' = [Fin 15, Fin 15]
         \<and> backscal (on_vector sob') = Some (PerBin [Fin (1 / 10), Fin (1 / 10)])
         \<and> aeff_data (aeff sob') = [Fin 2, Fin 4]
         \<and> edisp_data sd' = edisp_data worked_edisp"
    by (auto simp: worked_exact w v)
  with 1 2 s show ?thesis by blast
qed

section \<open>What the stacker writes\<close>

lemma keeps_sreturn: "Q x \<Longrightarrow> keeps n (sreturn x) Q"
  by (simp add: keeps_def sreturn_def)

lemma keeps_sraise: "keeps n (sraise e) Q"
  by (simp add: keeps_def sraise_def)

lemma keeps_of_result: "(\<And>x. r = Inr x \<Longrightarrow> Q x) \<Longrightarrow> keeps n (of_result r) Q"
  by (cases r) (simp_all add: keeps_def of_result_def)

lemma keepsD:
  "keeps n m Q \<Longrightarrow> n \<le> length h \<Longrightarrow>
     length h \<le> length (snd (m h)) \<and> take n (snd (m h)) = take n h
     \<and> (case fst (m h) of Inl e \<Rightarrow> True | Inr x \<Rightarrow> Q x)"
  by (simp add: keeps_def)

lemma keeps_sbind:
  assumes "keeps n m (\<lambda>x. keeps n (f x) Q)"
  shows "keeps n (sbind m f) Q"
  unfolding keeps_def
proof (intro allI impI)
  fix h :: store
  assume n: "n \<le> length h"
  obtain r h1 where m: "m h = (r, h1)"
    by (cases "m h")
  from keepsD [OF assms n] m have 1: "length h \<le> length h1" "take n h1 = take n h"
    and 2: "case r of Inl e \<Rightarrow> True | Inr x \<Rightarrow> keeps n (f x) Q"
    by simp_all
  show "length h \<le> length (snd (sbind m f h)) \<and> take n (snd (sbind m f h)) = take n h
      \<and> (case fst (sbind m f h) of Inl e \<Rightarrow> True | Inr x \<Rightarrow> Q x)"
  proof (cases r)
    case (Inl e)
    then show ?thesis
      using m 1 by (simp add: sbind_def)
  next
    case (Inr x)
    with 2 have "keeps n (f x) Q"
      by simp
    from keepsD [OF this, of h1] n 1(1)
    have "length h1 \<le> length (snd (f x h1)) \<and> take n (snd (f x h1)) = take n h1
        \<and> (case fst (f x h1) of Inl e \<Rightarrow> True | Inr y \<Rightarrow> Q y)"
      by simp
    then show ?thesis
      using m Inr 1 by (simp add: sbind_def)
  qed
qed

lemma keeps_alloc: "(\<And>a. n \<le> a \<Longrightarrow> Q a) \<Longrightarrow> keeps n (alloc c) Q"
  by (simp add: keeps_def alloc_def)

lemma keeps_load: "(\<And>c. Q c) \<Longrightarrow> keeps n (load a) Q"
  by (simp add: keeps_def load_def)

lemma keeps_store_at: "n \<le> a \<Longrightarrow> Q () \<Longrightarrow> keeps n (store_at a c) Q"
  by (simp add: keeps_def store_at_def)

lemma keeps_if:
  "(b \<Longrightarrow> keeps n m Q) \<Longrightarrow> (\<not> b \<Longrightarrow> keeps n m' Q) \<Longrightarrow> keeps n (if b then m else m') Q"
  by simp

lemma keeps_floats_at: "(\<And>xs. Q xs) \<Longrightarrow> keeps n (floats_at a) Q"
  unfolding floats_at_def
  by (rule keeps_sbind, rule keeps_load) (simp add: keeps_sreturn keeps_sraise split: cell.split)

lemma keeps_flags_at: "(\<And>xs. Q xs) \<Longrightarrow> keeps n (flags_at a) Q"
  unfolding flags_at_def
  by (rule keeps_sbind, rule keeps_load) (simp add: keeps_sreturn keeps_sraise split: cell.split)

lemma keeps_matrix_at: "(\<And>m. Q m) \<Longrightarrow> keeps n (matrix_at a) Q"
  unfolding matrix_at_def
  by (rule keeps_sbind, rule keeps_load) (simp add: keeps_sreturn keeps_sraise split: cell.split)

lemma keeps_pha_at: "(\<And>p. Q p) \<Longrightarrow> keeps n (pha_at a) Q"
  unfolding pha_at_def
  by (rule keeps_sbind, rule keeps_load) (simp add: keeps_sreturn keeps_sraise split: cell.split)

lemmas keeps_basic = keeps_sbind keeps_sreturn keeps_sraise keeps_of_result keeps_alloc
  keeps_floats_at keeps_flags_at keeps_matrix_at keeps_pha_at keeps_if

lemma keeps_iadd: "n \<le> a \<Longrightarrow> Q () \<Longrightarrow> keeps n (iadd rnd a b) Q"
  unfolding iadd_def by (intro keeps_basic keeps_store_at)

lemma keeps_iadd2: "n \<le> a \<Longrightarrow> Q () \<Longrightarrow> keeps n (iadd2 rnd a b) Q"
  unfolding iadd2_def by (intro keeps_basic keeps_store_at)

lemma keeps_setitem: "n \<le> a \<Longrightarrow> Q () \<Longrightarrow> keeps n (setitem a idx v) Q"
  unfolding setitem_def by (intro keeps_basic keeps_store_at)

lemma keeps_set_attributes: "n \<le> a \<Longrightarrow> Q () \<Longrightarrow> keeps n (set_attributes a t b i) Q"
  unfolding set_attributes_def by (intro keeps_basic keeps_store_at)

lemma keeps_binop: "(\<And>a. n \<le> a \<Longrightarrow> Q a) \<Longrightarrow> keeps n (binop f a b) Q"
  unfolding binop_def by (intro keeps_basic)

lemma keeps_scale: "(\<And>a. n \<le> a \<Longrightarrow> Q a) \<Longrightarrow> keeps n (scale f a) Q"
  unfolding scale_def by (intro keeps_basic)

lemma keeps_logical_or: "(\<And>a. n \<le> a \<Longrightarrow> Q a) \<Longrightarrow> keeps n (logical_or a b) Q"
  unfolding logical_or_def by (intro keeps_basic)

lemma keeps_transpose_st: "(\<And>a. n \<le> a \<Longrightarrow> Q a) \<Longrightarrow> keeps n (transpose_st a) Q"
  unfolding transpose_st_def by (intro keeps_basic)

lemma keeps_last_axis_st: "(\<And>a. n \<le> a \<Longrightarrow> Q a) \<Longrightarrow> keeps n (last_axis_st f a v) Q"
  unfolding last_axis_st_def by (intro keeps_basic)

lemma keeps_nan_to_num_st: "(\<And>a. n \<le> a \<Longrightarrow> Q a) \<Longrightarrow> keeps n (nan_to_num_st a) Q"
  unfolding nan_to_num_st_def by (intro keeps_basic)

lemma keeps_backscal_value: "(\<And>x. Q x) \<Longrightarrow> keeps n (backscal_value b) Q"
  unfolding backscal_value_def
  by (cases b rule: option.exhaust; simp add: keeps_basic split: backscal_ref.split)

lemma keeps_pha_value: "(\<And>s. Q s) \<Longrightarrow> keeps n (pha_value a) Q"
  unfolding pha_value_def by (intro keeps_basic keeps_backscal_value)

lemma keeps_copy_backscal: "(\<And>x. Q x) \<Longrightarrow> keeps n (copy_backscal b) Q"
  unfolding copy_backscal_def
  by (cases b rule: option.exhaust; simp add: keeps_basic split: backscal_ref.split)

lemma keeps_copy_st: "(\<And>a. n \<le> a \<Longrightarrow> Q a) \<Longrightarrow> keeps n (copy_st a) Q"
  unfolding copy_st_def by (intro keeps_basic keeps_copy_backscal)

lemma keeps_counts_in_safe_range_st:
  "(\<And>a. n \<le> a \<Longrightarrow> Q a) \<Longrightarrow> keeps n (counts_in_safe_range_st a) Q"
  unfolding counts_in_safe_range_st_def by (intro keeps_basic keeps_pha_value)

lemma keeps_backscal_array_copy:
  "(\<And>a. n \<le> a \<Longrightarrow> Q a) \<Longrightarrow> keeps n (backscal_array_copy a) Q"
  unfolding backscal_array_copy_def by (intro keeps_basic keeps_pha_value)

lemma keeps_PHACountsSpectrum_st:
  "(\<And>a. n \<le> a \<Longrightarrow> Q a) \<Longrightarrow> keeps n (PHACountsSpectrum_st d e q) Q"
  unfolding PHACountsSpectrum_st_def by (intro keeps_basic)

lemma keeps_evaluate_st: "(\<And>a. n \<le> a \<Longrightarrow> Q a) \<Longrightarrow> keeps n (evaluate_st t) Q"
  unfolding evaluate_st_def by (intro keeps_basic)

lemma keeps_pdf_in_safe_range_st:
  "(\<And>a. n \<le> a \<Longrightarrow> Q a) \<Longrightarrow> keeps n (pdf_in_safe_range_st d lo hi) Q"
  unfolding pdf_in_safe_range_st_def by (intro keeps_basic)

lemma keeps_livetimes_st: "(\<And>ts. Q ts) \<Longrightarrow> keeps n (livetimes_st os) Q"
proof (induction os arbitrary: Q)
  case Nil
  then show ?case by (simp add: keeps_sreturn)
next
  case (Cons ob os)
  show ?case
    unfolding livetimes_st.simps by (intro keeps_basic Cons.IH Cons.prems)
qed

lemma keeps_total_livetime_st: "(\<And>t. Q t) \<Longrightarrow> keeps n (total_livetime_st rnd os) Q"
  unfolding total_livetime_st_def by (intro keeps_basic keeps_livetimes_st)

lemma keeps_obs_ids_st: "(\<And>ns. Q ns) \<Longrightarrow> keeps n (obs_ids_st os) Q"
proof (induction os arbitrary: Q)
  case Nil
  then show ?case by (simp add: keeps_sreturn)
next
  case (Cons ob os)
  show ?case
    unfolding obs_ids_st.simps by (intro keeps_basic Cons.IH Cons.prems)
qed

lemma keeps_list_obs_id_st: "(\<And>i. Q i) \<Longrightarrow> keeps n (list_obs_id_st os) Q"
  unfolding list_obs_id_st_def by (intro keeps_basic keeps_obs_ids_st)

lemmas keeps_methods = keeps_basic keeps_binop keeps_scale keeps_logical_or keeps_transpose_st
  keeps_last_axis_st keeps_nan_to_num_st keeps_pha_value keeps_copy_st
  keeps_counts_in_safe_range_st keeps_backscal_array_copy keeps_PHACountsSpectrum_st
  keeps_evaluate_st keeps_pdf_in_safe_range_st keeps_total_livetime_st keeps_list_obs_id_st

subsection \<open>The stages\<close>

lemma keeps_stack_counts_loop_st:
  assumes "n \<le> sd" and "\<And>r. n \<le> fst r \<Longrightarrow> Q r"
  shows "keeps n (stack_counts_loop_st rnd specs sd sq) Q"
proof (induction specs arbitrary: sq)
  case Nil
  show ?case by (simp add: keeps_sreturn assms)
next
  case (Cons x specs)
  show ?case
  proof (cases x)
    case None
    then show ?thesis by (simp add: keeps_sraise)
  next
    case (Some spec)
    show ?thesis
      unfolding Some stack_counts_loop_st.simps
      by (intro keeps_methods keeps_iadd Cons.IH assms(1))
  qed
qed

lemma keeps_stack_counts_spectrum_st:
  assumes "\<And>a. n \<le> a \<Longrightarrow> Q a"
  shows "keeps n (stack_counts_spectrum_st rnd specs) Q"
  unfolding stack_counts_spectrum_st_def
  by (intro keeps_methods keeps_stack_counts_loop_st assms)

lemma keeps_stack_on_vector_st:
  assumes "fresh_stacker n st" and "\<And>st'. fresh_stacker n st' \<Longrightarrow> Q st'"
  shows "keeps n (stack_on_vector_st rnd st) Q"
  unfolding stack_on_vector_st_def
  using assms(1)
  by (intro keeps_methods keeps_stack_counts_spectrum_st assms(2)) (simp add: fresh_stacker_def)

lemma keeps_stack_off_vector_st:
  assumes "fresh_stacker n st" and "\<And>st'. fresh_stacker n st' \<Longrightarrow> Q st'"
  shows "keeps n (stack_off_vector_st rnd st) Q"
  unfolding stack_off_vector_st_def
  using assms(1)
  by (intro keeps_methods keeps_stack_counts_spectrum_st assms(2)) (simp add: fresh_stacker_def)

lemma keeps_backscal_loop_st:
  assumes "n \<le> bkscal_on" and "n \<le> bkscal_off" and "Q ()"
  shows "keeps n (backscal_loop_st rnd os bkscal_on bkscal_off) Q"
proof (induction os)
  case Nil
  show ?case by (simp add: keeps_sreturn assms)
next
  case (Cons ob os)
  show ?case
    unfolding backscal_loop_st.simps
    by (intro keeps_methods keeps_iadd Cons.IH assms(1,2))
qed

lemma keeps_stack_backscal_st:
  assumes "fresh_stacker n st" and "\<And>st'. fresh_stacker n st' \<Longrightarrow> Q st'"
  shows "keeps n (stack_backscal_st rnd st) Q"
  unfolding stack_backscal_st_def
  using assms(1)
  by (intro keeps_methods keeps_backscal_loop_st keeps_setitem assms(2))
    (simp_all add: fresh_stacker_def)

lemma keeps_setup_counts_vectors_st:
  assumes "fresh_stacker n st" and "\<And>st'. fresh_stacker n st' \<Longrightarrow> Q st'"
  shows "keeps n (setup_counts_vectors_st rnd st) Q"
  unfolding setup_counts_vectors_st_def
  using assms(1)
  by (intro keeps_methods keeps_set_attributes assms(2))
    (auto simp: fresh_stacker_def of_option_def split: option.splits)

lemma keeps_stack_counts_vectors_st:
  assumes "fresh_stacker n st" and "\<And>st'. fresh_stacker n st' \<Longrightarrow> Q st'"
  shows "keeps n (stack_counts_vectors_st rnd st) Q"
  unfolding stack_counts_vectors_st_def
  by (intro keeps_sbind keeps_stack_on_vector_st keeps_stack_off_vector_st
      keeps_stack_backscal_st keeps_setup_counts_vectors_st assms)

lemma keeps_aefft_current_st:
  "(\<And>a. n \<le> a \<Longrightarrow> Q a) \<Longrightarrow> keeps n (aefft_current_st rnd ob) Q"
  unfolding aefft_current_st_def by (intro keeps_methods)

lemma keeps_aeff_loop_st:
  assumes "n \<le> aefft" and "Q ()"
  shows "keeps n (aeff_loop_st rnd os aefft) Q"
proof (induction os)
  case Nil
  show ?case by (simp add: keeps_sreturn assms)
next
  case (Cons ob os)
  show ?case
    unfolding aeff_loop_st.simps
    by (intro keeps_methods keeps_aefft_current_st keeps_iadd Cons.IH assms(1))
qed

lemma keeps_stack_aeff_st:
  assumes "fresh_stacker n st" and "\<And>st'. fresh_stacker n st' \<Longrightarrow> Q st'"
  shows "keeps n (stack_aeff_st rnd st) Q"
  unfolding stack_aeff_st_def
  using assms(1)
  by (intro keeps_methods keeps_aeff_loop_st assms(2)) (simp_all add: fresh_stacker_def)

lemma keeps_edisp_loop_st:
  assumes "n \<le> aefft" and "n \<le> aefftedisp" and "Q ()"
  shows "keeps n (edisp_loop_st rnd os aefft aefftedisp) Q"
proof (induction os)
  case Nil
  show ?case by (simp add: keeps_sreturn assms)
next
  case (Cons ob os)
  show ?case
    unfolding edisp_loop_st.simps
    by (intro keeps_methods keeps_aefft_current_st keeps_iadd keeps_iadd2 Cons.IH assms(1,2))
qed

lemma keeps_stack_edisp_st:
  assumes "fresh_stacker n st" and "\<And>st'. fresh_stacker n st' \<Longrightarrow> Q st'"
  shows "keeps n (stack_edisp_st rnd st) Q"
  unfolding stack_edisp_st_def
  using assms(1)
  by (intro keeps_methods keeps_edisp_loop_st assms(2)) (simp_all add: fresh_stacker_def)

lemma keeps_stack_obs_st: "Q' \<Longrightarrow> keeps n (stack_obs_st st) (\<lambda>_. Q')"
  unfolding stack_obs_st_def by (intro keeps_methods)

lemma keeps_run_st:
  assumes "fresh_stacker n st"
  shows "keeps n (run_st rnd st) (\<lambda>_. True)"
  unfolding run_st_def
  by (intro keeps_sbind keeps_stack_counts_vectors_st keeps_stack_aeff_st keeps_stack_edisp_st
      keeps_stack_obs_st assms TrueI)

lemma fresh_stacker_initial: "fresh_stacker n (SpectrumObservationStacker_st os)"
  by (simp add: fresh_stacker_def SpectrumObservationStacker_st_def)
lemmas store_eval = run_st_def stack_obs_st_def stack_edisp_st_def edisp_loop_st.simps
  stack_aeff_st_def aeff_loop_st.simps aefft_current_st_def stack_counts_vectors_st_def
  setup_counts_vectors_st_def set_attributes_def stack_backscal_st_def backscal_loop_st.simps
  stack_off_vector_st_def stack_on_vector_st_def stack_counts_spectrum_st_def
  stack_counts_loop_st.simps SpectrumObservationStacker_st_def list_obs_id_st_def
  obs_ids_st.simps total_livetime_st_def livetimes_st.simps pdf_in_safe_range_st_def
  evaluate_st_def PHACountsSpectrum_st_def backscal_array_copy_def counts_in_safe_range_st_def
  copy_st_def copy_backscal_def pha_value_def backscal_value_def nan_to_num_st_def iadd2_def
  last_axis_st_def transpose_st_def setitem_def logical_or_def scale_def binop_def iadd_def
  pha_at_def matrix_at_def flags_at_def floats_at_def store_at_def load_def alloc_def
  sbind_def of_result_def sraise_def sreturn_def worked_store_def worked_obs_st_def
  worked_pha_def

lemma stableD:
  "stable m \<Longrightarrow> take (length h) h' = h \<Longrightarrow> fst (m h) = Inr x \<Longrightarrow> fst (m h') = Inr x"
  by (simp add: stable_def)

lemma stable_sreturn: "stable (sreturn x)"
  by (simp add: stable_def sreturn_def)

lemma stable_sraise: "stable (sraise e)"
  by (simp add: stable_def sraise_def)

lemma stable_load: "stable (load a)"
  unfolding stable_def
proof (intro allI conjI impI)
  fix h h' :: store and x
  show "snd (load a h) = h"
    by (simp add: load_def)
  assume t: "take (length h) h' = h" and l: "fst (load a h) = Inr x"
  from l have a: "a < length h" and x: "h ! a = x"
    by (auto simp: load_def split: if_splits)
  have "length h \<le> length h'"
    using arg_cong [OF t, of length] by simp
  moreover have "h' ! a = h ! a"
    using nth_take [OF a, of h'] t by simp
  ultimately show "fst (load a h') = Inr x"
    using a x by (simp add: load_def)
qed

lemma stable_sbind:
  assumes "stable m" and "\<And>x. stable (f x)"
  shows "stable (sbind m f)"
  unfolding stable_def
proof (intro allI conjI impI)
  fix h h' :: store and y
  have m: "snd (m h) = h"
    using assms(1) by (simp add: stable_def)
  show s: "snd (sbind m f h) = h"
  proof (cases "fst (m h)")
    case (Inl e)
    with m show ?thesis
      by (cases "m h") (simp add: sbind_def)
  next
    case (Inr x)
    with m assms(2) [of x] show ?thesis
      by (cases "m h") (simp add: sbind_def stable_def)
  qed
  assume t: "take (length h) h' = h" and r: "fst (sbind m f h) = Inr y"
  from r m obtain x where x: "m h = (Inr x, h)" and y: "fst (f x h) = Inr y"
    by (cases "m h"; cases "fst (m h)") (auto simp: sbind_def)
  from stableD [OF assms(1) t, of x] x have "fst (m h') = Inr x"
    by simp
  moreover have "snd (m h') = h'"
    using assms(1) by (simp add: stable_def)
  ultimately have "m h' = (Inr x, h')"
    by (cases "m h'") simp
  with stableD [OF assms(2) t y] show "fst (sbind m f h') = Inr y"
    by (simp add: sbind_def)
qed

lemma stable_floats_at: "stable (floats_at a)"
  unfolding floats_at_def
  by (intro stable_sbind stable_load) (simp add: stable_sreturn stable_sraise split: cell.split)

lemma stable_flags_at: "stable (flags_at a)"
  unfolding flags_at_def
  by (intro stable_sbind stable_load) (simp add: stable_sreturn stable_sraise split: cell.split)

lemma stable_matrix_at: "stable (matrix_at a)"
  unfolding matrix_at_def
  by (intro stable_sbind stable_load) (simp add: stable_sreturn stable_sraise split: cell.split)

lemma stable_pha_at: "stable (pha_at a)"
  unfolding pha_at_def
  by (intro stable_sbind stable_load) (simp add: stable_sreturn stable_sraise split: cell.split)

lemma stable_backscal_value: "stable (backscal_value b)"
  unfolding backscal_value_def
  by (cases b rule: option.exhaust;
      simp add: stable_sbind stable_floats_at stable_sreturn split: backscal_ref.split)

lemma stable_pha_value: "stable (pha_value a)"
  unfolding pha_value_def
  by (intro stable_sbind stable_pha_at stable_floats_at stable_flags_at stable_backscal_value
      stable_sreturn)

text \<open>
  C8.  Whatever the list of observations and whether \<open>run\<close> returns or raises, the store
  it leaves holds every cell of the store it started from, unchanged: the stacker writes
  only to objects that it has allocated itself.  So every counts spectrum read before the
  run (counts, quality flags, background scaling, livetime, observation id, thresholds),
  every array of effective areas and every energy-dispersion matrix reads the same after
  it.
\<close>

theorem run_leaves_inputs_unchanged:
  assumes "run_st rnd (SpectrumObservationStacker_st os) h = (r, h')"
  shows "length h \<le> length h' \<and> take (length h) h' = h
     \<and> (\<forall>a s. fst (pha_value a h) = Inr s \<longrightarrow> fst (pha_value a h') = Inr s)
     \<and> (\<forall>a xs. fst (floats_at a h) = Inr xs \<longrightarrow> fst (floats_at a h') = Inr xs)
     \<and> (\<forall>a m. fst (matrix_at a h) = Inr m \<longrightarrow> fst (matrix_at a h') = Inr m)"
proof -
  from keepsD [OF keeps_run_st [OF fresh_stacker_initial], of "length h" h rnd os] assms
  have t: "length h \<le> length h'" "take (length h) h' = h"
    by simp_all
  show ?thesis
    using t stableD [OF stable_pha_value t(2)] stableD [OF stable_floats_at t(2)]
      stableD [OF stable_matrix_at t(2)]
    by blast
qed

theorem run_leaves_inputs_unchanged_witness:
  "map_sum id stacked_obs_of
     (fst (run_st Fin (SpectrumObservationStacker_st [worked_obs_st, worked_obs_st]) worked_store))
     = Inr (Some \<lparr>on_at = 17, aeff_of = \<lparr>aeff_energy_of = worked_grid, aeff_data_at = 49\<rparr>,
                    off_at = Some 27,
                    edisp_of = Some \<lparr>e_true_of = worked_grid, e_reco_of = worked_grid,
                                     edisp_data_at = 64\<rparr>\<rparr>)
   \<and> fst (pha_value 2 worked_store) = Inr (worked_spectrum [10, 20] (1 / 10) 100 1)
   \<and> take (length worked_store)
        (snd (run_st Fin (SpectrumObservationStacker_st [worked_obs_st, worked_obs_st]) worked_store))
     = worked_store
   \<and> fst (pha_value 2
        (snd (run_st Fin (SpectrumObservationStacker_st [worked_obs_st, worked_obs_st]) worked_store)))
     = Inr (worked_spectrum [10, 20] (1 / 10) 100 1)"
proof -
  let ?run = "run_st Fin (SpectrumObservationStacker_st [worked_obs_st, worked_obs_st]) worked_store"
  have 1: "?run = (fst ?run, snd ?run)"
    by simp
  have 2: "map_sum id stacked_obs_of (fst ?run)
     = Inr (Some \<lparr>on_at = 17, aeff_of = \<lparr>aeff_energy_of = worked_grid, aeff_data_at = 49\<rparr>,
                    off_at = Some 27,
                    edisp_of = Some \<lparr>e_true_of = worked_grid, e_reco_of = worked_grid,
                                     edisp_data_at = 64\<rparr>\<rparr>)"
    by (simp add: store_eval stack_eval worked_eval)
  have 3: "fst (pha_value 2 worked_store) = Inr (worked_spectrum [10, 20] (1 / 10) 100 1)"
    by (simp add: store_eval worked_eval)
  from run_leaves_inputs_unchanged [OF 1] 2 3 show ?thesis
    by blast
qed

end
